theory Spec2Isabelle
  imports Complex_Main "HOL-Library.Product_Lexorder" "HOL-Library.Multiset"
begin

section \<open>Data model\<close>

text \<open>
  The store is the set of MongoDB collections the scoring code reads and writes. A
  collection is the list of its documents. An ObjectId is a natural number. The Number
  fields the scoring code writes hold integers; a Number field whose schema default is
  \<open>null\<close> is an \<open>int option\<close> with \<open>None\<close> for \<open>null\<close>.
\<close>

type_synonym oid = nat

datatype winner = HOME | AWAY | DRAW

datatype stage = RoundOf32 | RoundOf16 | QuarterFinals | SemiFinals | ThirdPlace | Final

datatype phase = GroupStage | Knockout stage

datatype match_status = Scheduled | Live | Finished | Postponed | Cancelled

record match =
  m_id :: oid
  homeTeam :: oid
  awayTeam :: oid
  homeScore :: "int option"
  awayScore :: "int option"
  phase :: phase
  status :: match_status

record user =
  u_id :: oid
  username :: string
  totalPoints :: int
  correctMatches :: int
  correctScores :: int

record match_prediction =
  mp_user :: oid
  mp_match :: oid
  homeGoalsPred :: "int option"
  awayGoalsPred :: "int option"
  winnerPred :: winner
  mp_pointsAwarded :: int
  isCorrectWinner :: bool
  isCorrectScore :: bool

record group_prediction =
  gp_user :: oid
  gp_group :: string
  firstPlaceTeam :: oid
  secondPlaceTeam :: oid
  thirdPlaceTeam :: "oid option"
  gp_pointsAwarded :: int

record tournament_prediction =
  tp_user :: oid
  championTeam :: "oid option"
  runnerUpTeam :: "oid option"
  topScorerPlayer :: "oid option"
  bestPlayer :: "oid option"
  bestGoalkeeper :: "oid option"
  tp_pointsAwarded :: int

record knockout_prediction =
  kp_user :: oid
  kp_stage :: stage
  kp_matchOrder :: int
  kp_match :: "oid option"
  kp_homeTeam :: "oid option"
  kp_awayTeam :: "oid option"
  predictedWinnerTeam :: oid
  predictedScoreHome :: "int option"
  predictedScoreAway :: "int option"
  kp_pointsAwarded :: int

record team =
  t_id :: oid
  t_name :: string

record db =
  users :: "user list"
  teams :: "team list"
  matches :: "match list"
  matchPredictions :: "match_prediction list"
  groupPredictions :: "group_prediction list"
  tournamentPredictions :: "tournament_prediction list"
  knockoutPredictions :: "knockout_prediction list"

text \<open>
  An awaited \<open>save()\<close> can reject (validation, storage). Which saves reject is a
  parameter of the model: a predicate on the document being written, one per collection
  the scoring code saves to. A rejected save leaves the store as it was and throws.
\<close>

record faults =
  matchPredictionSaveFails :: "match_prediction \<Rightarrow> bool"
  groupPredictionSaveFails :: "group_prediction \<Rightarrow> bool"
  userSaveFails :: "user \<Rightarrow> bool"

definition noFaults :: faults where
  "noFaults = \<lparr>matchPredictionSaveFails = (\<lambda>_. False),
                groupPredictionSaveFails = (\<lambda>_. False),
                userSaveFails = (\<lambda>_. False)\<rparr>"

datatype error =
    MatchPredictionSaveFailed
  | GroupPredictionSaveFailed
  | UserSaveFailed
  | TypeError
  | NegativeSkip

subsection \<open>Queries and in-place writes\<close>

text \<open>
  \<open>findOne\<close> returns the first document of the collection that matches; saving the
  document that was found writes it back at its place.
\<close>

fun saveFound :: "('a \<Rightarrow> bool) \<Rightarrow> 'a \<Rightarrow> 'a list \<Rightarrow> 'a list" where
  "saveFound P d [] = []"
| "saveFound P d (x # xs) = (if P x then d # xs else x # saveFound P d xs)"

definition findById :: "user list \<Rightarrow> oid \<Rightarrow> user option" where
  "findById us i = find (\<lambda>u. u_id u = i) us"

definition saveUser :: "user \<Rightarrow> user list \<Rightarrow> user list" where
  "saveUser u us = saveFound (\<lambda>x. u_id x = u_id u) u us"

definition findMatchById :: "match list \<Rightarrow> oid \<Rightarrow> match option" where
  "findMatchById ms i = find (\<lambda>m. m_id m = i) ms"

definition findTeamById :: "team list \<Rightarrow> oid \<Rightarrow> team option" where
  "findTeamById ts i = find (\<lambda>t. t_id t = i) ts"

definition countDocuments :: "('a \<Rightarrow> bool) \<Rightarrow> 'a list \<Rightarrow> int" where
  "countDocuments P xs = int (length (filter P xs))"

text \<open>\<open>x || 0\<close> on a number: \<open>0\<close> is the only falsy integer.\<close>

definition orZero :: "int \<Rightarrow> int" where
  "orZero n = (if n = 0 then 0 else n)"

text \<open>\<open>[...new Set(xs)]\<close>: the distinct elements in order of first occurrence.\<close>

definition uniqueInOrder :: "'a list \<Rightarrow> 'a list" where
  "uniqueInOrder xs = foldl (\<lambda>acc x. if x \<in> set acc then acc else acc @ [x]) [] xs"

section \<open>Match scoring\<close>

text \<open>
  JavaScript's relational operators convert \<open>null\<close> to \<open>0\<close> before comparing
  numbers.
\<close>

definition toNumber :: "int option \<Rightarrow> int" where
  "toNumber x = (case x of None \<Rightarrow> 0 | Some n \<Rightarrow> n)"

definition jsGt :: "int option \<Rightarrow> int option \<Rightarrow> bool" where
  "jsGt a b = (toNumber a > toNumber b)"

definition computeActualWinner :: "match \<Rightarrow> winner" where
  "computeActualWinner m =
     (if jsGt (homeScore m) (awayScore m) then HOME
      else if jsGt (awayScore m) (homeScore m) then AWAY
      else DRAW)"

text \<open>The body of the loop of \<open>calculateMatchPointsForAllUsers\<close>, up to the save.\<close>

definition scoreMatchPrediction :: "match \<Rightarrow> match_prediction \<Rightarrow> match_prediction" where
  "scoreMatchPrediction m pred =
     (let actualWinner = computeActualWinner m;
          correctWinner = (winnerPred pred = actualWinner);
          correctScore = (correctWinner \<and> homeGoalsPred pred = homeScore m
                            \<and> awayGoalsPred pred = awayScore m);
          points0 = (0::int);
          points1 = (if correctWinner then points0 + 3 else points0);
          points2 = (if correctScore then points1 + 5 else points1)
      in pred\<lparr>mp_pointsAwarded := points2,
               isCorrectWinner := correctWinner,
               isCorrectScore := correctScore\<rparr>)"

section \<open>User aggregate recomputation\<close>

definition recalcUserTotals :: "faults \<Rightarrow> db \<Rightarrow> oid \<Rightarrow> db \<times> (error + user option)" where
  "recalcUserTotals F d userId =
     (case findById (users d) userId of
        None \<Rightarrow> (d, Inr None)
      | Some usr \<Rightarrow>
          (let groupPreds = filter (\<lambda>p. gp_user p = userId) (groupPredictions d);
               matchPreds = filter (\<lambda>p. mp_user p = userId) (matchPredictions d);
               knockoutPreds = filter (\<lambda>p. kp_user p = userId) (knockoutPredictions d);
               tournamentPred = find (\<lambda>p. tp_user p = userId) (tournamentPredictions d);
               total =
                 foldl (\<lambda>s p. s + orZero (gp_pointsAwarded p)) 0 groupPreds +
                 foldl (\<lambda>s p. s + orZero (mp_pointsAwarded p)) 0 matchPreds +
                 foldl (\<lambda>s p. s + orZero (kp_pointsAwarded p)) 0 knockoutPreds +
                 (case tournamentPred of None \<Rightarrow> 0 | Some t \<Rightarrow> orZero (tp_pointsAwarded t));
               cMatches = int (length (filter isCorrectWinner matchPreds));
               cScores = int (length (filter isCorrectScore matchPreds));
               usr' = usr\<lparr>totalPoints := total, correctMatches := cMatches,
                          correctScores := cScores\<rparr>
           in if userSaveFails F usr' then (d, Inl UserSaveFailed)
              else (d\<lparr>users := saveUser usr' (users d)\<rparr>, Inr (Some usr'))))"

section \<open>Result finalization for a match\<close>

text \<open>
  The scoring loop of \<open>calculateMatchPointsForAllUsers\<close> over the collection: the
  documents of the match are visited in collection order, each is scored and saved in
  place; the first rejected save throws, leaving that document and all later ones as
  they were.
\<close>

fun scoreLoop ::
  "faults \<Rightarrow> match \<Rightarrow> match_prediction list \<Rightarrow> match_prediction list \<times> error option" where
  "scoreLoop F m [] = ([], None)"
| "scoreLoop F m (p # ps) =
     (if mp_match p = m_id m then
        (let p' = scoreMatchPrediction m p
         in if matchPredictionSaveFails F p' then (p # ps, Some MatchPredictionSaveFailed)
            else (case scoreLoop F m ps of (ps', e) \<Rightarrow> (p' # ps', e)))
      else (case scoreLoop F m ps of (ps', e) \<Rightarrow> (p # ps', e)))"

fun recalcLoop :: "faults \<Rightarrow> db \<Rightarrow> oid list \<Rightarrow> db \<times> error option" where
  "recalcLoop F d [] = (d, None)"
| "recalcLoop F d (uid # uids) =
     (case recalcUserTotals F d uid of
        (d', Inl e) \<Rightarrow> (d', Some e)
      | (d', Inr _) \<Rightarrow> recalcLoop F d' uids)"

definition calculateMatchPointsForAllUsers :: "faults \<Rightarrow> db \<Rightarrow> oid \<Rightarrow> db \<times> error option" where
  "calculateMatchPointsForAllUsers F d matchId =
     (case findMatchById (matches d) matchId of
        None \<Rightarrow> (d, None)
      | Some m \<Rightarrow>
          if status m \<noteq> Finished then (d, None)
          else
            (let preds = filter (\<lambda>p. mp_match p = m_id m) (matchPredictions d)
             in case scoreLoop F m (matchPredictions d) of
                  (coll, Some e) \<Rightarrow> (d\<lparr>matchPredictions := coll\<rparr>, Some e)
                | (coll, None) \<Rightarrow>
                    (let affectedUserIds = uniqueInOrder (map mp_user preds)
                     in recalcLoop F (d\<lparr>matchPredictions := coll\<rparr>) affectedUserIds)))"

text \<open>
  \<open>PUT /api/admin/matches/:id\<close> (after the admin gate). A field absent from the
  request body is left as stored. The response is the updated match, 404, or 500 with
  the error that was caught.
\<close>

datatype 'a response = Ok200 'a | BadRequest400 | NotFound404 | ServerError500 error

definition updateMatchFields ::
  "int option option \<Rightarrow> int option option \<Rightarrow> match_status option \<Rightarrow> match \<Rightarrow> match" where
  "updateMatchFields hs as st m =
     m\<lparr>homeScore := (case hs of None \<Rightarrow> homeScore m | Some v \<Rightarrow> v),
       awayScore := (case as of None \<Rightarrow> awayScore m | Some v \<Rightarrow> v),
       status := (case st of None \<Rightarrow> status m | Some v \<Rightarrow> v)\<rparr>"

definition adminUpdateMatch ::
  "faults \<Rightarrow> db \<Rightarrow> oid \<Rightarrow> int option option \<Rightarrow> int option option \<Rightarrow> match_status option
     \<Rightarrow> db \<times> match response" where
  "adminUpdateMatch F d i hs as st =
     (case findMatchById (matches d) i of
        None \<Rightarrow> (d, NotFound404)
      | Some m0 \<Rightarrow>
          (let m = updateMatchFields hs as st m0;
               d1 = d\<lparr>matches := saveFound (\<lambda>x. m_id x = i) m (matches d)\<rparr>
           in if status m = Finished \<and> homeScore m \<noteq> None \<and> awayScore m \<noteq> None then
                (case calculateMatchPointsForAllUsers F d1 (m_id m) of
                   (d2, Some e) \<Rightarrow> (d2, ServerError500 e)
                 | (d2, None) \<Rightarrow> (d2, Ok200 m))
              else (d1, Ok200 m)))"

text \<open>\<open>POST /api/admin/calculate-all-points\<close>: the response carries the number of users.\<close>

definition calculateAllPoints :: "faults \<Rightarrow> db \<Rightarrow> db \<times> nat response" where
  "calculateAllPoints F d =
     (let us = users d
      in case recalcLoop F d (map u_id us) of
           (d', Some e) \<Rightarrow> (d', ServerError500 e)
         | (d', None) \<Rightarrow> (d', Ok200 (length us)))"

text \<open>What the scoring loop writes to a document when no save is rejected.\<close>

definition scoreIfMatch :: "match \<Rightarrow> match_prediction \<Rightarrow> match_prediction" where
  "scoreIfMatch m p = (if mp_match p = m_id m then scoreMatchPrediction m p else p)"

section \<open>Group scoring\<close>

text \<open>
  The standings of a request: each place is the ObjectId it names, or \<open>None\<close> when
  the field is absent or is not an ObjectId, in which case its string equals no team's.
\<close>

record standings =
  st_first :: "oid option"
  st_second :: "oid option"
  st_third :: "oid option"

record place_detail =
  dt_correct :: bool
  dt_points :: int

record bonus_detail =
  bd_earned :: bool
  bd_points :: int

record group_details =
  firstPlace :: place_detail
  secondPlace :: place_detail
  thirdPlace :: place_detail
  perfectBonus :: "bonus_detail option"

text \<open>The scoring of \<open>POST /api/predictions/groups/calculate-points\<close>.\<close>

definition scoreGroupWithDetails :: "group_prediction \<Rightarrow> standings \<Rightarrow> int \<times> group_details" where
  "scoreGroupWithDetails prediction actualStandings =
     (let points0 = (0::int);
          (points1, d1) =
            (if Some (firstPlaceTeam prediction) = st_first actualStandings
             then (points0 + 5, \<lparr>dt_correct = True, dt_points = 5\<rparr>)
             else (points0, \<lparr>dt_correct = False, dt_points = 0\<rparr>));
          (points2, d2) =
            (if Some (secondPlaceTeam prediction) = st_second actualStandings
             then (points1 + 3, \<lparr>dt_correct = True, dt_points = 3\<rparr>)
             else (points1, \<lparr>dt_correct = False, dt_points = 0\<rparr>));
          (points3, d3) =
            (if thirdPlaceTeam prediction \<noteq> None
                \<and> thirdPlaceTeam prediction = st_third actualStandings
             then (points2 + 2, \<lparr>dt_correct = True, dt_points = 2\<rparr>)
             else (points2, \<lparr>dt_correct = False, dt_points = 0\<rparr>));
          (points4, bonus) =
            (if points3 = 10 then (points3 + 5, Some \<lparr>bd_earned = True, bd_points = 5\<rparr>)
             else (points3, None))
      in (points4,
          \<lparr>firstPlace = d1, secondPlace = d2, thirdPlace = d3, perfectBonus = bonus\<rparr>))"

text \<open>The scoring of \<open>POST /api/admin/recalculate-group-points\<close>.\<close>

definition scoreGroupPrediction :: "group_prediction \<Rightarrow> standings \<Rightarrow> int" where
  "scoreGroupPrediction prediction standings =
     (let points0 = (0::int);
          points1 = (if Some (firstPlaceTeam prediction) = st_first standings
                     then points0 + 5 else points0);
          points2 = (if Some (secondPlaceTeam prediction) = st_second standings
                     then points1 + 3 else points1);
          points3 = (if thirdPlaceTeam prediction \<noteq> None
                        \<and> thirdPlaceTeam prediction = st_third standings
                     then points2 + 2 else points2);
          points4 = (if points3 = 10 then points3 + 5 else points3)
      in points4)"

text \<open>\<open>toUpperCase\<close> on the ASCII letters; group codes are single ASCII letters.\<close>

definition toUpperCase :: "string \<Rightarrow> string" where
  "toUpperCase s =
     map (\<lambda>c. let n = (of_char c :: nat)
              in if 97 \<le> n \<and> n \<le> 122 then char_of (n - 32) else c) s"

record group_points_response =
  gr_group :: string
  gr_pointsEarned :: int
  gr_previousPoints :: int
  gr_totalPoints :: int
  gr_details :: group_details

text \<open>
  \<open>POST /api/predictions/groups/calculate-points\<close> for the authenticated user
  \<open>reqUser\<close>. A missing user document makes \<open>user.totalPoints\<close> a TypeError.
\<close>

definition calculateGroupPoints ::
  "faults \<Rightarrow> db \<Rightarrow> oid \<Rightarrow> string \<Rightarrow> standings option \<Rightarrow> db \<times> group_points_response response" where
  "calculateGroupPoints F d reqUser grp actualStandings =
     (case actualStandings of
        None \<Rightarrow> (d, BadRequest400)
      | Some actual \<Rightarrow>
          if grp = [] then (d, BadRequest400)
          else
            (let g = toUpperCase grp;
                 q = (\<lambda>p. gp_user p = reqUser \<and> gp_group p = g)
             in case find q (groupPredictions d) of
                  None \<Rightarrow> (d, NotFound404)
                | Some prediction \<Rightarrow>
                    (let (points, dt) = scoreGroupWithDetails prediction actual;
                         oldPoints = orZero (gp_pointsAwarded prediction);
                         prediction' = prediction\<lparr>gp_pointsAwarded := points\<rparr>
                     in if groupPredictionSaveFails F prediction'
                        then (d, ServerError500 GroupPredictionSaveFailed)
                        else
                          (let d1 = d\<lparr>groupPredictions :=
                                       saveFound q prediction' (groupPredictions d)\<rparr>
                           in case findById (users d1) reqUser of
                                None \<Rightarrow> (d1, ServerError500 TypeError)
                              | Some usr \<Rightarrow>
                                  (let usr' = usr\<lparr>totalPoints :=
                                                orZero (totalPoints usr) - oldPoints + points\<rparr>
                                   in if userSaveFails F usr'
                                      then (d1, ServerError500 UserSaveFailed)
                                      else (d1\<lparr>users := saveUser usr' (users d1)\<rparr>,
                                            Ok200 \<lparr>gr_group = g, gr_pointsEarned = points,
                                                   gr_previousPoints = oldPoints,
                                                   gr_totalPoints = totalPoints usr',
                                                   gr_details = dt\<rparr>))))))"

section \<open>Other handlers of the current server that save user documents\<close>

text \<open>\<open>findOneAndDelete\<close> removes the first document of the collection that matches.\<close>

fun deleteFound :: "('a \<Rightarrow> bool) \<Rightarrow> 'a list \<Rightarrow> 'a list" where
  "deleteFound P [] = []"
| "deleteFound P (x # xs) = (if P x then xs else x # deleteFound P xs)"

text \<open>
  \<open>DELETE /api/predictions/match/:matchId\<close> for the authenticated user
  \<open>reqUser\<close>; \<open>matchId\<close> is the ObjectId the path names.
\<close>

definition deleteMatchPrediction ::
  "faults \<Rightarrow> db \<Rightarrow> oid \<Rightarrow> oid \<Rightarrow> db \<times> match_prediction response" where
  "deleteMatchPrediction F d reqUser matchId =
     (let q = (\<lambda>p. mp_user p = reqUser \<and> mp_match p = matchId)
      in case find q (matchPredictions d) of
           None \<Rightarrow> (d, NotFound404)
         | Some pred \<Rightarrow>
             (case recalcUserTotals F
                     (d\<lparr>matchPredictions := deleteFound q (matchPredictions d)\<rparr>) reqUser of
                (d2, Inl e) \<Rightarrow> (d2, ServerError500 e)
              | (d2, Inr _) \<Rightarrow> (d2, Ok200 pred)))"

text \<open>\<open>DELETE /api/predictions/group/:group\<close> for the authenticated user.\<close>

definition deleteGroupPrediction ::
  "faults \<Rightarrow> db \<Rightarrow> oid \<Rightarrow> string \<Rightarrow> db \<times> group_prediction response" where
  "deleteGroupPrediction F d reqUser grp =
     (let g = toUpperCase grp;
          q = (\<lambda>p. gp_user p = reqUser \<and> gp_group p = g)
      in case find q (groupPredictions d) of
           None \<Rightarrow> (d, NotFound404)
         | Some pred \<Rightarrow>
             (case recalcUserTotals F
                     (d\<lparr>groupPredictions := deleteFound q (groupPredictions d)\<rparr>) reqUser of
                (d2, Inl e) \<Rightarrow> (d2, ServerError500 e)
              | (d2, Inr _) \<Rightarrow> (d2, Ok200 pred)))"

text \<open>
  \<open>DELETE /api/predictions/tournament\<close> for the authenticated user: the aggregates
  are recomputed whether or not a prediction was found.
\<close>

definition deleteTournamentPrediction ::
  "faults \<Rightarrow> db \<Rightarrow> oid \<Rightarrow> db \<times> tournament_prediction option response" where
  "deleteTournamentPrediction F d reqUser =
     (let q = (\<lambda>p. tp_user p = reqUser);
          pred = find q (tournamentPredictions d)
      in case recalcUserTotals F
                (d\<lparr>tournamentPredictions := deleteFound q (tournamentPredictions d)\<rparr>)
                reqUser of
           (d2, Inl e) \<Rightarrow> (d2, ServerError500 e)
         | (d2, Inr _) \<Rightarrow> (d2, Ok200 pred))"

text \<open>
  \<open>DELETE /api/predictions/knockout\<close> for the authenticated user: \<open>deleteMany\<close>
  removes all of the user's Knockout predictions; the response carries their number.
\<close>

definition deleteKnockoutPredictions :: "faults \<Rightarrow> db \<Rightarrow> oid \<Rightarrow> db \<times> nat response" where
  "deleteKnockoutPredictions F d reqUser =
     (let deletedCount = length (filter (\<lambda>p. kp_user p = reqUser) (knockoutPredictions d))
      in case recalcUserTotals F
                (d\<lparr>knockoutPredictions :=
                     filter (\<lambda>p. kp_user p \<noteq> reqUser) (knockoutPredictions d)\<rparr>)
                reqUser of
           (d2, Inl e) \<Rightarrow> (d2, ServerError500 e)
         | (d2, Inr _) \<Rightarrow> (d2, Ok200 deletedCount))"

text \<open>
  \<open>POST /api/admin/recalculate-group-points\<close> (after the admin gate). The body's
  \<open>groupResults\<close> is \<open>None\<close> when it is missing, falsy or not an object, and else
  the list of its entries; the standings of an entry are \<open>None\<close> when they are
  \<open>null\<close>, which makes \<open>standings.first\<close> a TypeError as soon as a prediction of
  the group is scored. The predictions of a group are visited in collection order and
  saved in place; the first error ends the request.
\<close>

record recalc_result =
  rr_userId :: oid
  rr_group :: string
  rr_newPoints :: int

record recalc_response =
  rc_updated :: nat
  rc_results :: "recalc_result list"

fun groupScoreLoop ::
  "faults \<Rightarrow> string \<Rightarrow> standings option \<Rightarrow> group_prediction list
     \<Rightarrow> group_prediction list \<times> (error + recalc_result list)" where
  "groupScoreLoop F g st [] = ([], Inr [])"
| "groupScoreLoop F g st (prediction # ps) =
     (if gp_group prediction = g then
        (case st of
           None \<Rightarrow> (prediction # ps, Inl TypeError)
         | Some standings \<Rightarrow>
             (let points = scoreGroupPrediction prediction standings;
                  prediction' = prediction\<lparr>gp_pointsAwarded := points\<rparr>
              in if groupPredictionSaveFails F prediction'
                 then (prediction # ps, Inl GroupPredictionSaveFailed)
                 else (case groupScoreLoop F g st ps of
                         (ps', Inl e) \<Rightarrow> (prediction' # ps', Inl e)
                       | (ps', Inr results) \<Rightarrow>
                           (prediction' # ps',
                            Inr (\<lparr>rr_userId = gp_user prediction, rr_group = g,
                                  rr_newPoints = points\<rparr> # results)))))
      else (case groupScoreLoop F g st ps of (ps', r) \<Rightarrow> (prediction # ps', r)))"

fun groupResultsLoop ::
  "faults \<Rightarrow> db \<Rightarrow> (string \<times> standings option) list \<Rightarrow> db \<times> (error + recalc_result list)" where
  "groupResultsLoop F d [] = (d, Inr [])"
| "groupResultsLoop F d ((grp, st) # rest) =
     (case groupScoreLoop F (toUpperCase grp) st (groupPredictions d) of
        (coll, Inl e) \<Rightarrow> (d\<lparr>groupPredictions := coll\<rparr>, Inl e)
      | (coll, Inr results) \<Rightarrow>
          (case groupResultsLoop F (d\<lparr>groupPredictions := coll\<rparr>) rest of
             (d', Inl e) \<Rightarrow> (d', Inl e)
           | (d', Inr results') \<Rightarrow> (d', Inr (results @ results'))))"

definition recalculateGroupPoints ::
  "faults \<Rightarrow> db \<Rightarrow> (string \<times> standings option) list option \<Rightarrow> db \<times> recalc_response response" where
  "recalculateGroupPoints F d groupResults =
     (case groupResults of
        None \<Rightarrow> (d, BadRequest400)
      | Some entries \<Rightarrow>
          (case groupResultsLoop F d entries of
             (d1, Inl e) \<Rightarrow> (d1, ServerError500 e)
           | (d1, Inr results) \<Rightarrow>
               (let touched = uniqueInOrder (map rr_userId results)
                in case recalcLoop F d1 touched of
                     (d2, Some e) \<Rightarrow> (d2, ServerError500 e)
                   | (d2, None) \<Rightarrow>
                       (d2, Ok200 \<lparr>rc_updated = length results, rc_results = results\<rparr>))))"

text \<open>
  The Google sign-in callback. The identity fields of a user document (\<open>googleId\<close>,
  \<open>email\<close>, \<open>profilePic\<close>, \<open>bio\<close>, \<open>status\<close>) are not part of the
  \<open>user\<close> record: no scoring code reads or writes them. What the callback needs of
  them is given with the profile: \<open>pr_selects\<close> is the query
  \<open>$or: [{googleId: profile.id}, {email}]\<close> as a predicate on the stored documents,
  and \<open>pr_hasGoogleId\<close> tells whether \<open>user.googleId\<close> is truthy. A new
  document gets the generated \<open>_id\<close> \<open>newId\<close> (an \<open>_id\<close> already in the
  collection is a duplicate-key error) and the schema defaults 0 for the three aggregates.
  Linking an existing account assigns \<open>googleId\<close> and \<open>profilePic\<close> only, so the
  document is written back with the fields of the record as they were found.
\<close>

record google_profile =
  pr_displayName :: "string option"
  pr_selects :: "user \<Rightarrow> bool"
  pr_hasGoogleId :: "user \<Rightarrow> bool"

definition googleSignIn :: "faults \<Rightarrow> db \<Rightarrow> google_profile \<Rightarrow> oid \<Rightarrow> db \<times> (error + user)" where
  "googleSignIn F d profile newId =
     (case find (pr_selects profile) (users d) of
        None \<Rightarrow>
          (let usr = \<lparr>u_id = newId,
                      username = (case pr_displayName profile of
                                    None \<Rightarrow> ''Usuario''
                                  | Some n \<Rightarrow> if n = [] then ''Usuario'' else n),
                      totalPoints = 0, correctMatches = 0, correctScores = 0\<rparr>
           in if findById (users d) newId \<noteq> None \<or> userSaveFails F usr
              then (d, Inl UserSaveFailed)
              else (d\<lparr>users := users d @ [usr]\<rparr>, Inr usr))
      | Some usr \<Rightarrow>
          if pr_hasGoogleId profile usr then (d, Inr usr)
          else if userSaveFails F usr then (d, Inl UserSaveFailed)
          else (d\<lparr>users := saveFound (pr_selects profile) usr (users d)\<rparr>, Inr usr))"

section \<open>The older server, \<open>src/server.js\<close>\<close>

text \<open>
  The older file has no \<open>recalcUserTotals\<close>. It saves user documents in its group
  calculate-points handler, in its admin recalculation of group points and in its sign-in
  callback; it repeats the two handlers further down with the same code.

  Its group scoring compares \<open>prediction.place?.toString()\<close> with the field of the
  request by \<open>===\<close>, without converting the field: the two are equal when the field
  is the string of that ObjectId, or when both are \<open>undefined\<close>, which is the case of
  a prediction without third place and a request without \<open>third\<close>.
\<close>

datatype body_value = Undefined | IdString oid | OtherValue

record raw_standings =
  rs_first :: body_value
  rs_second :: body_value
  rs_third :: body_value

definition strictEqualsId :: "oid option \<Rightarrow> body_value \<Rightarrow> bool" where
  "strictEqualsId placeTeam v =
     (case placeTeam of None \<Rightarrow> v = Undefined | Some t \<Rightarrow> v = IdString t)"

definition scoreGroupWithDetails_serverJs ::
  "group_prediction \<Rightarrow> raw_standings \<Rightarrow> int \<times> group_details" where
  "scoreGroupWithDetails_serverJs prediction actualStandings =
     (let points0 = (0::int);
          (points1, d1) =
            (if strictEqualsId (Some (firstPlaceTeam prediction)) (rs_first actualStandings)
             then (points0 + 5, \<lparr>dt_correct = True, dt_points = 5\<rparr>)
             else (points0, \<lparr>dt_correct = False, dt_points = 0\<rparr>));
          (points2, d2) =
            (if strictEqualsId (Some (secondPlaceTeam prediction)) (rs_second actualStandings)
             then (points1 + 3, \<lparr>dt_correct = True, dt_points = 3\<rparr>)
             else (points1, \<lparr>dt_correct = False, dt_points = 0\<rparr>));
          (points3, d3) =
            (if strictEqualsId (thirdPlaceTeam prediction) (rs_third actualStandings)
             then (points2 + 2, \<lparr>dt_correct = True, dt_points = 2\<rparr>)
             else (points2, \<lparr>dt_correct = False, dt_points = 0\<rparr>));
          (points4, bonus) =
            (if points3 = 10 then (points3 + 5, Some \<lparr>bd_earned = True, bd_points = 5\<rparr>)
             else (points3, None))
      in (points4,
          \<lparr>firstPlace = d1, secondPlace = d2, thirdPlace = d3, perfectBonus = bonus\<rparr>))"

definition scoreGroupPrediction_serverJs :: "group_prediction \<Rightarrow> raw_standings \<Rightarrow> int" where
  "scoreGroupPrediction_serverJs prediction standings =
     (let points0 = (0::int);
          points1 = (if strictEqualsId (Some (firstPlaceTeam prediction)) (rs_first standings)
                     then points0 + 5 else points0);
          points2 = (if strictEqualsId (Some (secondPlaceTeam prediction)) (rs_second standings)
                     then points1 + 3 else points1);
          points3 = (if strictEqualsId (thirdPlaceTeam prediction) (rs_third standings)
                     then points2 + 2 else points2);
          points4 = (if points3 = 10 then points3 + 5 else points3)
      in points4)"

record group_points_response_serverJs =
  gs_group :: string
  gs_pointsEarned :: int
  gs_totalPoints :: int
  gs_details :: group_details

text \<open>
  \<open>POST /api/predictions/groups/calculate-points\<close> of \<open>src/server.js\<close> for the
  authenticated user: the points just computed are added to the stored total.
\<close>

definition calculateGroupPoints_serverJs ::
  "faults \<Rightarrow> db \<Rightarrow> oid \<Rightarrow> string \<Rightarrow> raw_standings option
     \<Rightarrow> db \<times> group_points_response_serverJs response" where
  "calculateGroupPoints_serverJs F d reqUser grp actualStandings =
     (case actualStandings of
        None \<Rightarrow> (d, BadRequest400)
      | Some actual \<Rightarrow>
          if grp = [] then (d, BadRequest400)
          else
            (let q = (\<lambda>p. gp_user p = reqUser \<and> gp_group p = toUpperCase grp)
             in case find q (groupPredictions d) of
                  None \<Rightarrow> (d, NotFound404)
                | Some prediction \<Rightarrow>
                    (let (points, dt) = scoreGroupWithDetails_serverJs prediction actual;
                         prediction' = prediction\<lparr>gp_pointsAwarded := points\<rparr>
                     in if groupPredictionSaveFails F prediction'
                        then (d, ServerError500 GroupPredictionSaveFailed)
                        else
                          (let d1 = d\<lparr>groupPredictions :=
                                       saveFound q prediction' (groupPredictions d)\<rparr>
                           in case findById (users d1) reqUser of
                                None \<Rightarrow> (d1, ServerError500 TypeError)
                              | Some usr \<Rightarrow>
                                  (let usr' = usr\<lparr>totalPoints := totalPoints usr + points\<rparr>
                                   in if userSaveFails F usr'
                                      then (d1, ServerError500 UserSaveFailed)
                                      else (d1\<lparr>users := saveUser usr' (users d1)\<rparr>,
                                            Ok200 \<lparr>gs_group = grp, gs_pointsEarned = points,
                                                   gs_totalPoints = totalPoints usr',
                                                   gs_details = dt\<rparr>))))))"

text \<open>
  \<open>POST /api/admin/recalculate-group-points\<close> of \<open>src/server.js\<close>. The body's
  \<open>groupResults\<close> is \<open>None\<close> when it is missing or \<open>null\<close>, which makes
  \<open>Object.entries\<close> a TypeError. Each prediction of a group is scored and saved, then
  its owner is loaded and saved with \<open>totalPoints - oldPoints + points\<close>; a missing
  owner is a TypeError. The loop threads the users and the predictions still to visit.
\<close>

record owner_result =
  or_userId :: oid
  or_username :: string
  or_group :: string
  or_oldPoints :: int
  or_newPoints :: int

record owner_response =
  oc_updated :: nat
  oc_results :: "owner_result list"

fun ownerLoop ::
  "faults \<Rightarrow> string \<Rightarrow> raw_standings option \<Rightarrow> user list \<Rightarrow> group_prediction list
     \<Rightarrow> (user list \<times> group_prediction list) \<times> (error + owner_result list)" where
  "ownerLoop F grp st us [] = ((us, []), Inr [])"
| "ownerLoop F grp st us (prediction # ps) =
     (if gp_group prediction = toUpperCase grp then
        (case st of
           None \<Rightarrow> ((us, prediction # ps), Inl TypeError)
         | Some standings \<Rightarrow>
             (let points = scoreGroupPrediction_serverJs prediction standings;
                  oldPoints = gp_pointsAwarded prediction;
                  prediction' = prediction\<lparr>gp_pointsAwarded := points\<rparr>
              in if groupPredictionSaveFails F prediction'
                 then ((us, prediction # ps), Inl GroupPredictionSaveFailed)
                 else
                   (case findById us (gp_user prediction) of
                      None \<Rightarrow> ((us, prediction' # ps), Inl TypeError)
                    | Some usr \<Rightarrow>
                        (let usr' = usr\<lparr>totalPoints := totalPoints usr - oldPoints + points\<rparr>
                         in if userSaveFails F usr'
                            then ((us, prediction' # ps), Inl UserSaveFailed)
                            else
                              (case ownerLoop F grp st (saveUser usr' us) ps of
                                 ((us', ps'), Inl e) \<Rightarrow> ((us', prediction' # ps'), Inl e)
                               | ((us', ps'), Inr results) \<Rightarrow>
                                   ((us', prediction' # ps'),
                                    Inr (\<lparr>or_userId = u_id usr', or_username = username usr',
                                          or_group = grp, or_oldPoints = oldPoints,
                                          or_newPoints = points\<rparr> # results)))))))
      else (case ownerLoop F grp st us ps of
              ((us', ps'), r) \<Rightarrow> ((us', prediction # ps'), r)))"

fun ownerResultsLoop ::
  "faults \<Rightarrow> db \<Rightarrow> (string \<times> raw_standings option) list \<Rightarrow> db \<times> (error + owner_result list)" where
  "ownerResultsLoop F d [] = (d, Inr [])"
| "ownerResultsLoop F d ((grp, st) # rest) =
     (case ownerLoop F grp st (users d) (groupPredictions d) of
        ((us, coll), Inl e) \<Rightarrow> (d\<lparr>users := us, groupPredictions := coll\<rparr>, Inl e)
      | ((us, coll), Inr results) \<Rightarrow>
          (case ownerResultsLoop F (d\<lparr>users := us, groupPredictions := coll\<rparr>) rest of
             (d', Inl e) \<Rightarrow> (d', Inl e)
           | (d', Inr results') \<Rightarrow> (d', Inr (results @ results'))))"

definition recalculateGroupPoints_serverJs ::
  "faults \<Rightarrow> db \<Rightarrow> (string \<times> raw_standings option) list option \<Rightarrow> db \<times> owner_response response" where
  "recalculateGroupPoints_serverJs F d groupResults =
     (case groupResults of
        None \<Rightarrow> (d, ServerError500 TypeError)
      | Some entries \<Rightarrow>
          (case ownerResultsLoop F d entries of
             (d1, Inl e) \<Rightarrow> (d1, ServerError500 e)
           | (d1, Inr results) \<Rightarrow>
               (d1, Ok200 \<lparr>oc_updated = length results, oc_results = results\<rparr>)))"

text \<open>
  The sign-in callback of \<open>src/server.js\<close> differs from the current one in the
  username: it stores \<open>profile.displayName\<close> as it is, and a missing or empty one
  fails the schema's \<open>required\<close> validation.
\<close>

definition googleSignIn_serverJs ::
  "faults \<Rightarrow> db \<Rightarrow> google_profile \<Rightarrow> oid \<Rightarrow> db \<times> (error + user)" where
  "googleSignIn_serverJs F d profile newId =
     (case find (pr_selects profile) (users d) of
        None \<Rightarrow>
          (case pr_displayName profile of
             None \<Rightarrow> (d, Inl UserSaveFailed)
           | Some n \<Rightarrow>
               (let usr = \<lparr>u_id = newId, username = n,
                           totalPoints = 0, correctMatches = 0, correctScores = 0\<rparr>
                in if n = [] \<or> findById (users d) newId \<noteq> None \<or> userSaveFails F usr
                   then (d, Inl UserSaveFailed)
                   else (d\<lparr>users := users d @ [usr]\<rparr>, Inr usr)))
      | Some usr \<Rightarrow>
          if pr_hasGoogleId profile usr then (d, Inr usr)
          else if userSaveFails F usr then (d, Inl UserSaveFailed)
          else (d\<lparr>users := saveFound (pr_selects profile) usr (users d)\<rparr>, Inr usr))"

section \<open>Leaderboard\<close>

text \<open>
  JavaScript numbers are IEEE 754 binary64 values. A finite value is a rational, and an
  arithmetic operation is the exact operation followed by rounding to the nearest value
  with a 53-bit significand, ties to the even significand. The exponent range is not
  bounded here: the quotients and products of the percentile neither overflow nor
  underflow for counts below \<open>2^1023\<close>, and the counts themselves are exact below
  \<open>2^53\<close>.
\<close>

fun bitlenNum :: "num \<Rightarrow> nat" where
  "bitlenNum num.One = 1"
| "bitlenNum (num.Bit0 n) = Suc (bitlenNum n)"
| "bitlenNum (num.Bit1 n) = Suc (bitlenNum n)"

text \<open>The number of binary digits of a positive integer.\<close>

definition bitLength :: "int \<Rightarrow> nat" where
  "bitLength a = (if a > 0 then bitlenNum (num_of_nat (nat a)) else 0)"

definition roundHalfEven :: "rat \<Rightarrow> int" where
  "roundHalfEven t =
     (let f = \<lfloor>t\<rfloor>; r = t - of_int f
      in if r < 1 / 2 then f else if 1 / 2 < r then f + 1 else if even f then f else f + 1)"

text \<open>The binary exponent \<open>\<lfloor>log\<^sub>2 x\<rfloor>\<close> of a positive rational.\<close>

definition binade :: "rat \<Rightarrow> int" where
  "binade x =
     (case quotient_of x of
        (a, b) \<Rightarrow>
          (let k = int (bitLength a) - int (bitLength b)
           in if power_int 2 k \<le> x then k else k - 1))"

definition toDouble :: "rat \<Rightarrow> rat" where
  "toDouble x =
     (if x = 0 then 0
      else (let e = binade \<bar>x\<bar> - 52;
                m = roundHalfEven (\<bar>x\<bar> / power_int 2 e)
            in sgn x * of_int m * power_int 2 e))"

definition dDiv :: "rat \<Rightarrow> rat \<Rightarrow> rat" where
  "dDiv a b = toDouble (a / b)"

definition dSub :: "rat \<Rightarrow> rat \<Rightarrow> rat" where
  "dSub a b = toDouble (a - b)"

definition dMul :: "rat \<Rightarrow> rat \<Rightarrow> rat" where
  "dMul a b = toDouble (a * b)"

text \<open>\<open>Math.round\<close>: the nearest integer, a half rounding towards plus infinity.\<close>

definition mathRound :: "rat \<Rightarrow> int" where
  "mathRound x = \<lfloor>x + 1 / 2\<rfloor>"

record position_response =
  ps_position :: int
  ps_totalUsers :: int
  ps_totalPoints :: int
  ps_correctMatches :: int
  ps_correctScores :: int
  ps_percentile :: int

text \<open>
  \<open>GET /api/leaderboard/my-position\<close> for the authenticated user \<open>reqUser\<close>. A
  missing user document makes \<open>user.totalPoints\<close> a TypeError.
\<close>

definition myPosition :: "db \<Rightarrow> oid \<Rightarrow> position_response response" where
  "myPosition d reqUser =
     (case findById (users d) reqUser of
        None \<Rightarrow> ServerError500 TypeError
      | Some usr \<Rightarrow>
          (let betterUsers =
                 countDocuments
                   (\<lambda>v. totalPoints v > totalPoints usr
                      \<or> (totalPoints v = totalPoints usr \<and> correctScores v > correctScores usr)
                      \<or> (totalPoints v = totalPoints usr \<and> correctScores v = correctScores usr
                            \<and> correctMatches v > correctMatches usr))
                   (users d);
               position = betterUsers + 1;
               totalUsers = countDocuments (\<lambda>v. totalPoints v > 0) (users d)
           in Ok200
                \<lparr>ps_position = position,
                 ps_totalUsers = totalUsers,
                 ps_totalPoints = totalPoints usr,
                 ps_correctMatches = correctMatches usr,
                 ps_correctScores = correctScores usr,
                 ps_percentile =
                   (if totalUsers > 0
                    then mathRound
                           (dMul (dSub 1 (dDiv (of_int position) (of_int totalUsers))) 100)
                    else 0)\<rparr>))"

record leaderboard_entry =
  le_position :: int
  le_username :: string
  le_totalPoints :: int
  le_correctMatches :: int
  le_correctScores :: int









text \<open>The tie-break chain, compared lexicographically.\<close>

definition rankKey :: "user \<Rightarrow> int \<times> int \<times> int" where
  "rankKey u = (totalPoints u, correctScores u, correctMatches u)"

definition entryKey :: "leaderboard_entry \<Rightarrow> int \<times> int \<times> int" where
  "entryKey e = (le_totalPoints e, le_correctScores e, le_correctMatches e)"

section \<open>Knockout results query\<close>

record real_result =
  winnerId :: "oid option"
  winnerName :: string
  rr_phase :: phase

text \<open>
  The loop that fills \<open>realById\<close> from the finished knockout matches. The teams of a
  match are populated: a team document that no longer exists populates as \<open>null\<close>,
  and reading \<open>_id\<close> of the winning side is then a TypeError.
\<close>

fun buildRealById ::
  "team list \<Rightarrow> match list \<Rightarrow> (oid \<rightharpoonup> real_result) \<Rightarrow> error + (oid \<rightharpoonup> real_result)" where
  "buildRealById ts [] realById = Inr realById"
| "buildRealById ts (m # ms) realById =
     (if jsGt (homeScore m) (awayScore m) then
        (case findTeamById ts (homeTeam m) of
           None \<Rightarrow> Inl TypeError
         | Some t \<Rightarrow>
             buildRealById ts ms
               (realById(m_id m \<mapsto>
                  \<lparr>winnerId = Some (t_id t), winnerName = t_name t, rr_phase = phase m\<rparr>)))
      else if jsGt (awayScore m) (homeScore m) then
        (case findTeamById ts (awayTeam m) of
           None \<Rightarrow> Inl TypeError
         | Some t \<Rightarrow>
             buildRealById ts ms
               (realById(m_id m \<mapsto>
                  \<lparr>winnerId = Some (t_id t), winnerName = t_name t, rr_phase = phase m\<rparr>)))
      else
        buildRealById ts ms
          (realById(m_id m \<mapsto>
             \<lparr>winnerId = None, winnerName = ''Empate'', rr_phase = phase m\<rparr>)))"

definition phasePoints :: "stage \<Rightarrow> int" where
  "phasePoints s =
     (case s of RoundOf32 \<Rightarrow> 1 | RoundOf16 \<Rightarrow> 2 | QuarterFinals \<Rightarrow> 3
              | SemiFinals \<Rightarrow> 5 | ThirdPlace \<Rightarrow> 3 | Final \<Rightarrow> 10)"

record knockout_result =
  kr_stage :: stage
  kr_matchOrder :: int
  kr_matchId :: "oid option"
  kr_myPrediction :: "string option"
  kr_actualWinner :: "string option"
  kr_isCorrect :: "bool option"
  kr_pointsEarned :: int

record knockout_summary =
  totalPredictions :: int
  completedMatches :: int
  pendingMatches :: int
  correctPredictions :: int
  pointsFromKnockout :: int

text \<open>\<open>name || null\<close>: the empty string is falsy.\<close>

definition nameOrNull :: "string \<Rightarrow> string option" where
  "nameOrNull s = (if s = [] then None else Some s)"

text \<open>
  The entry the loop pushes for one prediction. \<open>isCorrect\<close> stays \<open>null\<close> unless
  the linked match has an entry in \<open>realById\<close> with a winner.
\<close>

definition knockoutResult ::
  "db \<Rightarrow> (oid \<rightharpoonup> real_result) \<Rightarrow> knockout_prediction \<Rightarrow> knockout_result" where
  "knockoutResult d realById p =
     (let winnerTeam = findTeamById (teams d) (predictedWinnerTeam p);
          linked = (case kp_match p of None \<Rightarrow> None | Some i \<Rightarrow> findMatchById (matches d) i);
          matchId = (case linked of None \<Rightarrow> None | Some m \<Rightarrow> Some (m_id m));
          real = (case matchId of None \<Rightarrow> None | Some i \<Rightarrow> realById i);
          (isCorrect, pointsEarned) =
            (case real of
               None \<Rightarrow> (None, 0)
             | Some r \<Rightarrow>
                 (case winnerId r of
                    None \<Rightarrow> (None, 0)
                  | Some w \<Rightarrow>
                      (let correct =
                             (case winnerTeam of None \<Rightarrow> False | Some t \<Rightarrow> t_id t = w)
                       in if correct
                          then (Some True,
                                if phasePoints (kp_stage p) = 0 then 1
                                else phasePoints (kp_stage p))
                          else (Some False, 0))))
      in \<lparr>kr_stage = kp_stage p,
          kr_matchOrder = kp_matchOrder p,
          kr_matchId = matchId,
          kr_myPrediction =
            (case winnerTeam of None \<Rightarrow> None | Some t \<Rightarrow> nameOrNull (t_name t)),
          kr_actualWinner =
            (case real of None \<Rightarrow> None | Some r \<Rightarrow> nameOrNull (winnerName r)),
          kr_isCorrect = isCorrect,
          kr_pointsEarned = pointsEarned\<rparr>)"

text \<open>
  The sort \<open>{ stage: 1, matchOrder: 1 }\<close>: stage names ascending as strings
  (Final, Quarter Finals, Round of 16, Round of 32, Semi Finals, Third Place).
\<close>

definition stageRank :: "stage \<Rightarrow> nat" where
  "stageRank s =
     (case s of Final \<Rightarrow> 0 | QuarterFinals \<Rightarrow> 1 | RoundOf16 \<Rightarrow> 2
              | RoundOf32 \<Rightarrow> 3 | SemiFinals \<Rightarrow> 4 | ThirdPlace \<Rightarrow> 5)"

definition userKnockoutPredictions :: "db \<Rightarrow> oid \<Rightarrow> knockout_prediction list" where
  "userKnockoutPredictions d userId =
     sort_key (\<lambda>p. (stageRank (kp_stage p), kp_matchOrder p))
       (filter (\<lambda>p. kp_user p = userId) (knockoutPredictions d))"

definition playedKnockoutMatches :: "db \<Rightarrow> match list" where
  "playedKnockoutMatches d =
     filter (\<lambda>m. (case phase m of Knockout _ \<Rightarrow> True | GroupStage \<Rightarrow> False)
                  \<and> status m = Finished)
       (matches d)"

text \<open>\<open>GET /api/predictions/knockout/results\<close> for the authenticated user.\<close>

definition knockoutResults ::
  "db \<Rightarrow> oid \<Rightarrow> (knockout_result list \<times> knockout_summary) response" where
  "knockoutResults d userId =
     (let preds = userKnockoutPredictions d userId;
          played = playedKnockoutMatches d
      in case buildRealById (teams d) played Map.empty of
           Inl e \<Rightarrow> ServerError500 e
         | Inr realById \<Rightarrow>
             (let (results, correct, pts) =
                    foldl (\<lambda>(results, correct, pts) p.
                             let r = knockoutResult d realById p
                             in if kr_isCorrect r = Some True
                                then (results @ [r], correct + 1, pts + kr_pointsEarned r)
                                else (results @ [r], correct, pts))
                          ([], 0::int, 0::int) preds
              in Ok200
                   (results,
                    \<lparr>totalPredictions = int (length preds),
                     completedMatches = int (length (filter (\<lambda>r. kr_isCorrect r \<noteq> None) results)),
                     pendingMatches = int (length (filter (\<lambda>r. kr_isCorrect r = None) results)),
                     correctPredictions = correct,
                     pointsFromKnockout = pts\<rparr>)))"

section \<open>A small store\<close>

text \<open>
  Three users; a finished group-stage match that ended 2-0 with two predictions
  (HOME 2-0 and HOME 1-0); a drawn final and a decided semi-final with knockout
  predictions; one group prediction.
\<close>

definition exampleMatch :: match where
  "exampleMatch = \<lparr>m_id = 10, homeTeam = 100, awayTeam = 101, homeScore = Some 2,
                    awayScore = Some 0, phase = GroupStage, status = Finished\<rparr>"

definition exactPrediction :: match_prediction where
  "exactPrediction = \<lparr>mp_user = 1, mp_match = 10, homeGoalsPred = Some 2, awayGoalsPred = Some 0,
                        winnerPred = HOME, mp_pointsAwarded = 0, isCorrectWinner = False,
                        isCorrectScore = False\<rparr>"

definition winnerOnlyPrediction :: match_prediction where
  "winnerOnlyPrediction = \<lparr>mp_user = 2, mp_match = 10, homeGoalsPred = Some 1,
                             awayGoalsPred = Some 0, winnerPred = HOME, mp_pointsAwarded = 0,
                             isCorrectWinner = False, isCorrectScore = False\<rparr>"

definition exampleDb :: db where
  "exampleDb =
     \<lparr>users =
        [\<lparr>u_id = 1, username = ''ana'', totalPoints = 0, correctMatches = 0, correctScores = 0\<rparr>,
         \<lparr>u_id = 2, username = ''luis'', totalPoints = 0, correctMatches = 0, correctScores = 0\<rparr>,
         \<lparr>u_id = 3, username = ''eva'', totalPoints = 0, correctMatches = 0, correctScores = 0\<rparr>],
      teams =
        [\<lparr>t_id = 100, t_name = ''Mexico''\<rparr>, \<lparr>t_id = 101, t_name = ''Canada''\<rparr>,
         \<lparr>t_id = 102, t_name = ''Brasil''\<rparr>],
      matches =
        [exampleMatch,
         \<lparr>m_id = 20, homeTeam = 100, awayTeam = 102, homeScore = Some 1,
          awayScore = Some 1, phase = Knockout Final, status = Finished\<rparr>,
         \<lparr>m_id = 21, homeTeam = 101, awayTeam = 102, homeScore = Some 3,
          awayScore = Some 1, phase = Knockout SemiFinals, status = Finished\<rparr>],
      matchPredictions = [exactPrediction, winnerOnlyPrediction],
      groupPredictions =
        [\<lparr>gp_user = 1, gp_group = ''A'', firstPlaceTeam = 100, secondPlaceTeam = 101,
          thirdPlaceTeam = Some 102, gp_pointsAwarded = 15\<rparr>],
      tournamentPredictions = [],
      knockoutPredictions =
        [\<lparr>kp_user = 1, kp_stage = Final, kp_matchOrder = 1, kp_match = Some 20,
          kp_homeTeam = Some 100, kp_awayTeam = Some 102, predictedWinnerTeam = 100,
          predictedScoreHome = None, predictedScoreAway = None, kp_pointsAwarded = 0\<rparr>,
         \<lparr>kp_user = 1, kp_stage = SemiFinals, kp_matchOrder = 1, kp_match = Some 21,
          kp_homeTeam = Some 101, kp_awayTeam = Some 102, predictedWinnerTeam = 101,
          predictedScoreHome = None, predictedScoreAway = None, kp_pointsAwarded = 0\<rparr>,
         \<lparr>kp_user = 1, kp_stage = SemiFinals, kp_matchOrder = 2, kp_match = Some 21,
          kp_homeTeam = Some 101, kp_awayTeam = Some 102, predictedWinnerTeam = 102,
          predictedScoreHome = None, predictedScoreAway = None, kp_pointsAwarded = 0\<rparr>]\<rparr>"

text \<open>The store after the 2-0 match has been finalized.\<close>

definition finalizedDb :: db where
  "finalizedDb =
     exampleDb
       \<lparr>users :=
          [\<lparr>u_id = 1, username = ''ana'', totalPoints = 23, correctMatches = 1, correctScores = 1\<rparr>,
           \<lparr>u_id = 2, username = ''luis'', totalPoints = 3, correctMatches = 1, correctScores = 0\<rparr>,
           \<lparr>u_id = 3, username = ''eva'', totalPoints = 0, correctMatches = 0, correctScores = 0\<rparr>],
        matchPredictions :=
          [exactPrediction\<lparr>mp_pointsAwarded := 8, isCorrectWinner := True, isCorrectScore := True\<rparr>,
           winnerOnlyPrediction\<lparr>mp_pointsAwarded := 3, isCorrectWinner := True\<rparr>]\<rparr>"

section \<open>Auxiliary notions for the proofs\<close>

text \<open>The document that \<open>recalcUserTotals\<close> saves for a user found as \<open>usr\<close>.\<close>

definition recalcValue :: "db \<Rightarrow> oid \<Rightarrow> user \<Rightarrow> user" where
  "recalcValue d userId usr =
     usr\<lparr>totalPoints :=
           foldl (\<lambda>s p. s + orZero (gp_pointsAwarded p)) 0
             (filter (\<lambda>p. gp_user p = userId) (groupPredictions d)) +
           foldl (\<lambda>s p. s + orZero (mp_pointsAwarded p)) 0
             (filter (\<lambda>p. mp_user p = userId) (matchPredictions d)) +
           foldl (\<lambda>s p. s + orZero (kp_pointsAwarded p)) 0
             (filter (\<lambda>p. kp_user p = userId) (knockoutPredictions d)) +
           (case find (\<lambda>p. tp_user p = userId) (tournamentPredictions d) of
              None \<Rightarrow> 0 | Some t \<Rightarrow> orZero (tp_pointsAwarded t)),
         correctMatches :=
           int (length (filter isCorrectWinner
                  (filter (\<lambda>p. mp_user p = userId) (matchPredictions d)))),
         correctScores :=
           int (length (filter isCorrectScore
                  (filter (\<lambda>p. mp_user p = userId) (matchPredictions d))))\<rparr>"

text \<open>
  A user id is settled when recomputing it would write back the stored document
  unchanged and that write is accepted.
\<close>

definition settled :: "faults \<Rightarrow> db \<Rightarrow> oid \<Rightarrow> bool" where
  "settled F d userId =
     (case findById (users d) userId of
        None \<Rightarrow> True
      | Some u \<Rightarrow> recalcValue d userId u = u \<and> \<not> userSaveFails F u)"

text \<open>A store in which every save of a Match prediction of user 1 is rejected.\<close>

definition rejectFirst :: faults where
  "rejectFirst = noFaults\<lparr>matchPredictionSaveFails := (\<lambda>p. mp_user p = 1)\<rparr>"

text \<open>
  The code of the two files that saves user documents, and the store it leaves:
  \<open>recalcUserTotals\<close> and its callers, the group calculate-points handler and the
  sign-in callback of the current server, and the three writers of \<open>src/server.js\<close>.
\<close>

datatype operation =
    OpRecalcUserTotals oid
  | OpCalculateMatchPoints oid
  | OpAdminUpdateMatch oid "int option option" "int option option" "match_status option"
  | OpCalculateAllPoints
  | OpCalculateGroupPoints oid string "standings option"
  | OpDeleteMatchPrediction oid oid
  | OpDeleteGroupPrediction oid string
  | OpDeleteTournamentPrediction oid
  | OpDeleteKnockoutPredictions oid
  | OpRecalculateGroupPoints "(string \<times> standings option) list option"
  | OpGoogleSignIn google_profile oid
  | OpCalculateGroupPoints_serverJs oid string "raw_standings option"
  | OpRecalculateGroupPoints_serverJs "(string \<times> raw_standings option) list option"
  | OpGoogleSignIn_serverJs google_profile oid

fun exec :: "faults \<Rightarrow> db \<Rightarrow> operation \<Rightarrow> db" where
  "exec F d (OpRecalcUserTotals uid) = fst (recalcUserTotals F d uid)"
| "exec F d (OpCalculateMatchPoints mid) = fst (calculateMatchPointsForAllUsers F d mid)"
| "exec F d (OpAdminUpdateMatch i hs as st) = fst (adminUpdateMatch F d i hs as st)"
| "exec F d OpCalculateAllPoints = fst (calculateAllPoints F d)"
| "exec F d (OpCalculateGroupPoints reqUser grp actualStandings) =
     fst (calculateGroupPoints F d reqUser grp actualStandings)"
| "exec F d (OpDeleteMatchPrediction reqUser matchId) =
     fst (deleteMatchPrediction F d reqUser matchId)"
| "exec F d (OpDeleteGroupPrediction reqUser grp) = fst (deleteGroupPrediction F d reqUser grp)"
| "exec F d (OpDeleteTournamentPrediction reqUser) = fst (deleteTournamentPrediction F d reqUser)"
| "exec F d (OpDeleteKnockoutPredictions reqUser) = fst (deleteKnockoutPredictions F d reqUser)"
| "exec F d (OpRecalculateGroupPoints groupResults) = fst (recalculateGroupPoints F d groupResults)"
| "exec F d (OpGoogleSignIn profile newId) = fst (googleSignIn F d profile newId)"
| "exec F d (OpCalculateGroupPoints_serverJs reqUser grp actualStandings) =
     fst (calculateGroupPoints_serverJs F d reqUser grp actualStandings)"
| "exec F d (OpRecalculateGroupPoints_serverJs groupResults) =
     fst (recalculateGroupPoints_serverJs F d groupResults)"
| "exec F d (OpGoogleSignIn_serverJs profile newId) = fst (googleSignIn_serverJs F d profile newId)"

text \<open>The sum of the points stored on a user's Group predictions.\<close>

definition groupPoints :: "db \<Rightarrow> oid \<Rightarrow> int" where
  "groupPoints d userId =
     sum_list (map gp_pointsAwarded (filter (\<lambda>p. gp_user p = userId) (groupPredictions d)))"

text \<open>The winning side of a match, \<open>None\<close> for a draw.\<close>

definition winnerSide :: "match \<Rightarrow> oid option" where
  "winnerSide m =
     (if jsGt (homeScore m) (awayScore m) then Some (homeTeam m)
      else if jsGt (awayScore m) (homeScore m) then Some (awayTeam m)
      else None)"

text \<open>A Round of 32 prediction of user 2 linked to the finished group-stage match.\<close>

definition misLinkedDb :: db where
  "misLinkedDb =
     exampleDb
       \<lparr>knockoutPredictions :=
          [\<lparr>kp_user = 2, kp_stage = RoundOf32, kp_matchOrder = 1, kp_match = Some 10,
            kp_homeTeam = Some 100, kp_awayTeam = Some 101, predictedWinnerTeam = 100,
            predictedScoreHome = None, predictedScoreAway = None, kp_pointsAwarded = 0\<rparr>]\<rparr>"

text \<open>The binary64 values: an integer of at most 53 bits times a power of two.\<close>

definition representable :: "rat \<Rightarrow> bool" where
  "representable r \<longleftrightarrow> (\<exists>m e. \<bar>m\<bar> \<le> 2 ^ 53 \<and> r = of_int m * power_int 2 e)"

text \<open>Forty users with 40, 39, ..., 1 points: user i is in position i of 40.\<close>

definition rankedDb :: db where
  "rankedDb =
     \<lparr>users =
        map (\<lambda>i. \<lparr>u_id = i, username = ''player'', totalPoints = 41 - int i,
                   correctMatches = 0, correctScores = 0\<rparr>) [1..<41],
      teams = [], matches = [], matchPredictions = [], groupPredictions = [],
      tournamentPredictions = [], knockoutPredictions = []\<rparr>"

section \<open>Basic facts about the queries\<close>

lemma orZero_id: "orZero n = n"
  by (simp add: orZero_def)

lemma findMatchById_SomeD: "findMatchById ms i = Some m \<Longrightarrow> m_id m = i \<and> m \<in> set ms"
  unfolding findMatchById_def by (induction ms) (auto split: if_splits)

lemma findById_SomeD: "findById us i = Some u \<Longrightarrow> u_id u = i \<and> u \<in> set us"
  unfolding findById_def by (induction us) (auto split: if_splits)

lemma scoreLoop_None:
  "scoreLoop F m ps = (ps', None) \<Longrightarrow>
     ps' = map (scoreIfMatch m) ps \<and>
     (\<forall>p \<in> set ps. mp_match p = m_id m \<longrightarrow> \<not> matchPredictionSaveFails F (scoreMatchPrediction m p))"
proof (induction ps arbitrary: ps')
  case Nil
  then show ?case by simp
next
  case (Cons p ps)
  obtain qs e where r: "scoreLoop F m ps = (qs, e)" by (cases "scoreLoop F m ps")
  from Cons.prems r have e: "e = None"
    by (auto simp: Let_def split: if_splits)
  with Cons.IH r have "qs = map (scoreIfMatch m) ps \<and>
     (\<forall>p \<in> set ps. mp_match p = m_id m \<longrightarrow> \<not> matchPredictionSaveFails F (scoreMatchPrediction m p))"
    by simp
  with Cons.prems r e show ?case
    by (auto simp: Let_def scoreIfMatch_def split: if_splits)
qed

lemma recalcUserTotals_frame:
  "recalcUserTotals F d uid = (d', r) \<Longrightarrow> d' = d\<lparr>users := users d'\<rparr>"
  by (auto simp: recalcUserTotals_def Let_def split: option.splits if_splits)

lemma recalcLoop_frame:
  "recalcLoop F d uids = (d', e) \<Longrightarrow> d' = d\<lparr>users := users d'\<rparr>"
proof (induction uids arbitrary: d)
  case Nil
  then show ?case by simp
next
  case (Cons uid uids)
  obtain d1 r where s: "recalcUserTotals F d uid = (d1, r)" by (cases "recalcUserTotals F d uid")
  have f: "d1 = d\<lparr>users := users d1\<rparr>" using recalcUserTotals_frame[OF s] .
  show ?case
  proof (cases r)
    case (Inl a)
    with Cons.prems s f show ?thesis by simp
  next
    case (Inr b)
    with Cons.prems s have "recalcLoop F d1 uids = (d', e)" by simp
    from Cons.IH[OF this] have "d' = d1\<lparr>users := users d'\<rparr>" .
    with f show ?thesis by (metis db.update_convs(1) db.surjective db.select_convs)
  qed
qed

lemma foldl_orZero_sum:
  "foldl (\<lambda>s p. s + orZero (f p)) a xs = a + sum_list (map f xs)"
  by (induction xs arbitrary: a) (simp_all add: orZero_id)

lemma find_sum_unique:
  "length (filter P xs) \<le> 1 \<Longrightarrow>
     (case find P xs of None \<Rightarrow> 0 | Some t \<Rightarrow> f t) = sum_list (map f (filter P xs))"
proof (induction xs)
  case Nil
  then show ?case by simp
next
  case (Cons x xs)
  show ?case
  proof (cases "P x")
    case True
    with Cons.prems have "filter P xs = []" by simp
    with True show ?thesis by simp
  next
    case False
    with Cons show ?thesis by simp
  qed
qed

lemma find_saveFound:
  "find P xs = Some x \<Longrightarrow> P y \<Longrightarrow> find P (saveFound P y xs) = Some y"
  by (induction xs) (auto split: if_splits)

lemma findById_saveUser:
  "findById us (u_id u) = Some x \<Longrightarrow> findById (saveUser u us) (u_id u) = Some u"
  unfolding findById_def saveUser_def by (rule find_saveFound) simp_all

lemma filter_conj_filter: "filter Q (filter P xs) = filter (\<lambda>x. P x \<and> Q x) xs"
  by (induction xs) auto

section \<open>Aggregate consistency\<close>

text \<open>
  Claim C1. When \<open>recalcUserTotals\<close> returns the user, that user's
  \<open>totalPoints\<close> is the sum of \<open>pointsAwarded\<close> over all of the user's Group,
  Match, Knockout and Tournament predictions (an empty category adds zero),
  \<open>correctMatches\<close> is the number of the user's Match predictions with
  \<open>isCorrectWinner\<close> set and \<open>correctScores\<close> the number with
  \<open>isCorrectScore\<close> set; the user document stored under that id is the one
  returned, and no other collection has changed. The Tournament collection has a unique
  index on \<open>user\<close>: it holds at most one document per user.
\<close>

theorem recalcUserTotals_sums:
  assumes run: "recalcUserTotals F d uid = (d', Inr (Some u))"
      and uniq: "length (filter (\<lambda>t. tp_user t = uid) (tournamentPredictions d)) \<le> 1"
  shows "totalPoints u =
           (\<Sum>p\<leftarrow>filter (\<lambda>p. gp_user p = uid) (groupPredictions d). gp_pointsAwarded p) +
           (\<Sum>p\<leftarrow>filter (\<lambda>p. mp_user p = uid) (matchPredictions d). mp_pointsAwarded p) +
           (\<Sum>p\<leftarrow>filter (\<lambda>p. kp_user p = uid) (knockoutPredictions d). kp_pointsAwarded p) +
           (\<Sum>p\<leftarrow>filter (\<lambda>p. tp_user p = uid) (tournamentPredictions d). tp_pointsAwarded p)
         \<and> correctMatches u =
             int (length (filter (\<lambda>p. mp_user p = uid \<and> isCorrectWinner p) (matchPredictions d)))
         \<and> correctScores u =
             int (length (filter (\<lambda>p. mp_user p = uid \<and> isCorrectScore p) (matchPredictions d)))
         \<and> findById (users d') uid = Some u
         \<and> d' = d\<lparr>users := users d'\<rparr>"
proof -
  obtain usr where found: "findById (users d) uid = Some usr"
    using run by (auto simp: recalcUserTotals_def split: option.splits)
  have uid: "u_id usr = uid" using findById_SomeD[OF found] by simp
  let ?t = "find (\<lambda>p. tp_user p = uid) (tournamentPredictions d)"
  have tsum: "(case ?t of None \<Rightarrow> 0 | Some t \<Rightarrow> orZero (tp_pointsAwarded t)) =
      (\<Sum>p\<leftarrow>filter (\<lambda>p. tp_user p = uid) (tournamentPredictions d). tp_pointsAwarded p)"
    using find_sum_unique[OF uniq, of tp_pointsAwarded] by (simp add: orZero_id cong: option.case_cong)
  from run found have u: "u = usr\<lparr>totalPoints :=
        foldl (\<lambda>s p. s + orZero (gp_pointsAwarded p)) 0 (filter (\<lambda>p. gp_user p = uid) (groupPredictions d)) +
        foldl (\<lambda>s p. s + orZero (mp_pointsAwarded p)) 0 (filter (\<lambda>p. mp_user p = uid) (matchPredictions d)) +
        foldl (\<lambda>s p. s + orZero (kp_pointsAwarded p)) 0 (filter (\<lambda>p. kp_user p = uid) (knockoutPredictions d)) +
        (case ?t of None \<Rightarrow> 0 | Some t \<Rightarrow> orZero (tp_pointsAwarded t)),
      correctMatches := int (length (filter isCorrectWinner (filter (\<lambda>p. mp_user p = uid) (matchPredictions d)))),
      correctScores := int (length (filter isCorrectScore (filter (\<lambda>p. mp_user p = uid) (matchPredictions d))))\<rparr>"
    and d': "d' = d\<lparr>users := saveUser u (users d)\<rparr>"
    by (auto simp: recalcUserTotals_def Let_def split: if_splits)
  have uu: "u_id u = uid" using u uid by simp
  have stored: "findById (users d') uid = Some u"
    using findById_saveUser[of "users d" u usr] found uu d' by simp
  have tot: "totalPoints u =
           (\<Sum>p\<leftarrow>filter (\<lambda>p. gp_user p = uid) (groupPredictions d). gp_pointsAwarded p) +
           (\<Sum>p\<leftarrow>filter (\<lambda>p. mp_user p = uid) (matchPredictions d). mp_pointsAwarded p) +
           (\<Sum>p\<leftarrow>filter (\<lambda>p. kp_user p = uid) (knockoutPredictions d). kp_pointsAwarded p) +
           (\<Sum>p\<leftarrow>filter (\<lambda>p. tp_user p = uid) (tournamentPredictions d). tp_pointsAwarded p)"
    by (subst u) (simp add: foldl_orZero_sum tsum)
  have cm: "correctMatches u =
             int (length (filter (\<lambda>p. mp_user p = uid \<and> isCorrectWinner p) (matchPredictions d)))"
    by (subst u) (simp add: filter_conj_filter)
  have cs: "correctScores u =
             int (length (filter (\<lambda>p. mp_user p = uid \<and> isCorrectScore p) (matchPredictions d)))"
    by (subst u) (simp add: filter_conj_filter)
  have fr: "d' = d\<lparr>users := users d'\<rparr>" using d' by simp
  from tot cm cs stored fr show ?thesis by blast
qed


theorem recalcUserTotals_sums_witness:
  "recalcUserTotals noFaults finalizedDb 1 = (finalizedDb, Inr (findById (users finalizedDb) 1))
   \<and> length (filter (\<lambda>t. tp_user t = 1) (tournamentPredictions finalizedDb)) \<le> 1
   \<and> findById (users finalizedDb) 1 =
        Some \<lparr>u_id = 1, username = ''ana'', totalPoints = 23, correctMatches = 1, correctScores = 1\<rparr>
   \<and> (\<Sum>p\<leftarrow>filter (\<lambda>p. gp_user p = 1) (groupPredictions finalizedDb). gp_pointsAwarded p) +
       (\<Sum>p\<leftarrow>filter (\<lambda>p. mp_user p = 1) (matchPredictions finalizedDb). mp_pointsAwarded p) +
       (\<Sum>p\<leftarrow>filter (\<lambda>p. kp_user p = 1) (knockoutPredictions finalizedDb). kp_pointsAwarded p) +
       (\<Sum>p\<leftarrow>filter (\<lambda>p. tp_user p = 1) (tournamentPredictions finalizedDb). tp_pointsAwarded p) = 23"
proof -
  let ?u = "\<lparr>u_id = 1, username = ''ana'', totalPoints = 23, correctMatches = 1, correctScores = 1\<rparr>"
  have f: "findById (users finalizedDb) 1 = Some ?u" by code_simp
  have run: "recalcUserTotals noFaults finalizedDb 1 = (finalizedDb, Inr (Some ?u))" by code_simp
  have uniq: "length (filter (\<lambda>t. tp_user t = 1) (tournamentPredictions finalizedDb)) \<le> 1" by code_simp
  from recalcUserTotals_sums[OF run uniq] f run uniq show ?thesis by simp
qed

section \<open>Match scoring rule\<close>

lemma calc_success:
  assumes m: "findMatchById (matches d) mid = Some m" and fin: "status m = Finished"
      and run: "calculateMatchPointsForAllUsers F d mid = (d', None)"
  shows "matchPredictions d' = map (scoreIfMatch m) (matchPredictions d)"
proof -
  obtain coll e where sl: "scoreLoop F m (matchPredictions d) = (coll, e)"
    by (cases "scoreLoop F m (matchPredictions d)")
  show ?thesis
  proof (cases e)
    case None
    with sl have coll: "coll = map (scoreIfMatch m) (matchPredictions d)"
      using scoreLoop_None by blast
    from run m fin sl None
    have "recalcLoop F (d\<lparr>matchPredictions := coll\<rparr>)
            (uniqueInOrder (map mp_user (filter (\<lambda>p. mp_match p = m_id m) (matchPredictions d)))) = (d', None)"
      by (simp add: calculateMatchPointsForAllUsers_def Let_def)
    from recalcLoop_frame[OF this] have "matchPredictions d' = coll"
      by (metis db.select_convs(4) db.surjective db.update_convs(1) db.update_convs(4))
    with coll show ?thesis by simp
  next
    case (Some a)
    with run m fin sl show ?thesis
      by (simp add: calculateMatchPointsForAllUsers_def Let_def)
  qed
qed

text \<open>
  Claim C4. For a finished match with both scores present and every Match prediction of
  that match as stored after \<open>calculateMatchPointsForAllUsers\<close> has completed: the
  actual winner is HOME when homeScore > awayScore, AWAY when awayScore > homeScore and
  DRAW otherwise; \<open>isCorrectWinner\<close> holds iff \<open>winnerPred\<close> is that winner;
  \<open>isCorrectScore\<close> holds iff \<open>isCorrectWinner\<close> holds and both predicted goal
  counts equal the scores; \<open>pointsAwarded\<close> is 3 for the winner plus 5 for the score.
\<close>

theorem match_scoring_rule:
  assumes m: "findMatchById (matches d) mid = Some m" and fin: "status m = Finished"
      and hs: "homeScore m = Some h" and as: "awayScore m = Some a"
      and run: "calculateMatchPointsForAllUsers F d mid = (d', None)"
      and p: "p \<in> set (matchPredictions d')" and pm: "mp_match p = mid"
  shows "computeActualWinner m = (if h > a then HOME else if a > h then AWAY else DRAW)
       \<and> isCorrectWinner p = (winnerPred p = computeActualWinner m)
       \<and> isCorrectScore p =
           (isCorrectWinner p \<and> homeGoalsPred p = Some h \<and> awayGoalsPred p = Some a)
       \<and> mp_pointsAwarded p = 3 * of_bool (isCorrectWinner p) + 5 * of_bool (isCorrectScore p)"
proof -
  have mid: "m_id m = mid" using findMatchById_SomeD[OF m] by simp
  have w: "computeActualWinner m = (if h > a then HOME else if a > h then AWAY else DRAW)"
    by (simp add: computeActualWinner_def jsGt_def toNumber_def hs as)
  from calc_success[OF m fin run] p obtain q where
    q: "q \<in> set (matchPredictions d)" and pq: "p = scoreIfMatch m q" by auto
  have qm: "mp_match q = mid"
    using pq pm mid by (auto simp: scoreIfMatch_def scoreMatchPrediction_def Let_def split: if_splits)
  have ps: "p = scoreMatchPrediction m q" using pq qm mid by (simp add: scoreIfMatch_def)
  show ?thesis
    unfolding w[symmetric] by (simp add: ps scoreMatchPrediction_def Let_def hs as)
qed

theorem match_scoring_rule_witness:
  "calculateMatchPointsForAllUsers noFaults exampleDb 10 = (finalizedDb, None)
   \<and> matchPredictions finalizedDb =
       [exactPrediction\<lparr>mp_pointsAwarded := 8, isCorrectWinner := True, isCorrectScore := True\<rparr>,
        winnerOnlyPrediction\<lparr>mp_pointsAwarded := 3, isCorrectWinner := True, isCorrectScore := False\<rparr>]
   \<and> computeActualWinner exampleMatch = HOME"
proof -
  let ?p = "exactPrediction\<lparr>mp_pointsAwarded := 8, isCorrectWinner := True, isCorrectScore := True\<rparr>"
  have m: "findMatchById (matches exampleDb) 10 = Some exampleMatch" by code_simp
  have fin: "status exampleMatch = Finished" by code_simp
  have hs: "homeScore exampleMatch = Some 2" by code_simp
  have as: "awayScore exampleMatch = Some 0" by code_simp
  have run: "calculateMatchPointsForAllUsers noFaults exampleDb 10 = (finalizedDb, None)" by code_simp
  have ps: "matchPredictions finalizedDb =
       [?p, winnerOnlyPrediction\<lparr>mp_pointsAwarded := 3, isCorrectWinner := True, isCorrectScore := False\<rparr>]"
    by code_simp
  have p: "?p \<in> set (matchPredictions finalizedDb)" by (simp add: ps)
  have pm: "mp_match ?p = 10" by code_simp
  from match_scoring_rule[OF m fin hs as run p pm] run ps show ?thesis by simp
qed

section \<open>Group scoring rule\<close>

lemma scoreGroup_same: "fst (scoreGroupWithDetails p s) = scoreGroupPrediction p s"
  by (auto simp: scoreGroupWithDetails_def scoreGroupPrediction_def Let_def split: prod.splits)

text \<open>
  Claim C5. Both group scorers give the same points. A correct first place earns 5, a
  correct second place 3, a correct third place 2, and the bonus of 5 is added exactly
  when all three are correct, so such a prediction scores 15 and no prediction scores 10
  or 20. A prediction with no third-place team scores exactly the points of its first
  and second places.
\<close>

theorem group_scoring_rule:
  "(let c1 = (Some (firstPlaceTeam p) = st_first s);
        c2 = (Some (secondPlaceTeam p) = st_second s);
        c3 = (thirdPlaceTeam p \<noteq> None \<and> thirdPlaceTeam p = st_third s);
        pts = scoreGroupPrediction p s
    in fst (scoreGroupWithDetails p s) = pts
       \<and> pts = (if c1 then 5 else 0) + (if c2 then 3 else 0) + (if c3 then 2 else 0)
               + (if c1 \<and> c2 \<and> c3 then 5 else 0)
       \<and> (c1 \<and> c2 \<and> c3 \<longrightarrow> pts = 15)
       \<and> pts \<noteq> 10 \<and> pts \<noteq> 20
       \<and> (thirdPlaceTeam p = None \<longrightarrow> pts = (if c1 then 5 else 0) + (if c2 then 3 else 0)))"
  unfolding Let_def scoreGroup_same
  by (auto simp: scoreGroupPrediction_def Let_def)

theorem group_scoring_rule_witness:
  "scoreGroupPrediction
     \<lparr>gp_user = 1, gp_group = ''A'', firstPlaceTeam = 100, secondPlaceTeam = 101,
      thirdPlaceTeam = Some 102, gp_pointsAwarded = 0\<rparr>
     \<lparr>st_first = Some 100, st_second = Some 101, st_third = Some 102\<rparr> = 15
   \<and> scoreGroupPrediction
     \<lparr>gp_user = 1, gp_group = ''A'', firstPlaceTeam = 100, secondPlaceTeam = 101,
      thirdPlaceTeam = None, gp_pointsAwarded = 0\<rparr>
     \<lparr>st_first = Some 100, st_second = Some 101, st_third = None\<rparr> = 8"
  using group_scoring_rule
     [of "\<lparr>gp_user = 1, gp_group = ''A'', firstPlaceTeam = 100, secondPlaceTeam = 101,
          thirdPlaceTeam = Some 102, gp_pointsAwarded = 0\<rparr>"
         "\<lparr>st_first = Some 100, st_second = Some 101, st_third = Some 102\<rparr>"]
    group_scoring_rule
     [of "\<lparr>gp_user = 1, gp_group = ''A'', firstPlaceTeam = 100, secondPlaceTeam = 101,
          thirdPlaceTeam = None, gp_pointsAwarded = 0\<rparr>"
         "\<lparr>st_first = Some 100, st_second = Some 101, st_third = None\<rparr>"]
  by (simp add: Let_def)

section \<open>Rounding to binary64\<close>

lemma bitLength_code [code]:
  "bitLength (Int.Pos k) = bitlenNum k"
  "bitLength 0 = 0"
  "bitLength (Int.Neg k) = 0"
  by (simp_all add: bitLength_def Int.Pos_def Int.Neg_def)

lemma bitlenNum_pos: "0 < bitlenNum k"
  by (induction k) simp_all

lemma bitlenNum_bounds:
  "(2::int) ^ (bitlenNum k - 1) \<le> numeral k \<and> (numeral k :: int) < 2 ^ bitlenNum k"
proof (induction k)
  case One
  then show ?case by simp
next
  case (Bit0 k)
  obtain n where n: "bitlenNum k = Suc n" using bitlenNum_pos[of k] by (cases "bitlenNum k") auto
  define v where "v = (numeral k :: int)"
  have d: "(numeral (num.Bit0 k) :: int) = v + v" unfolding v_def by (rule numeral_Bit0)
  from Bit0 n have "2 ^ n \<le> v \<and> v < 2 * 2 ^ n" unfolding v_def by simp
  then have "2 * 2 ^ n \<le> v + v \<and> v + v < 2 * (2 * 2 ^ n)" by linarith
  then show ?case unfolding d by (simp add: n)
next
  case (Bit1 k)
  obtain n where n: "bitlenNum k = Suc n" using bitlenNum_pos[of k] by (cases "bitlenNum k") auto
  define v where "v = (numeral k :: int)"
  have d: "(numeral (num.Bit1 k) :: int) = v + v + 1" unfolding v_def by (rule numeral_Bit1)
  from Bit1 n have "2 ^ n \<le> v \<and> v < 2 * 2 ^ n" unfolding v_def by simp
  then have "2 * 2 ^ n \<le> v + v + 1 \<and> v + v + 1 < 2 * (2 * 2 ^ n)" by linarith
  then show ?case unfolding d by (simp add: n)
qed

lemma bitLength_bounds:
  assumes "0 < a"
  shows "0 < bitLength a" "(2::int) ^ (bitLength a - 1) \<le> a" "a < 2 ^ bitLength a"
proof -
  let ?k = "num_of_nat (nat a)"
  have "nat_of_num ?k = nat a" using assms by (simp add: num_of_nat_inverse)
  then have "numeral ?k = nat a" by (simp add: nat_of_num_numeral)
  then have "int (numeral ?k) = int (nat a)" by (rule arg_cong)
  then have a: "a = numeral ?k" using assms by simp
  have b: "bitLength a = bitlenNum ?k" using assms by (simp add: bitLength_def)
  show "0 < bitLength a" by (simp add: b bitlenNum_pos)
  show "(2::int) ^ (bitLength a - 1) \<le> a" using bitlenNum_bounds[of ?k] a b by simp
  show "a < 2 ^ bitLength a" using bitlenNum_bounds[of ?k] a b by simp
qed

lemma of_int_two_power: "(of_int (2 ^ n) :: rat) = 2 ^ n"
  by (simp only: of_int_power of_int_numeral)

lemma bitLength_bounds_rat:
  assumes "0 < a"
  shows "power_int (2::rat) (int (bitLength a) - 1) \<le> of_int a"
    and "(of_int a :: rat) < power_int 2 (int (bitLength a))"
proof -
  note B = bitLength_bounds[OF assms]
  have i: "int (bitLength a) - 1 = int (bitLength a - 1)" using B(1) by linarith
  have "(of_int (2 ^ (bitLength a - 1)) :: rat) \<le> of_int a"
    using B(2) by (simp only: of_int_le_iff)
  then show "power_int (2::rat) (int (bitLength a) - 1) \<le> of_int a"
    by (simp only: i power_int_of_nat of_int_two_power)
  have "(of_int a :: rat) < of_int (2 ^ bitLength a)" using B(3) by (simp only: of_int_less_iff)
  then show "(of_int a :: rat) < power_int 2 (int (bitLength a))"
    by (simp only: power_int_of_nat of_int_two_power)
qed

lemma binade_bounds:
  assumes "0 < x"
  shows "power_int 2 (binade x) \<le> x" and "x < power_int 2 (binade x + 1)"
proof -
  obtain a b where q: "quotient_of x = (a, b)" by (cases "quotient_of x")
  have b: "0 < b" using quotient_of_denom_pos[OF q] .
  have x: "x = of_int a / of_int b" using quotient_of_div[OF q] .
  have a: "0 < a" using assms b x by (simp add: zero_less_divide_iff)
  let ?la = "int (bitLength a)" and ?lb = "int (bitLength b)"
  let ?k = "?la - ?lb"
  note A = bitLength_bounds_rat[OF a] and B = bitLength_bounds_rat[OF b]
  have bpos: "(0::rat) < of_int b" using b by simp
  have up: "x < power_int 2 (?k + 1)"
  proof -
    have "power_int (2::rat) ?la = power_int 2 (?k + 1) * power_int 2 (?lb - 1)"
      by (simp flip: power_int_add)
    also have "\<dots> \<le> power_int 2 (?k + 1) * of_int b"
      using B(1) by (intro mult_left_mono) simp_all
    finally have "power_int (2::rat) ?la \<le> power_int 2 (?k + 1) * of_int b" .
    with A(2) have "of_int a < power_int (2::rat) (?k + 1) * of_int b" by (rule less_le_trans)
    then show ?thesis unfolding x using bpos by (simp add: pos_divide_less_eq)
  qed
  have low: "power_int 2 (?k - 1) \<le> x"
  proof -
    have "power_int (2::rat) (?k - 1) * of_int b \<le> power_int 2 (?k - 1) * power_int 2 ?lb"
      using B(2) by (intro mult_left_mono) simp_all
    also have "\<dots> = power_int 2 ((?k - 1) + ?lb)"
      by (rule power_int_add[symmetric]) simp
    also have "(?k - 1) + ?lb = ?la - 1" by simp
    also have "power_int (2::rat) (?la - 1) \<le> of_int a" using A(1) .
    finally show ?thesis unfolding x using bpos by (simp add: pos_le_divide_eq)
  qed
  have bin: "binade x = (if power_int 2 ?k \<le> x then ?k else ?k - 1)"
    by (simp add: binade_def q Let_def)
  show "power_int 2 (binade x) \<le> x" using low by (simp add: bin)
  show "x < power_int 2 (binade x + 1)" using up by (auto simp: bin not_le)
qed

lemma roundHalfEven_cases:
  "roundHalfEven t = \<lfloor>t\<rfloor> \<and> t - of_int \<lfloor>t\<rfloor> \<le> 1 / 2
   \<or> roundHalfEven t = \<lfloor>t\<rfloor> + 1 \<and> 1 / 2 \<le> t - of_int \<lfloor>t\<rfloor>"
  unfolding roundHalfEven_def Let_def by (simp split: if_splits)

lemma roundHalfEven_nearest: "\<bar>of_int (roundHalfEven t) - t\<bar> \<le> \<bar>of_int k - t\<bar>"
proof -
  let ?f = "\<lfloor>t\<rfloor>"
  define r where "r = t - of_int ?f"
  have r: "0 \<le> r" "r < 1" unfolding r_def by linarith+
  have t: "t = of_int ?f + r" unfolding r_def by simp
  from roundHalfEven_cases[of t]
  have m: "\<bar>of_int (roundHalfEven t) - t\<bar> \<le> r \<and> \<bar>of_int (roundHalfEven t) - t\<bar> \<le> 1 - r"
  proof
    assume a: "roundHalfEven t = ?f \<and> t - of_int ?f \<le> 1 / 2"
    then have "of_int (roundHalfEven t) - t = - r" "r \<le> 1 / 2" unfolding r_def by simp_all
    with r show ?thesis by simp
  next
    assume a: "roundHalfEven t = ?f + 1 \<and> 1 / 2 \<le> t - of_int ?f"
    then have "of_int (roundHalfEven t) - t = 1 - r" "1 / 2 \<le> r" unfolding r_def by simp_all
    with r show ?thesis by simp
  qed
  show ?thesis
  proof (cases "k \<le> ?f")
    case True
    then have "(of_int k :: rat) \<le> of_int ?f" by (simp only: of_int_le_iff)
    with t r have "r \<le> \<bar>of_int k - t\<bar>" by linarith
    with m show ?thesis by linarith
  next
    case False
    then have "?f + 1 \<le> k" by simp
    then have "(of_int (?f + 1) :: rat) \<le> of_int k" by (simp only: of_int_le_iff)
    then have "(of_int ?f :: rat) + 1 \<le> of_int k" by simp
    with t r have "1 - r \<le> \<bar>of_int k - t\<bar>" by linarith
    with m show ?thesis by linarith
  qed
qed

lemma roundHalfEven_bounds:
  assumes "of_int lo \<le> t" "t \<le> of_int hi"
  shows "lo \<le> roundHalfEven t" "roundHalfEven t \<le> hi"
proof -
  have f: "lo \<le> \<lfloor>t\<rfloor>" using assms(1) by (simp add: le_floor_iff)
  from roundHalfEven_cases[of t] f show "lo \<le> roundHalfEven t" by auto
  show "roundHalfEven t \<le> hi"
  proof (rule ccontr)
    assume "\<not> roundHalfEven t \<le> hi"
    then have h: "hi + 1 \<le> roundHalfEven t" by simp
    have "\<lfloor>t\<rfloor> \<le> hi" using assms(2) by (simp add: floor_le_iff)
    with h roundHalfEven_cases[of t] have "\<lfloor>t\<rfloor> = hi" "1 / 2 \<le> t - of_int \<lfloor>t\<rfloor>" by auto
    with assms(2) show False by simp
  qed
qed

lemma pw_pos: "(0::rat) < power_int 2 e"
  by simp

lemma scaled_bounds:
  assumes "0 < x"
  shows "2 ^ 52 \<le> x / power_int 2 (binade x - 52)" "x / power_int 2 (binade x - 52) < 2 ^ 53"
proof -
  let ?e = "binade x - 52"
  have a: "(2::rat) ^ 52 * power_int 2 ?e = power_int 2 (binade x)"
  proof -
    have "power_int (2::rat) (52 + ?e) = power_int 2 52 * power_int 2 ?e"
      by (rule power_int_add) simp
    moreover have "52 + ?e = binade x" by simp
    ultimately show ?thesis by simp
  qed
  have b: "(2::rat) ^ 53 * power_int 2 ?e = power_int 2 (binade x + 1)"
  proof -
    have "power_int (2::rat) (53 + ?e) = power_int 2 53 * power_int 2 ?e"
      by (rule power_int_add) simp
    moreover have "53 + ?e = binade x + 1" by simp
    ultimately show ?thesis by simp
  qed
  show "2 ^ 52 \<le> x / power_int 2 ?e"
    using binade_bounds(1)[OF assms] a pw_pos[of ?e] by (simp only: pos_le_divide_eq)
  show "x / power_int 2 ?e < 2 ^ 53"
    using binade_bounds(2)[OF assms] b pw_pos[of ?e] by (simp only: pos_divide_less_eq)
qed

lemma toDouble_pos:
  "0 < x \<Longrightarrow>
     toDouble x = of_int (roundHalfEven (x / power_int 2 (binade x - 52))) * power_int 2 (binade x - 52)"
  by (simp add: toDouble_def Let_def)

lemma toDouble_minus: "toDouble (- x) = - toDouble x"
  by (simp add: toDouble_def Let_def)

lemma representable_minus: "representable r \<Longrightarrow> representable (- r)"
proof -
  assume "representable r"
  then obtain m e where "\<bar>m\<bar> \<le> 2 ^ 53" "r = of_int m * power_int 2 e"
    unfolding representable_def by blast
  then have "\<bar>- m\<bar> \<le> 2 ^ 53 \<and> - r = of_int (- m) * power_int 2 e" by simp
  then show ?thesis unfolding representable_def by blast
qed

lemma toDouble_nearest_pos:
  assumes x: "0 < x" and r: "representable r"
  shows "\<bar>toDouble x - x\<bar> \<le> \<bar>r - x\<bar>"
proof -
  define e where "e = binade x - 52"
  define P where "P = power_int (2::rat) e"
  define t where "t = x / P"
  define m where "m = roundHalfEven t"
  have P: "0 < P" unfolding P_def by simp
  have xt: "x = t * P" unfolding t_def using P by simp
  have td: "toDouble x = of_int m * P"
    unfolding m_def t_def P_def e_def using toDouble_pos[OF x] .
  have t52: "2 ^ 52 \<le> t" unfolding t_def P_def e_def using scaled_bounds(1)[OF x] .
  have near: "\<And>k. \<bar>of_int m - t\<bar> \<le> \<bar>of_int k - t\<bar>"
    unfolding m_def by (rule roundHalfEven_nearest)
  have scale: "\<And>k. \<bar>of_int k * P - x\<bar> = P * \<bar>of_int k - t\<bar>"
  proof -
    fix k :: int
    have "of_int k * P - x = P * (of_int k - t)" unfolding xt by (simp add: algebra_simps)
    then show "\<bar>of_int k * P - x\<bar> = P * \<bar>of_int k - t\<bar>"
      using P by (simp add: abs_mult)
  qed
  have int_case: "\<And>k. \<bar>toDouble x - x\<bar> \<le> \<bar>of_int k * P - x\<bar>"
    unfolding td scale using near P by (simp add: mult_left_mono)
  from r obtain m' e' where m': "\<bar>m'\<bar> \<le> 2 ^ 53" and rr: "r = of_int m' * power_int 2 e'"
    unfolding representable_def by blast
  show ?thesis
  proof (cases "e \<le> e'")
    case True
    have "power_int (2::rat) e' = power_int 2 (e' - e) * P"
    proof -
      have "power_int (2::rat) ((e' - e) + e) = power_int 2 (e' - e) * power_int 2 e"
        by (rule power_int_add) simp
      then show ?thesis unfolding P_def by simp
    qed
    moreover have "power_int (2::rat) (e' - e) = of_int (2 ^ nat (e' - e))"
      using True by (simp add: power_int_def)
    ultimately have "r = of_int (m' * 2 ^ nat (e' - e)) * P" unfolding rr by simp
    with int_case[of "m' * 2 ^ nat (e' - e)"] show ?thesis by simp
  next
    case False
    then have le: "e' \<le> e - 1" by simp
    have "power_int (2::rat) e' \<le> power_int 2 (e - 1)"
      using le by (intro power_int_increasing) simp_all
    moreover have "power_int (2::rat) (e - 1) * 2 = P"
    proof -
      have "power_int (2::rat) ((e - 1) + 1) = power_int 2 (e - 1) * power_int 2 1"
        by (rule power_int_add) simp
      then show ?thesis unfolding P_def by simp
    qed
    ultimately have pw: "power_int (2::rat) e' \<le> P / 2" by simp
    have "r \<le> \<bar>r\<bar>" by simp
    also have "\<bar>r\<bar> = \<bar>of_int m'\<bar> * power_int 2 e'" unfolding rr by (simp add: abs_mult)
    also have "\<dots> \<le> 2 ^ 53 * power_int 2 e'"
    proof (rule mult_right_mono)
      have "(of_int \<bar>m'\<bar> :: rat) \<le> of_int (2 ^ 53)" using m' by (simp only: of_int_le_iff)
      then show "\<bar>of_int m' :: rat\<bar> \<le> 2 ^ 53" by simp
      show "(0::rat) \<le> power_int 2 e'" by simp
    qed
    also have "\<dots> \<le> 2 ^ 53 * (P / 2)" using pw by (intro mult_left_mono) simp_all
    also have "\<dots> = of_int (2 ^ 52) * P" by simp
    finally have rle: "r \<le> of_int (2 ^ 52) * P" .
    have "of_int (2 ^ 52) * P \<le> x" unfolding xt using t52 P by (simp add: mult_right_mono)
    with rle have "\<bar>of_int (2 ^ 52) * P - x\<bar> \<le> \<bar>r - x\<bar>" by linarith
    with int_case[of "2 ^ 52"] show ?thesis by linarith
  qed
qed

lemma toDouble_nearest:
  assumes r: "representable r"
  shows "\<bar>toDouble x - x\<bar> \<le> \<bar>r - x\<bar>"
proof -
  consider "x = 0" | "0 < x" | "x < 0" by linarith
  then show ?thesis
  proof cases
    case 1
    then show ?thesis by (simp add: toDouble_def)
  next
    case 2
    then show ?thesis using r by (rule toDouble_nearest_pos)
  next
    case 3
    then have "0 < - x" by simp
    from toDouble_nearest_pos[OF this representable_minus[OF r]]
    have "\<bar>- toDouble x + x\<bar> \<le> \<bar>- r + x\<bar>" by (simp add: toDouble_minus)
    then show ?thesis by (simp add: abs_minus_commute) 
  qed
qed

lemma toDouble_representable: "representable (toDouble x)"
proof -
  have pos: "representable (toDouble y)" if y: "0 < y" for y
  proof -
    let ?e = "binade y - 52"
    let ?t = "y / power_int 2 ?e"
    have "of_int 0 \<le> ?t" using scaled_bounds(1)[OF y] by simp
    moreover have "?t \<le> of_int (2 ^ 53)" using scaled_bounds(2)[OF y] by simp
    ultimately have "0 \<le> roundHalfEven ?t" "roundHalfEven ?t \<le> 2 ^ 53"
      by (rule roundHalfEven_bounds)+
    then have "\<bar>roundHalfEven ?t\<bar> \<le> 2 ^ 53" by simp
    with toDouble_pos[OF y] show ?thesis unfolding representable_def by blast
  qed
  consider "x = 0" | "0 < x" | "x < 0" by linarith
  then show ?thesis
  proof cases
    case 1
    have "\<bar>0::int\<bar> \<le> 2 ^ 53 \<and> (0::rat) = of_int 0 * power_int 2 0" by simp
    then have "representable 0" unfolding representable_def by blast
    with 1 show ?thesis by (simp add: toDouble_def)
  next
    case 2
    then show ?thesis by (rule pos)
  next
    case 3
    then have "representable (toDouble (- x))" by (intro pos) simp
    then have "representable (- toDouble (- x))" by (rule representable_minus)
    then show ?thesis by (simp add: toDouble_minus)
  qed
qed

lemma toDouble_mono:
  assumes "x \<le> y"
  shows "toDouble x \<le> toDouble y"
proof (rule ccontr)
  assume "\<not> toDouble x \<le> toDouble y"
  then have lt: "toDouble y < toDouble x" by simp
  have a: "\<bar>toDouble x - x\<bar> \<le> \<bar>toDouble y - x\<bar>"
    by (rule toDouble_nearest[OF toDouble_representable])
  have b: "\<bar>toDouble y - y\<bar> \<le> \<bar>toDouble x - y\<bar>"
    by (rule toDouble_nearest[OF toDouble_representable])
  show False
  proof (cases "x = y")
    case True
    with lt show False by simp
  next
    case False
    with assms have "x < y" by simp
    with lt a b show False by linarith
  qed
qed

lemma toDouble_id: "representable x \<Longrightarrow> toDouble x = x"
  using toDouble_nearest[of x x] by simp

section \<open>Position and percentile\<close>

lemma better_iff_rankKey:
  "(totalPoints v > totalPoints u
      \<or> (totalPoints v = totalPoints u \<and> correctScores v > correctScores u)
      \<or> (totalPoints v = totalPoints u \<and> correctScores v = correctScores u
            \<and> correctMatches v > correctMatches u))
   = (rankKey u < rankKey v)"
  by (auto simp: rankKey_def less_prod_def)

lemma myPosition_found:
  assumes "findById (users d) uid = Some usr"
  shows "\<exists>r. myPosition d uid = Ok200 r
           \<and> ps_position r = 1 + int (length (filter (\<lambda>v. rankKey usr < rankKey v) (users d)))
           \<and> ps_totalUsers r = int (length (filter (\<lambda>v. totalPoints v > 0) (users d)))
           \<and> ps_percentile r =
               (if ps_totalUsers r = 0 then 0
                else mathRound
                       (dMul (dSub 1 (dDiv (of_int (ps_position r)) (of_int (ps_totalUsers r))))
                          100))"
  using assms
  by (simp add: myPosition_def Let_def countDocuments_def better_iff_rankKey)



text \<open>
  Claim C8 as stated fails where the exact value is a half that the rounded operations miss.
  With 40 ranked users the user in position 17 has (1 - 17/40) * 100 = 57.5, which rounds
  to 58 (upwards as well as to even); as JavaScript numbers the quotient, the difference and
  the product give a value below 57.5, and the answer is 57.
\<close>

theorem percentile_exact_formula_counterexample:
  "myPosition rankedDb 17 =
     Ok200 \<lparr>ps_position = 17, ps_totalUsers = 40, ps_totalPoints = 24, ps_correctMatches = 0,
            ps_correctScores = 0, ps_percentile = 57\<rparr>
   \<and> mathRound ((1 - 17 / 40) * 100) = 58
   \<and> roundHalfEven ((1 - 17 / 40) * 100) = 58
   \<and> dMul (dSub 1 (dDiv 17 40)) 100 < 115 / 2"
  by code_simp


section \<open>Ties in the two ranking queries\<close>












section \<open>Range of the percentile\<close>

lemma length_filter_imp:
  "(\<And>x. x \<in> set xs \<Longrightarrow> P x \<Longrightarrow> Q x) \<Longrightarrow> length (filter P xs) \<le> length (filter Q xs)"
  by (induction xs) auto

text \<open>
  Below 200 ranked users a position beyond the last ranked one gives an exact value of
  at most \<open>-100/199\<close>; the three roundings keep it below \<open>-1/2\<close>, since rounding
  is monotone and leaves the binary64 value \<open>65865/65536\<close> between \<open>1\<close> and
  \<open>1 + 1/199\<close> fixed.
\<close>

lemma percentile_negative:
  assumes n: "0 < (n::int)" "n < 200" and p: "n < p"
  shows "mathRound (dMul (dSub 1 (dDiv (of_int p) (of_int n))) 100) < 0"
proof -
  let ?c = "65865 / 65536 :: rat"
  have c1: "toDouble ?c = ?c" by code_simp
  have c2: "toDouble (1 - ?c) = 1 - ?c" by code_simp
  have c3: "toDouble ((1 - ?c) * 100) = (1 - ?c) * 100" by code_simp
  have np: "(0::rat) < of_int n" using n by simp
  have "329 * n \<le> 65536" using n by simp
  then have "65865 * n \<le> 65536 * (n + 1)" by simp
  also have "\<dots> \<le> 65536 * p" using p by simp
  finally have "(of_int (65865 * n) :: rat) \<le> of_int (65536 * p)" by (simp only: of_int_le_iff)
  then have "65865 * (of_int n :: rat) \<le> 65536 * of_int p" by simp
  then have "?c \<le> of_int p / of_int n" using np by (simp add: field_simps)
  then have "toDouble ?c \<le> dDiv (of_int p) (of_int n)"
    unfolding dDiv_def by (rule toDouble_mono)
  then have q: "?c \<le> dDiv (of_int p) (of_int n)" by (simp only: c1)
  then have "1 - dDiv (of_int p) (of_int n) \<le> 1 - ?c" by simp
  then have "dSub 1 (dDiv (of_int p) (of_int n)) \<le> toDouble (1 - ?c)"
    unfolding dSub_def by (rule toDouble_mono)
  then have s: "dSub 1 (dDiv (of_int p) (of_int n)) \<le> 1 - ?c" by (simp only: c2)
  then have "dSub 1 (dDiv (of_int p) (of_int n)) * 100 \<le> (1 - ?c) * 100" by simp
  then have "dMul (dSub 1 (dDiv (of_int p) (of_int n))) 100 \<le> toDouble ((1 - ?c) * 100)"
    unfolding dMul_def by (rule toDouble_mono)
  then have "dMul (dSub 1 (dDiv (of_int p) (of_int n))) 100 \<le> (1 - ?c) * 100"
    by (simp only: c3)
  then have "dMul (dSub 1 (dDiv (of_int p) (of_int n))) 100 + 1 / 2 < 0" by simp
  then show ?thesis unfolding mathRound_def by (simp add: floor_less_iff)
qed

text \<open>
  Claim C10. The percentile of \<open>my-position\<close> is not bounded below by 0. The position
  is one more than the number of users, of all users, whose tuple is strictly better,
  while totalUsers counts only the users with totalPoints > 0. For a user with
  totalPoints = 0 every ranked user counts as better: the position exceeds totalUsers,
  and with between 1 and 199 ranked users the percentile is negative. (From 200 ranked
  users on, a position just beyond the last one gives a value that rounds to 0.)
\<close>

theorem percentile_can_be_negative:
  assumes found: "findById (users d) uid = Some usr"
      and zero: "totalPoints usr = 0"
      and some: "0 < length (filter (\<lambda>v. totalPoints v > 0) (users d))"
      and few: "length (filter (\<lambda>v. totalPoints v > 0) (users d)) < 200"
  shows "\<exists>r. myPosition d uid = Ok200 r
           \<and> ps_position r = 1 + int (length (filter (\<lambda>v. rankKey usr < rankKey v) (users d)))
           \<and> ps_totalUsers r = int (length (filter (\<lambda>v. totalPoints v > 0) (users d)))
           \<and> ps_totalUsers r > 0
           \<and> ps_position r > ps_totalUsers r
           \<and> ps_percentile r < 0"
proof -
  from myPosition_found[OF found] obtain r where
    r: "myPosition d uid = Ok200 r"
    and pos: "ps_position r = 1 + int (length (filter (\<lambda>v. rankKey usr < rankKey v) (users d)))"
    and tot: "ps_totalUsers r = int (length (filter (\<lambda>v. totalPoints v > 0) (users d)))"
    and pct: "ps_percentile r =
               (if ps_totalUsers r = 0 then 0
                else mathRound
                       (dMul (dSub 1 (dDiv (of_int (ps_position r)) (of_int (ps_totalUsers r))))
                          100))"
    by blast
  have "length (filter (\<lambda>v. totalPoints v > 0) (users d))
          \<le> length (filter (\<lambda>v. rankKey usr < rankKey v) (users d))"
    by (rule length_filter_imp) (simp add: rankKey_def less_prod_def zero)
  with pos tot have gt: "ps_totalUsers r < ps_position r" by simp
  from tot some few have n: "0 < ps_totalUsers r" "ps_totalUsers r < 200" by simp_all
  from pct n percentile_negative[OF n gt] have "ps_percentile r < 0" by simp
  with r pos tot n gt show ?thesis by blast
qed

theorem percentile_can_be_negative_witness:
  "myPosition finalizedDb 3 =
     Ok200 \<lparr>ps_position = 3, ps_totalUsers = 2, ps_totalPoints = 0, ps_correctMatches = 0,
            ps_correctScores = 0, ps_percentile = - 50\<rparr>
   \<and> length (filter (\<lambda>v. rankKey
          \<lparr>u_id = 3, username = ''eva'', totalPoints = 0, correctMatches = 0, correctScores = 0\<rparr>
          < rankKey v) (users finalizedDb)) = 2
   \<and> length (filter (\<lambda>v. totalPoints v > 0) (users finalizedDb)) = 2"
proof -
  let ?u = "\<lparr>u_id = 3, username = ''eva'', totalPoints = 0, correctMatches = 0, correctScores = 0\<rparr>"
  have found: "findById (users finalizedDb) 3 = Some ?u" by code_simp
  have zero: "totalPoints ?u = 0" by simp
  have some: "0 < length (filter (\<lambda>v. totalPoints v > 0) (users finalizedDb))" by code_simp
  have few: "length (filter (\<lambda>v. totalPoints v > 0) (users finalizedDb)) < 200" by code_simp
  have v: "myPosition finalizedDb 3 =
     Ok200 \<lparr>ps_position = 3, ps_totalUsers = 2, ps_totalPoints = 0, ps_correctMatches = 0,
            ps_correctScores = 0, ps_percentile = - 50\<rparr>" by code_simp
  have c: "length (filter (\<lambda>v. rankKey ?u < rankKey v) (users finalizedDb)) = 2" by code_simp
  have t: "length (filter (\<lambda>v. totalPoints v > 0) (users finalizedDb)) = 2" by code_simp
  from percentile_can_be_negative[OF found zero some few] v c t show ?thesis by simp
qed

section \<open>Idempotence of finalization\<close>

lemma recalcUserTotals_alt:
  "recalcUserTotals F d uid =
     (case findById (users d) uid of
        None \<Rightarrow> (d, Inr None)
      | Some usr \<Rightarrow>
          if userSaveFails F (recalcValue d uid usr) then (d, Inl UserSaveFailed)
          else (d\<lparr>users := saveUser (recalcValue d uid usr) (users d)\<rparr>,
                Inr (Some (recalcValue d uid usr))))"
  by (simp add: recalcUserTotals_def recalcValue_def Let_def split: option.splits)

lemma recalcValue_users [simp]: "recalcValue (d\<lparr>users := us\<rparr>) uid u = recalcValue d uid u"
  by (simp add: recalcValue_def)

lemma recalcValue_id [simp]: "u_id (recalcValue d uid u) = u_id u"
  by (simp add: recalcValue_def)

lemma recalcValue_idem [simp]: "recalcValue d uid (recalcValue d uid u) = recalcValue d uid u"
  by (simp add: recalcValue_def)

lemma saveFound_same: "find P xs = Some x \<Longrightarrow> saveFound P x xs = xs"
  by (induction xs) (auto split: if_splits)

lemma find_saveFound_other:
  "(\<And>x. P x \<Longrightarrow> \<not> Q x) \<Longrightarrow> \<not> Q y \<Longrightarrow> find Q (saveFound P y xs) = find Q xs"
  by (induction xs) auto

lemma findById_saveUser_other:
  "u_id u \<noteq> a \<Longrightarrow> findById (saveUser u us) a = findById us a"
  unfolding findById_def saveUser_def by (rule find_saveFound_other) auto

lemma settled_recalc_same:
  assumes "settled F d uid"
  shows "recalcUserTotals F d uid = (d, Inr (findById (users d) uid))"
proof (cases "findById (users d) uid")
  case None
  then show ?thesis by (simp add: recalcUserTotals_alt)
next
  case (Some u)
  with assms have v: "recalcValue d uid u = u" and ok: "\<not> userSaveFails F u"
    by (simp_all add: settled_def)
  have "u_id u = uid" using findById_SomeD[OF Some] by simp
  with Some have "saveUser u (users d) = users d"
    unfolding saveUser_def findById_def by (simp add: saveFound_same)
  with Some v ok show ?thesis by (simp add: recalcUserTotals_alt)
qed

lemma recalc_settles:
  assumes "recalcUserTotals F d uid = (d', Inr r)"
  shows "settled F d' uid"
proof (cases "findById (users d) uid")
  case None
  with assms show ?thesis by (auto simp: recalcUserTotals_alt settled_def)
next
  case (Some u)
  let ?v = "recalcValue d uid u"
  from assms Some have ok: "\<not> userSaveFails F ?v" and d': "d' = d\<lparr>users := saveUser ?v (users d)\<rparr>"
    by (auto simp: recalcUserTotals_alt split: if_splits)
  have uid: "u_id u = uid" using findById_SomeD[OF Some] by simp
  have "findById (saveUser ?v (users d)) (u_id ?v) = Some ?v"
    by (rule findById_saveUser[of _ _ u]) (simp add: Some uid)
  then have "findById (users d') uid = Some ?v" using d' uid by simp
  then show ?thesis using ok d' by (simp add: settled_def)
qed

lemma recalc_keeps_settled:
  assumes s: "settled F d a" and run: "recalcUserTotals F d b = (d', Inr r)"
  shows "settled F d' a"
proof (cases "a = b")
  case True
  with run show ?thesis using recalc_settles by blast
next
  case False
  show ?thesis
  proof (cases "findById (users d) b")
    case None
    with run have "d' = d" by (simp add: recalcUserTotals_alt)
    with s show ?thesis by simp
  next
    case (Some u)
    let ?v = "recalcValue d b u"
    from run Some have d': "d' = d\<lparr>users := saveUser ?v (users d)\<rparr>"
      by (auto simp: recalcUserTotals_alt split: if_splits)
    have "u_id u = b" using findById_SomeD[OF Some] by simp
    then have "u_id ?v \<noteq> a" using False by simp
    then have "findById (users d') a = findById (users d) a"
      using d' by (simp add: findById_saveUser_other)
    with s d' show ?thesis by (simp add: settled_def split: option.splits)
  qed
qed

lemma recalcLoop_settles:
  "recalcLoop F d uids = (d', None) \<Longrightarrow> (\<forall>a \<in> set done. settled F d a) \<Longrightarrow>
     (\<forall>a \<in> set done \<union> set uids. settled F d' a)"
proof (induction uids arbitrary: d "done")
  case Nil
  then show ?case by simp
next
  case (Cons b uids)
  obtain d1 r where s: "recalcUserTotals F d b = (d1, r)" by (cases "recalcUserTotals F d b")
  with Cons.prems(1) obtain v where r: "r = Inr v" by (cases r) auto
  with Cons.prems(1) s have rest: "recalcLoop F d1 uids = (d', None)" by simp
  have "\<forall>a \<in> set (b # done). settled F d1 a"
    using Cons.prems(2) recalc_keeps_settled[OF _ s[unfolded r]] recalc_settles[OF s[unfolded r]]
    by auto
  from Cons.IH[OF rest this] show ?case by auto
qed

lemma recalcLoop_settled:
  "(\<forall>a \<in> set uids. settled F d a) \<Longrightarrow> recalcLoop F d uids = (d, None)"
  by (induction uids) (simp_all add: settled_recalc_same)

lemma recalcLoop_idem:
  assumes "recalcLoop F d uids = (d', None)"
  shows "recalcLoop F d' uids = (d', None)"
  using recalcLoop_settles[OF assms, of "[]"] by (simp add: recalcLoop_settled)

lemma scoreMatchPrediction_idem [simp]:
  "scoreMatchPrediction m (scoreMatchPrediction m p) = scoreMatchPrediction m p"
  by (simp add: scoreMatchPrediction_def Let_def)

lemma scoreMatchPrediction_keys [simp]:
  "mp_match (scoreMatchPrediction m p) = mp_match p"
  "mp_user (scoreMatchPrediction m p) = mp_user p"
  by (simp_all add: scoreMatchPrediction_def Let_def)

lemma scoreIfMatch_keys [simp]:
  "mp_match (scoreIfMatch m p) = mp_match p"
  "mp_user (scoreIfMatch m p) = mp_user p"
  by (simp_all add: scoreIfMatch_def)

lemma scoreLoop_fixed:
  "(\<forall>p \<in> set ps. mp_match p = m_id m \<longrightarrow> \<not> matchPredictionSaveFails F (scoreMatchPrediction m p))
     \<Longrightarrow> scoreLoop F m (map (scoreIfMatch m) ps) = (map (scoreIfMatch m) ps, None)"
  by (induction ps) (auto simp: scoreIfMatch_def Let_def)

lemma affected_same:
  "map mp_user (filter (\<lambda>p. mp_match p = i) (map (scoreIfMatch m) ps))
     = map mp_user (filter (\<lambda>p. mp_match p = i) ps)"
  by (induction ps) auto

text \<open>
  Claim C2. Result finalization is idempotent: when
  \<open>calculateMatchPointsForAllUsers\<close> has completed for a match, running it again
  on the resulting store completes and leaves the whole store as it is, so every
  prediction's \<open>pointsAwarded\<close> and flags and every user's aggregate are the same
  after the second run as after the first.
\<close>

theorem finalization_idempotent:
  assumes run: "calculateMatchPointsForAllUsers F d mid = (d', None)"
  shows "calculateMatchPointsForAllUsers F d' mid = (d', None)"
proof (cases "findMatchById (matches d) mid")
  case None
  with run show ?thesis by (auto simp: calculateMatchPointsForAllUsers_def)
next
  case (Some m)
  show ?thesis
  proof (cases "status m = Finished")
    case False
    with run Some show ?thesis by (auto simp: calculateMatchPointsForAllUsers_def)
  next
    case True
    let ?P = "matchPredictions d"
    let ?uids = "uniqueInOrder (map mp_user (filter (\<lambda>p. mp_match p = m_id m) ?P))"
    obtain coll e where sl: "scoreLoop F m ?P = (coll, e)" by (cases "scoreLoop F m ?P")
    from run Some True sl have e: "e = None"
      by (cases e) (auto simp: calculateMatchPointsForAllUsers_def Let_def)
    from scoreLoop_None[OF sl[unfolded e]]
    have coll: "coll = map (scoreIfMatch m) ?P"
      and ok: "\<forall>p \<in> set ?P. mp_match p = m_id m \<longrightarrow>
                 \<not> matchPredictionSaveFails F (scoreMatchPrediction m p)"
      by simp_all
    from run Some True sl e
    have rl: "recalcLoop F (d\<lparr>matchPredictions := coll\<rparr>) ?uids = (d', None)"
      by (simp add: calculateMatchPointsForAllUsers_def Let_def)
    have fr: "d' = d\<lparr>matchPredictions := coll\<rparr>\<lparr>users := users d'\<rparr>"
      using recalcLoop_frame[OF rl] .
    have m': "findMatchById (matches d') mid = Some m" by (subst fr) (simp add: Some)
    have P': "matchPredictions d' = coll" by (subst fr) simp
    have sl': "scoreLoop F m (matchPredictions d') = (coll, None)"
      unfolding P' coll by (rule scoreLoop_fixed[OF ok])
    have same: "d'\<lparr>matchPredictions := coll\<rparr> = d'" using P' by simp
    have uids': "uniqueInOrder (map mp_user (filter (\<lambda>p. mp_match p = m_id m) (matchPredictions d')))
                   = ?uids"
      unfolding P' coll by (simp add: affected_same)
    from m' True sl' same uids' recalcLoop_idem[OF rl] show ?thesis
      by (simp add: calculateMatchPointsForAllUsers_def Let_def)
  qed
qed

theorem finalization_idempotent_witness:
  "calculateMatchPointsForAllUsers noFaults exampleDb 10 = (finalizedDb, None)
   \<and> calculateMatchPointsForAllUsers noFaults finalizedDb 10 = (finalizedDb, None)
   \<and> finalizedDb \<noteq> exampleDb"
proof -
  have run: "calculateMatchPointsForAllUsers noFaults exampleDb 10 = (finalizedDb, None)"
    by code_simp
  have ne: "finalizedDb \<noteq> exampleDb" by code_simp
  from finalization_idempotent[OF run] run ne show ?thesis by simp
qed

section \<open>Failures during batch scoring\<close>

lemma scoreLoop_Some:
  "scoreLoop F m ps = (ps', Some e) \<Longrightarrow>
     e = MatchPredictionSaveFailed \<and>
     (\<exists>before p after.
        ps = before @ p # after \<and> mp_match p = m_id m
        \<and> matchPredictionSaveFails F (scoreMatchPrediction m p)
        \<and> (\<forall>q \<in> set before. mp_match q = m_id m \<longrightarrow>
              \<not> matchPredictionSaveFails F (scoreMatchPrediction m q))
        \<and> ps' = map (scoreIfMatch m) before @ p # after)"
proof (induction ps arbitrary: ps')
  case Nil
  then show ?case by simp
next
  case (Cons x xs)
  show ?case
  proof (cases "mp_match x = m_id m \<and> matchPredictionSaveFails F (scoreMatchPrediction m x)")
    case True
    with Cons.prems have "e = MatchPredictionSaveFailed" "ps' = x # xs"
      by (auto simp: Let_def)
    with True have "x # xs = [] @ x # xs \<and> mp_match x = m_id m
        \<and> matchPredictionSaveFails F (scoreMatchPrediction m x)
        \<and> (\<forall>q \<in> set []. mp_match q = m_id m \<longrightarrow>
              \<not> matchPredictionSaveFails F (scoreMatchPrediction m q))
        \<and> ps' = map (scoreIfMatch m) [] @ x # xs" by simp
    with \<open>e = MatchPredictionSaveFailed\<close> show ?thesis by blast
  next
    case False
    obtain qs e' where r: "scoreLoop F m xs = (qs, e')" by (cases "scoreLoop F m xs")
    from Cons.prems False r have e': "e' = Some e" and ps': "ps' = scoreIfMatch m x # qs"
      by (auto simp: Let_def scoreIfMatch_def split: if_splits)
    from Cons.IH[OF r[unfolded e']] obtain before p after where
      e: "e = MatchPredictionSaveFailed" and
      IH: "xs = before @ p # after" "mp_match p = m_id m"
        "matchPredictionSaveFails F (scoreMatchPrediction m p)"
        "\<forall>q \<in> set before. mp_match q = m_id m \<longrightarrow>
              \<not> matchPredictionSaveFails F (scoreMatchPrediction m q)"
        "qs = map (scoreIfMatch m) before @ p # after"
      by blast
    have "x # xs = (x # before) @ p # after \<and> mp_match p = m_id m
        \<and> matchPredictionSaveFails F (scoreMatchPrediction m p)
        \<and> (\<forall>q \<in> set (x # before). mp_match q = m_id m \<longrightarrow>
              \<not> matchPredictionSaveFails F (scoreMatchPrediction m q))
        \<and> ps' = map (scoreIfMatch m) (x # before) @ p # after"
      using IH False ps' by auto
    with e show ?thesis by blast
  qed
qed

lemma recalcUserTotals_error:
  "recalcUserTotals F d uid = (d', Inl e) \<Longrightarrow> e = UserSaveFailed \<and> d' = d"
  by (auto simp: recalcUserTotals_def Let_def split: option.splits if_splits)

lemma recalcLoop_error:
  "recalcLoop F d uids = (d', Some e) \<Longrightarrow> e = UserSaveFailed"
proof (induction uids arbitrary: d)
  case Nil
  then show ?case by simp
next
  case (Cons uid uids)
  obtain d1 r where s: "recalcUserTotals F d uid = (d1, r)" by (cases "recalcUserTotals F d uid")
  show ?case
  proof (cases r)
    case (Inl a)
    with Cons.prems s recalcUserTotals_error[of F d uid d1 a] show ?thesis by simp
  next
    case (Inr b)
    with Cons.prems s have "recalcLoop F d1 uids = (d', Some e)" by simp
    then show ?thesis by (rule Cons.IH)
  qed
qed


lemma scoreLoop_rejected:
  "\<exists>p \<in> set ps. mp_match p = m_id m \<and> matchPredictionSaveFails F (scoreMatchPrediction m p)
     \<Longrightarrow> \<exists>ps'. scoreLoop F m ps = (ps', Some MatchPredictionSaveFailed)"
proof (induction ps)
  case Nil
  then show ?case by simp
next
  case (Cons x xs)
  show ?case
  proof (cases "mp_match x = m_id m \<and> matchPredictionSaveFails F (scoreMatchPrediction m x)")
    case True
    then show ?thesis by (simp add: Let_def)
  next
    case False
    with Cons.prems have "\<exists>p \<in> set xs. mp_match p = m_id m
        \<and> matchPredictionSaveFails F (scoreMatchPrediction m p)" by auto
    from Cons.IH[OF this] obtain qs where "scoreLoop F m xs = (qs, Some MatchPredictionSaveFailed)"
      by blast
    with False show ?thesis by (auto simp: Let_def)
  qed
qed

lemma scoreLoop_accepted:
  "\<forall>p \<in> set ps. mp_match p = m_id m \<longrightarrow> \<not> matchPredictionSaveFails F (scoreMatchPrediction m p)
     \<Longrightarrow> scoreLoop F m ps = (map (scoreIfMatch m) ps, None)"
  by (induction ps) (auto simp: Let_def scoreIfMatch_def)

lemma findMatchById_saveFound:
  "findMatchById ms i = Some m0 \<Longrightarrow> m_id m = i \<Longrightarrow>
     findMatchById (saveFound (\<lambda>x. m_id x = i) m ms) i = Some m"
  unfolding findMatchById_def by (rule find_saveFound) simp_all

lemma m_id_updateMatchFields: "m_id (updateMatchFields hs as st m) = m_id m"
  by (simp add: updateMatchFields_def)

lemma adminUpdateMatch_finalizes:
  assumes m0: "findMatchById (matches d0) mid = Some m0"
      and fin: "status (updateMatchFields hs as st m0) = Finished"
               "homeScore (updateMatchFields hs as st m0) \<noteq> None"
               "awayScore (updateMatchFields hs as st m0) \<noteq> None"
  shows "adminUpdateMatch F d0 mid hs as st =
           (case calculateMatchPointsForAllUsers F
                   (d0\<lparr>matches := saveFound (\<lambda>x. m_id x = mid)
                                    (updateMatchFields hs as st m0) (matches d0)\<rparr>) mid of
              (d2, Some e) \<Rightarrow> (d2, ServerError500 e)
            | (d2, None) \<Rightarrow> (d2, Ok200 (updateMatchFields hs as st m0)))"
proof -
  have "m_id (updateMatchFields hs as st m0) = mid"
    using findMatchById_SomeD[OF m0] by (simp add: m_id_updateMatchFields)
  with m0 fin show ?thesis by (simp add: adminUpdateMatch_def Let_def)
qed

text \<open>
  Claim C7, as the code has it. Let the match be finished. If the save of some prediction
  of the match is rejected, the batch stops at the first such prediction: the predictions
  before it keep their freshly written scores, the rejected prediction and every later one
  stay as stored, no user aggregate is recomputed (the store is otherwise unchanged), the
  function ends with the error, and an admin update that finalised the match answers 500
  with that error and nothing else. If no save of a prediction of the match is rejected,
  every prediction of the match is scored and the aggregates of the affected users are
  recomputed in turn; the batch does not end with a prediction-save error. In both cases
  the admin update that finalised the match answers 500 with the error when the batch
  ends with one, and the updated match otherwise: no summary of successes and failures
  is ever returned.
\<close>

theorem batch_scoring_stops_at_first_failure:
  assumes m: "findMatchById (matches d) mid = Some m" and fin: "status m = Finished"
  shows "((\<exists>p \<in> set (matchPredictions d).
             mp_match p = mid \<and> matchPredictionSaveFails F (scoreMatchPrediction m p)) \<longrightarrow>
          (\<exists>before p after.
             matchPredictions d = before @ p # after \<and> mp_match p = mid
             \<and> matchPredictionSaveFails F (scoreMatchPrediction m p)
             \<and> (\<forall>q \<in> set before. mp_match q = mid \<longrightarrow>
                   \<not> matchPredictionSaveFails F (scoreMatchPrediction m q))
             \<and> calculateMatchPointsForAllUsers F d mid =
                 (d\<lparr>matchPredictions := map (scoreIfMatch m) before @ p # after\<rparr>,
                  Some MatchPredictionSaveFailed)
             \<and> (\<forall>d0 m0 hs as st.
                   findMatchById (matches d0) mid = Some m0
                   \<and> m = updateMatchFields hs as st m0
                   \<and> homeScore m \<noteq> None \<and> awayScore m \<noteq> None
                   \<and> d = d0\<lparr>matches := saveFound (\<lambda>x. m_id x = mid) m (matches d0)\<rparr> \<longrightarrow>
                   adminUpdateMatch F d0 mid hs as st =
                     (d\<lparr>matchPredictions := map (scoreIfMatch m) before @ p # after\<rparr>,
                      ServerError500 MatchPredictionSaveFailed))))
       \<and> ((\<forall>p \<in> set (matchPredictions d).
              mp_match p = mid \<longrightarrow> \<not> matchPredictionSaveFails F (scoreMatchPrediction m p)) \<longrightarrow>
          calculateMatchPointsForAllUsers F d mid =
            recalcLoop F (d\<lparr>matchPredictions := map (scoreIfMatch m) (matchPredictions d)\<rparr>)
              (uniqueInOrder (map mp_user (filter (\<lambda>p. mp_match p = mid) (matchPredictions d))))
          \<and> snd (calculateMatchPointsForAllUsers F d mid) \<noteq> Some MatchPredictionSaveFailed
          \<and> matchPredictions (fst (calculateMatchPointsForAllUsers F d mid)) =
              map (scoreIfMatch m) (matchPredictions d))
       \<and> (\<forall>d0 m0 hs as st.
             findMatchById (matches d0) mid = Some m0
             \<and> m = updateMatchFields hs as st m0
             \<and> homeScore m \<noteq> None \<and> awayScore m \<noteq> None
             \<and> d = d0\<lparr>matches := saveFound (\<lambda>x. m_id x = mid) m (matches d0)\<rparr> \<longrightarrow>
             adminUpdateMatch F d0 mid hs as st =
               (case calculateMatchPointsForAllUsers F d mid of
                  (d2, Some e) \<Rightarrow> (d2, ServerError500 e)
                | (d2, None) \<Rightarrow> (d2, Ok200 m)))"
proof -
  have mid: "m_id m = mid" using findMatchById_SomeD[OF m] by simp
  let ?fails = "\<lambda>p. matchPredictionSaveFails F (scoreMatchPrediction m p)"
  have handler: "adminUpdateMatch F d0 mid hs as st =
               (case calculateMatchPointsForAllUsers F d mid of
                  (d2, Some e) \<Rightarrow> (d2, ServerError500 e)
                | (d2, None) \<Rightarrow> (d2, Ok200 m))"
    if h: "findMatchById (matches d0) mid = Some m0"
          "m = updateMatchFields hs as st m0"
          "homeScore m \<noteq> None" "awayScore m \<noteq> None"
          "d = d0\<lparr>matches := saveFound (\<lambda>x. m_id x = mid) m (matches d0)\<rparr>"
    for d0 m0 hs as st
  proof -
    have "adminUpdateMatch F d0 mid hs as st =
               (case calculateMatchPointsForAllUsers F
                       (d0\<lparr>matches := saveFound (\<lambda>x. m_id x = mid) m (matches d0)\<rparr>) mid of
                  (d2, Some e) \<Rightarrow> (d2, ServerError500 e)
                | (d2, None) \<Rightarrow> (d2, Ok200 m))"
      using fin h(3,4) unfolding h(2) by (rule adminUpdateMatch_finalizes[OF h(1)])
    then show ?thesis unfolding h(5) .
  qed
  have rej: "\<exists>before p after.
             matchPredictions d = before @ p # after \<and> mp_match p = mid \<and> ?fails p
             \<and> (\<forall>q \<in> set before. mp_match q = mid \<longrightarrow> \<not> ?fails q)
             \<and> calculateMatchPointsForAllUsers F d mid =
                 (d\<lparr>matchPredictions := map (scoreIfMatch m) before @ p # after\<rparr>,
                  Some MatchPredictionSaveFailed)
             \<and> (\<forall>d0 m0 hs as st.
                   findMatchById (matches d0) mid = Some m0
                   \<and> m = updateMatchFields hs as st m0
                   \<and> homeScore m \<noteq> None \<and> awayScore m \<noteq> None
                   \<and> d = d0\<lparr>matches := saveFound (\<lambda>x. m_id x = mid) m (matches d0)\<rparr> \<longrightarrow>
                   adminUpdateMatch F d0 mid hs as st =
                     (d\<lparr>matchPredictions := map (scoreIfMatch m) before @ p # after\<rparr>,
                      ServerError500 MatchPredictionSaveFailed))"
    if r: "\<exists>p \<in> set (matchPredictions d). mp_match p = mid \<and> ?fails p"
  proof -
    from r mid have "\<exists>p \<in> set (matchPredictions d). mp_match p = m_id m \<and> ?fails p" by simp
    from scoreLoop_rejected[OF this] obtain coll where
      sl: "scoreLoop F m (matchPredictions d) = (coll, Some MatchPredictionSaveFailed)" by blast
    from scoreLoop_Some[OF sl] obtain before p after where
      dec: "matchPredictions d = before @ p # after" "mp_match p = m_id m" "?fails p"
           "\<forall>q \<in> set before. mp_match q = m_id m \<longrightarrow> \<not> ?fails q"
           "coll = map (scoreIfMatch m) before @ p # after"
      by blast
    have run: "calculateMatchPointsForAllUsers F d mid =
                 (d\<lparr>matchPredictions := map (scoreIfMatch m) before @ p # after\<rparr>,
                  Some MatchPredictionSaveFailed)"
      using m fin sl dec(5) by (simp add: calculateMatchPointsForAllUsers_def Let_def)
    have adm: "\<forall>d0 m0 hs as st.
                   findMatchById (matches d0) mid = Some m0
                   \<and> m = updateMatchFields hs as st m0
                   \<and> homeScore m \<noteq> None \<and> awayScore m \<noteq> None
                   \<and> d = d0\<lparr>matches := saveFound (\<lambda>x. m_id x = mid) m (matches d0)\<rparr> \<longrightarrow>
                   adminUpdateMatch F d0 mid hs as st =
                     (d\<lparr>matchPredictions := map (scoreIfMatch m) before @ p # after\<rparr>,
                      ServerError500 MatchPredictionSaveFailed)"
    proof (intro allI impI, elim conjE)
      fix d0 m0 hs as st
      assume h: "findMatchById (matches d0) mid = Some m0"
          "m = updateMatchFields hs as st m0"
          "homeScore m \<noteq> None" "awayScore m \<noteq> None"
          "d = d0\<lparr>matches := saveFound (\<lambda>x. m_id x = mid) m (matches d0)\<rparr>"
      from handler[OF h] run
      show "adminUpdateMatch F d0 mid hs as st =
                     (d\<lparr>matchPredictions := map (scoreIfMatch m) before @ p # after\<rparr>,
                      ServerError500 MatchPredictionSaveFailed)" by simp
    qed
    from dec(1,2,3,4) mid run adm show ?thesis by blast
  qed
  have acc: "calculateMatchPointsForAllUsers F d mid =
            recalcLoop F (d\<lparr>matchPredictions := map (scoreIfMatch m) (matchPredictions d)\<rparr>)
              (uniqueInOrder (map mp_user (filter (\<lambda>p. mp_match p = mid) (matchPredictions d))))
          \<and> snd (calculateMatchPointsForAllUsers F d mid) \<noteq> Some MatchPredictionSaveFailed
          \<and> matchPredictions (fst (calculateMatchPointsForAllUsers F d mid)) =
              map (scoreIfMatch m) (matchPredictions d)"
    if a: "\<forall>p \<in> set (matchPredictions d). mp_match p = mid \<longrightarrow> \<not> ?fails p"
  proof -
    let ?d1 = "d\<lparr>matchPredictions := map (scoreIfMatch m) (matchPredictions d)\<rparr>"
    let ?uids = "uniqueInOrder (map mp_user (filter (\<lambda>p. mp_match p = mid) (matchPredictions d)))"
    from a mid have "\<forall>p \<in> set (matchPredictions d). mp_match p = m_id m \<longrightarrow> \<not> ?fails p" by simp
    from scoreLoop_accepted[OF this]
    have sl: "scoreLoop F m (matchPredictions d) = (map (scoreIfMatch m) (matchPredictions d), None)" .
    have run: "calculateMatchPointsForAllUsers F d mid = recalcLoop F ?d1 ?uids"
      using m fin sl mid by (simp add: calculateMatchPointsForAllUsers_def Let_def)
    obtain d' res where rl: "recalcLoop F ?d1 ?uids = (d', res)" by (cases "recalcLoop F ?d1 ?uids")
    have ne: "res \<noteq> Some MatchPredictionSaveFailed"
      using recalcLoop_error[of F ?d1 ?uids d'] rl by (cases res) auto
    have "d' = ?d1\<lparr>users := users d'\<rparr>" using recalcLoop_frame[OF rl] .
    then have "matchPredictions d' = matchPredictions ?d1"
      by (metis db.select_convs(4) db.surjective db.update_convs(1))
    then have mp: "matchPredictions d' = map (scoreIfMatch m) (matchPredictions d)" by simp
    from run rl ne mp show ?thesis by simp
  qed
  from rej acc handler show ?thesis by blast
qed

text \<open>
  Claim C7 as stated fails. With the save of the first prediction of the match
  rejected, the second prediction, whose save would be accepted and which would score 3,
  is left unscored, and the admin update answers 500 with the error and no summary.
\<close>

theorem batch_scoring_continues_counterexample:
  "calculateMatchPointsForAllUsers rejectFirst exampleDb 10
     = (exampleDb, Some MatchPredictionSaveFailed)
   \<and> matchPredictions exampleDb = [exactPrediction, winnerOnlyPrediction]
   \<and> mp_match winnerOnlyPrediction = 10
   \<and> \<not> matchPredictionSaveFails rejectFirst (scoreMatchPrediction exampleMatch winnerOnlyPrediction)
   \<and> mp_pointsAwarded (scoreMatchPrediction exampleMatch winnerOnlyPrediction) = 3
   \<and> mp_pointsAwarded winnerOnlyPrediction = 0
   \<and> adminUpdateMatch rejectFirst exampleDb 10 None None None
       = (exampleDb, ServerError500 MatchPredictionSaveFailed)"
  by code_simp

theorem batch_scoring_stops_at_first_failure_witness:
  "findMatchById (matches exampleDb) 10 = Some exampleMatch
   \<and> status exampleMatch = Finished
   \<and> matchPredictionSaveFails rejectFirst (scoreMatchPrediction exampleMatch exactPrediction)
   \<and> calculateMatchPointsForAllUsers rejectFirst exampleDb 10
       = (exampleDb, Some MatchPredictionSaveFailed)
   \<and> adminUpdateMatch rejectFirst exampleDb 10 None None None
       = (exampleDb, ServerError500 MatchPredictionSaveFailed)
   \<and> calculateMatchPointsForAllUsers noFaults exampleDb 10 = (finalizedDb, None)
   \<and> matchPredictions finalizedDb = map (scoreIfMatch exampleMatch) (matchPredictions exampleDb)"
proof -
  have m: "findMatchById (matches exampleDb) 10 = Some exampleMatch" by code_simp
  have fin: "status exampleMatch = Finished" by code_simp
  have f: "matchPredictionSaveFails rejectFirst (scoreMatchPrediction exampleMatch exactPrediction)"
    by code_simp
  have rej: "\<exists>p \<in> set (matchPredictions exampleDb).
               mp_match p = 10
               \<and> matchPredictionSaveFails rejectFirst (scoreMatchPrediction exampleMatch p)"
    by code_simp
  have acc: "\<forall>p \<in> set (matchPredictions exampleDb).
               mp_match p = 10 \<longrightarrow>
               \<not> matchPredictionSaveFails noFaults (scoreMatchPrediction exampleMatch p)"
    by code_simp
  have h: "findMatchById (matches exampleDb) 10 = Some exampleMatch
           \<and> exampleMatch = updateMatchFields None None None exampleMatch
           \<and> homeScore exampleMatch \<noteq> None \<and> awayScore exampleMatch \<noteq> None
           \<and> exampleDb = exampleDb\<lparr>matches := saveFound (\<lambda>x. m_id x = 10) exampleMatch
                                                (matches exampleDb)\<rparr>"
    by code_simp
  have run2: "calculateMatchPointsForAllUsers noFaults exampleDb 10 = (finalizedDb, None)"
    by code_simp
  note T1 = batch_scoring_stops_at_first_failure[OF m fin, of rejectFirst]
  note T2 = batch_scoring_stops_at_first_failure[OF m fin, of noFaults]
  from T1 rej have "\<exists>d'. calculateMatchPointsForAllUsers rejectFirst exampleDb 10
                        = (d', Some MatchPredictionSaveFailed)"
    by blast
  moreover have "fst (calculateMatchPointsForAllUsers rejectFirst exampleDb 10) = exampleDb"
    by code_simp
  ultimately have run1: "calculateMatchPointsForAllUsers rejectFirst exampleDb 10
       = (exampleDb, Some MatchPredictionSaveFailed)" by auto
  from T1 h have "adminUpdateMatch rejectFirst exampleDb 10 None None None =
       (case calculateMatchPointsForAllUsers rejectFirst exampleDb 10 of
          (d2, Some e) \<Rightarrow> (d2, ServerError500 e)
        | (d2, None) \<Rightarrow> (d2, Ok200 exampleMatch))"
    by blast
  with run1 have adm: "adminUpdateMatch rejectFirst exampleDb 10 None None None
       = (exampleDb, ServerError500 MatchPredictionSaveFailed)" by simp
  from T2 acc have "matchPredictions (fst (calculateMatchPointsForAllUsers noFaults exampleDb 10)) =
              map (scoreIfMatch exampleMatch) (matchPredictions exampleDb)" by blast
  with run2 have mp: "matchPredictions finalizedDb =
              map (scoreIfMatch exampleMatch) (matchPredictions exampleDb)" by simp
  from m fin f run1 adm run2 mp show ?thesis by simp
qed

section \<open>Writers of the aggregate fields\<close>


lemma saveFound_none: "find P xs = None \<Longrightarrow> saveFound P y xs = xs"
  by (induction xs) (auto split: if_splits)

lemma findById_saveUser_cases:
  assumes "findById (saveUser v us) i = Some u'"
  shows "\<exists>u. findById us i = Some u \<and> (u' = u \<or> (i = u_id v \<and> u' = v))"
proof (cases "i = u_id v")
  case False
  with assms show ?thesis by (simp add: findById_saveUser_other)
next
  case True
  show ?thesis
  proof (cases "findById us (u_id v)")
    case None
    then have "saveUser v us = us" unfolding findById_def saveUser_def by (rule saveFound_none)
    with assms True None show ?thesis by simp
  next
    case (Some x)
    from findById_saveUser[OF Some] assms True have "u' = v" by simp
    with Some True show ?thesis by simp
  qed
qed

lemma recalcUserTotals_users:
  assumes run: "recalcUserTotals F d uid = (d', r)"
      and f: "findById (users d') i = Some u'"
  shows "\<exists>u. findById (users d) i = Some u \<and> (u' = u \<or> u' = recalcValue d i u)"
proof (cases "findById (users d) uid")
  case None
  with run f show ?thesis by (auto simp: recalcUserTotals_alt)
next
  case (Some x)
  have xid: "u_id x = uid" using findById_SomeD[OF Some] by simp
  show ?thesis
  proof (cases "userSaveFails F (recalcValue d uid x)")
    case True
    with run f Some show ?thesis by (auto simp: recalcUserTotals_alt)
  next
    case False
    with run Some have "users d' = saveUser (recalcValue d uid x) (users d)"
      by (auto simp: recalcUserTotals_alt)
    with f findById_saveUser_cases[of "recalcValue d uid x" "users d" i u']
    obtain u where u: "findById (users d) i = Some u"
      "u' = u \<or> (i = uid \<and> u' = recalcValue d uid x)" using xid by auto
    with Some show ?thesis by auto
  qed
qed

lemma recalcLoop_users:
  "recalcLoop F d uids = (d', e) \<Longrightarrow> findById (users d') i = Some u' \<Longrightarrow>
     \<exists>u. findById (users d) i = Some u \<and> (u' = u \<or> u' = recalcValue d i u)"
proof (induction uids arbitrary: d)
  case Nil
  then show ?case by simp
next
  case (Cons uid uids)
  obtain d1 r where s: "recalcUserTotals F d uid = (d1, r)" by (cases "recalcUserTotals F d uid")
  have fr: "d1 = d\<lparr>users := users d1\<rparr>" using recalcUserTotals_frame[OF s] .
  have rv: "\<And>u. recalcValue d1 i u = recalcValue d i u" by (subst fr) simp
  show ?case
  proof (cases r)
    case (Inl a)
    with Cons.prems s have "d' = d1" by simp
    with recalcUserTotals_users[OF s] Cons.prems(2) show ?thesis by simp
  next
    case (Inr b)
    with Cons.prems s have "recalcLoop F d1 uids = (d', e)" by simp
    from Cons.IH[OF this Cons.prems(2)] obtain u1 where
      u1: "findById (users d1) i = Some u1" "u' = u1 \<or> u' = recalcValue d i u1"
      using rv by auto
    from recalcUserTotals_users[OF s u1(1)] obtain u where
      u: "findById (users d) i = Some u" "u1 = u \<or> u1 = recalcValue d i u" by auto
    from u1(2) u(2) have "u' = u \<or> u' = recalcValue d i u" by auto
    with u(1) show ?thesis by simp
  qed
qed

lemma recalcValue_matches [simp]: "recalcValue (d\<lparr>matches := ms\<rparr>) uid u = recalcValue d uid u"
  by (simp add: recalcValue_def)

lemma calculateMatchPoints_users:
  assumes run: "calculateMatchPointsForAllUsers F d mid = (d', e)"
      and f: "findById (users d') i = Some u'"
  shows "\<exists>u. findById (users d) i = Some u \<and> (u' = u \<or> u' = recalcValue d' i u)"
proof (cases "findMatchById (matches d) mid")
  case None
  with run f show ?thesis by (auto simp: calculateMatchPointsForAllUsers_def)
next
  case (Some m)
  show ?thesis
  proof (cases "status m = Finished")
    case False
    with run f Some show ?thesis by (auto simp: calculateMatchPointsForAllUsers_def)
  next
    case True
    obtain coll e1 where sl: "scoreLoop F m (matchPredictions d) = (coll, e1)"
      by (cases "scoreLoop F m (matchPredictions d)")
    show ?thesis
    proof (cases e1)
      case (Some a)
      with run \<open>findMatchById (matches d) mid = Some m\<close> True sl
      have "users d' = users d" by (auto simp: calculateMatchPointsForAllUsers_def Let_def)
      with f show ?thesis by simp
    next
      case None
      let ?d0 = "d\<lparr>matchPredictions := coll\<rparr>"
      from run \<open>findMatchById (matches d) mid = Some m\<close> True sl None
      obtain uids where rl: "recalcLoop F ?d0 uids = (d', e)"
        by (auto simp: calculateMatchPointsForAllUsers_def Let_def)
      have fr: "d' = ?d0\<lparr>users := users d'\<rparr>" using recalcLoop_frame[OF rl] .
      have rv: "\<And>u. recalcValue d' i u = recalcValue ?d0 i u" by (subst fr) simp
      from recalcLoop_users[OF rl f] show ?thesis by (simp add: rv)
    qed
  qed
qed

lemma adminUpdateMatch_users:
  assumes run: "adminUpdateMatch F d mid hs as st = (d', resp)"
      and f: "findById (users d') i = Some u'"
  shows "\<exists>u. findById (users d) i = Some u \<and> (u' = u \<or> u' = recalcValue d' i u)"
proof (cases "findMatchById (matches d) mid")
  case None
  with run f show ?thesis by (auto simp: adminUpdateMatch_def)
next
  case (Some m0)
  let ?m = "updateMatchFields hs as st m0"
  let ?d1 = "d\<lparr>matches := saveFound (\<lambda>x. m_id x = mid) ?m (matches d)\<rparr>"
  show ?thesis
  proof (cases "status ?m = Finished \<and> homeScore ?m \<noteq> None \<and> awayScore ?m \<noteq> None")
    case False
    with run Some have "d' = ?d1" by (auto simp: adminUpdateMatch_def Let_def)
    with f show ?thesis by simp
  next
    case True
    obtain d2 e where c: "calculateMatchPointsForAllUsers F ?d1 (m_id ?m) = (d2, e)"
      by (cases "calculateMatchPointsForAllUsers F ?d1 (m_id ?m)")
    with run Some True have "d' = d2"
      by (cases e) (auto simp: adminUpdateMatch_def Let_def)
    with calculateMatchPoints_users[OF c] f show ?thesis by simp
  qed
qed

lemma calculateAllPoints_users:
  assumes run: "calculateAllPoints F d = (d', resp)"
      and f: "findById (users d') i = Some u'"
  shows "\<exists>u. findById (users d) i = Some u \<and> (u' = u \<or> u' = recalcValue d' i u)"
proof -
  obtain d1 e where rl: "recalcLoop F d (map u_id (users d)) = (d1, e)"
    by (cases "recalcLoop F d (map u_id (users d))")
  with run have d': "d' = d1" by (cases e) (auto simp: calculateAllPoints_def Let_def)
  have fr: "d1 = d\<lparr>users := users d1\<rparr>" using recalcLoop_frame[OF rl] .
  have rv: "\<And>u. recalcValue d1 i u = recalcValue d i u" by (subst fr) simp
  from recalcLoop_users[OF rl] f d' show ?thesis by (simp add: rv)
qed

lemma calculateGroupPoints_users:
  assumes run: "calculateGroupPoints F d reqUser g st = (d', resp)"
      and f: "findById (users d') i = Some u'"
  shows "\<exists>u. findById (users d) i = Some u \<and>
           (u' = u \<or>
            (\<exists>actual p. i = reqUser \<and> st = Some actual
               \<and> find (\<lambda>p. gp_user p = reqUser \<and> gp_group p = toUpperCase g) (groupPredictions d) = Some p
               \<and> u' = u\<lparr>totalPoints := orZero (totalPoints u) - orZero (gp_pointsAwarded p)
                                        + fst (scoreGroupWithDetails p actual)\<rparr>))"
proof (cases st)
  case None
  with run f show ?thesis by (simp add: calculateGroupPoints_def)
next
  case (Some actual)
  let ?q = "\<lambda>p. gp_user p = reqUser \<and> gp_group p = toUpperCase g"
  show ?thesis
  proof (cases "g = [] \<or> find ?q (groupPredictions d) = None")
    case True
    then have "d' = d"
    proof
      assume "g = []"
      with run Some show ?thesis by (simp add: calculateGroupPoints_def)
    next
      assume "find ?q (groupPredictions d) = None"
      with run Some show ?thesis
        by (simp add: calculateGroupPoints_def Let_def split: if_splits)
    qed
    with f show ?thesis by simp
  next
    case False
    then obtain p where p: "find ?q (groupPredictions d) = Some p" and g: "g \<noteq> []" by auto
    obtain pts dt where sc: "scoreGroupWithDetails p actual = (pts, dt)"
      by (cases "scoreGroupWithDetails p actual")
    let ?p' = "p\<lparr>gp_pointsAwarded := pts\<rparr>"
    show ?thesis
    proof (cases "groupPredictionSaveFails F ?p'")
      case True
      with run f Some p g sc show ?thesis by (auto simp: calculateGroupPoints_def Let_def)
    next
      case nf: False
      show ?thesis
      proof (cases "findById (users d) reqUser")
        case None
        with run Some p g sc nf have "users d' = users d"
          by (auto simp: calculateGroupPoints_def Let_def)
        with f show ?thesis by simp
      next
        case (Some usr)
        let ?u = "usr\<lparr>totalPoints := orZero (totalPoints usr) - orZero (gp_pointsAwarded p) + pts\<rparr>"
        have uid: "u_id usr = reqUser" using findById_SomeD[OF Some] by simp
        show ?thesis
        proof (cases "userSaveFails F ?u")
          case True
          with run \<open>st = Some actual\<close> p g sc nf Some have "users d' = users d"
            by (auto simp: calculateGroupPoints_def Let_def)
          with f show ?thesis by simp
        next
          case False
          with run \<open>st = Some actual\<close> p g sc nf Some have "users d' = saveUser ?u (users d)"
            by (auto simp: calculateGroupPoints_def Let_def)
          with f findById_saveUser_cases[of ?u "users d" i u'] uid
          obtain u where u: "findById (users d) i = Some u" "u' = u \<or> (i = reqUser \<and> u' = ?u)"
            by auto
          with Some \<open>st = Some actual\<close> p sc show ?thesis by auto
        qed
      qed
    qed
  qed
qed


lemma recalc_after:
  assumes run: "recalcUserTotals F d1 uid = (d', r)" and us: "users d1 = users d"
      and f: "findById (users d') i = Some u'"
  shows "\<exists>u. findById (users d) i = Some u \<and> (u' = u \<or> u' = recalcValue d' i u)"
proof -
  have fr: "d' = d1\<lparr>users := users d'\<rparr>" using recalcUserTotals_frame[OF run] .
  have rv: "\<And>u. recalcValue d' i u = recalcValue d1 i u" by (subst fr) simp
  from recalcUserTotals_users[OF run f] us show ?thesis by (simp add: rv)
qed

lemma recalcLoop_after:
  assumes run: "recalcLoop F d1 uids = (d', e)" and us: "users d1 = users d"
      and f: "findById (users d') i = Some u'"
  shows "\<exists>u. findById (users d) i = Some u \<and> (u' = u \<or> u' = recalcValue d' i u)"
proof -
  have fr: "d' = d1\<lparr>users := users d'\<rparr>" using recalcLoop_frame[OF run] .
  have rv: "\<And>u. recalcValue d' i u = recalcValue d1 i u" by (subst fr) simp
  from recalcLoop_users[OF run f] us show ?thesis by (simp add: rv)
qed

lemma deleteMatchPrediction_users:
  assumes run: "deleteMatchPrediction F d reqUser mid = (d', resp)"
      and f: "findById (users d') i = Some u'"
  shows "\<exists>u. findById (users d) i = Some u \<and> (u' = u \<or> u' = recalcValue d' i u)"
proof (cases "find (\<lambda>p. mp_user p = reqUser \<and> mp_match p = mid) (matchPredictions d)")
  case None
  with run f show ?thesis by (simp add: deleteMatchPrediction_def)
next
  case (Some pred)
  let ?d1 = "d\<lparr>matchPredictions :=
                 deleteFound (\<lambda>p. mp_user p = reqUser \<and> mp_match p = mid) (matchPredictions d)\<rparr>"
  obtain d2 r where rc: "recalcUserTotals F ?d1 reqUser = (d2, r)"
    by (cases "recalcUserTotals F ?d1 reqUser")
  with run Some have d': "d' = d2" by (cases r) (simp_all add: deleteMatchPrediction_def)
  have us: "users ?d1 = users d" by simp
  from f d' have f2: "findById (users d2) i = Some u'" by simp
  from recalc_after[OF rc us f2] d' show ?thesis by simp
qed

lemma deleteGroupPrediction_users:
  assumes run: "deleteGroupPrediction F d reqUser grp = (d', resp)"
      and f: "findById (users d') i = Some u'"
  shows "\<exists>u. findById (users d) i = Some u \<and> (u' = u \<or> u' = recalcValue d' i u)"
proof (cases "find (\<lambda>p. gp_user p = reqUser \<and> gp_group p = toUpperCase grp) (groupPredictions d)")
  case None
  with run f show ?thesis by (simp add: deleteGroupPrediction_def)
next
  case (Some pred)
  let ?d1 = "d\<lparr>groupPredictions :=
                 deleteFound (\<lambda>p. gp_user p = reqUser \<and> gp_group p = toUpperCase grp)
                   (groupPredictions d)\<rparr>"
  obtain d2 r where rc: "recalcUserTotals F ?d1 reqUser = (d2, r)"
    by (cases "recalcUserTotals F ?d1 reqUser")
  with run Some have d': "d' = d2" by (cases r) (simp_all add: deleteGroupPrediction_def)
  have us: "users ?d1 = users d" by simp
  from f d' have f2: "findById (users d2) i = Some u'" by simp
  from recalc_after[OF rc us f2] d' show ?thesis by simp
qed

lemma deleteTournamentPrediction_users:
  assumes run: "deleteTournamentPrediction F d reqUser = (d', resp)"
      and f: "findById (users d') i = Some u'"
  shows "\<exists>u. findById (users d) i = Some u \<and> (u' = u \<or> u' = recalcValue d' i u)"
proof -
  let ?d1 = "d\<lparr>tournamentPredictions :=
                 deleteFound (\<lambda>p. tp_user p = reqUser) (tournamentPredictions d)\<rparr>"
  obtain d2 r where rc: "recalcUserTotals F ?d1 reqUser = (d2, r)"
    by (cases "recalcUserTotals F ?d1 reqUser")
  with run have d': "d' = d2" by (cases r) (simp_all add: deleteTournamentPrediction_def)
  have us: "users ?d1 = users d" by simp
  from f d' have f2: "findById (users d2) i = Some u'" by simp
  from recalc_after[OF rc us f2] d' show ?thesis by simp
qed

lemma deleteKnockoutPredictions_users:
  assumes run: "deleteKnockoutPredictions F d reqUser = (d', resp)"
      and f: "findById (users d') i = Some u'"
  shows "\<exists>u. findById (users d) i = Some u \<and> (u' = u \<or> u' = recalcValue d' i u)"
proof -
  let ?d1 = "d\<lparr>knockoutPredictions :=
                 filter (\<lambda>p. kp_user p \<noteq> reqUser) (knockoutPredictions d)\<rparr>"
  obtain d2 r where rc: "recalcUserTotals F ?d1 reqUser = (d2, r)"
    by (cases "recalcUserTotals F ?d1 reqUser")
  with run have d': "d' = d2" by (cases r) (simp_all add: deleteKnockoutPredictions_def)
  have us: "users ?d1 = users d" by simp
  from f d' have f2: "findById (users d2) i = Some u'" by simp
  from recalc_after[OF rc us f2] d' show ?thesis by simp
qed

lemma groupResultsLoop_users:
  "groupResultsLoop F d entries = (d', r) \<Longrightarrow> users d' = users d"
proof (induction entries arbitrary: d d' r)
  case Nil
  then show ?case by simp
next
  case (Cons en rest)
  obtain grp st where en: "en = (grp, st)" by (cases en)
  obtain coll r1 where sl: "groupScoreLoop F (toUpperCase grp) st (groupPredictions d) = (coll, r1)"
    by (cases "groupScoreLoop F (toUpperCase grp) st (groupPredictions d)")
  show ?case
  proof (cases r1)
    case (Inl e)
    with Cons.prems en sl show ?thesis by auto
  next
    case (Inr rs)
    obtain d2 r2 where rl: "groupResultsLoop F (d\<lparr>groupPredictions := coll\<rparr>) rest = (d2, r2)"
      by (cases "groupResultsLoop F (d\<lparr>groupPredictions := coll\<rparr>) rest")
    from Cons.IH[OF rl] have "users d2 = users d" by simp
    with Cons.prems en sl Inr rl show ?thesis by (cases r2) auto
  qed
qed

lemma recalculateGroupPoints_users:
  assumes run: "recalculateGroupPoints F d groupResults = (d', resp)"
      and f: "findById (users d') i = Some u'"
  shows "\<exists>u. findById (users d) i = Some u \<and> (u' = u \<or> u' = recalcValue d' i u)"
proof (cases groupResults)
  case None
  with run f show ?thesis by (simp add: recalculateGroupPoints_def)
next
  case (Some entries)
  obtain d1 r1 where gl: "groupResultsLoop F d entries = (d1, r1)"
    by (cases "groupResultsLoop F d entries")
  have us: "users d1 = users d" using groupResultsLoop_users[OF gl] .
  show ?thesis
  proof (cases r1)
    case (Inl e)
    with run Some gl have "d' = d1" by (simp add: recalculateGroupPoints_def)
    with us f show ?thesis by simp
  next
    case (Inr results)
    obtain d2 e where rl: "recalcLoop F d1 (uniqueInOrder (map rr_userId results)) = (d2, e)"
      by (cases "recalcLoop F d1 (uniqueInOrder (map rr_userId results))")
    with run Some gl Inr have d': "d' = d2"
      by (cases e) (simp_all add: recalculateGroupPoints_def Let_def)
    from f d' have f2: "findById (users d2) i = Some u'" by simp
    from recalcLoop_after[OF rl us f2] d' show ?thesis by simp
  qed
qed

lemma findById_append:
  "findById (us @ [v]) i =
     (case findById us i of Some u \<Rightarrow> Some u | None \<Rightarrow> if u_id v = i then Some v else None)"
  unfolding findById_def by (induction us) auto

lemma googleSignIn_users:
  assumes run: "googleSignIn F d profile newId = (d', r)"
      and f: "findById (users d') i = Some u'"
  shows "findById (users d) i = Some u'
         \<or> (findById (users d) i = None \<and> i = newId
            \<and> totalPoints u' = 0 \<and> correctMatches u' = 0 \<and> correctScores u' = 0)"
proof (cases "find (pr_selects profile) (users d)")
  case None
  with run f show ?thesis
    by (auto simp: googleSignIn_def Let_def findById_append split: if_splits option.splits)
next
  case (Some usr)
  from saveFound_same[OF Some] have "saveFound (pr_selects profile) usr (users d) = users d" .
  with run f Some show ?thesis by (auto simp: googleSignIn_def split: if_splits)
qed

lemma googleSignIn_serverJs_users:
  assumes run: "googleSignIn_serverJs F d profile newId = (d', r)"
      and f: "findById (users d') i = Some u'"
  shows "findById (users d) i = Some u'
         \<or> (findById (users d) i = None \<and> i = newId
            \<and> totalPoints u' = 0 \<and> correctMatches u' = 0 \<and> correctScores u' = 0)"
proof (cases "find (pr_selects profile) (users d)")
  case None
  with run f show ?thesis
    by (auto simp: googleSignIn_serverJs_def Let_def findById_append split: if_splits option.splits)
next
  case (Some usr)
  from saveFound_same[OF Some] have "saveFound (pr_selects profile) usr (users d) = users d" .
  with run f Some show ?thesis by (auto simp: googleSignIn_serverJs_def split: if_splits)
qed



lemma calculateGroupPoints_serverJs_users:
  assumes run: "calculateGroupPoints_serverJs F d reqUser g st = (d', resp)"
      and f: "findById (users d') i = Some u'"
  shows "\<exists>u. findById (users d) i = Some u \<and>
           (u' = u \<or>
            (\<exists>actual p. i = reqUser \<and> st = Some actual
               \<and> find (\<lambda>p. gp_user p = reqUser \<and> gp_group p = toUpperCase g) (groupPredictions d) = Some p
               \<and> u' = u\<lparr>totalPoints := totalPoints u
                                        + fst (scoreGroupWithDetails_serverJs p actual)\<rparr>))"
proof (cases st)
  case None
  with run f show ?thesis by (simp add: calculateGroupPoints_serverJs_def)
next
  case (Some actual)
  let ?q = "\<lambda>p. gp_user p = reqUser \<and> gp_group p = toUpperCase g"
  show ?thesis
  proof (cases "g = [] \<or> find ?q (groupPredictions d) = None")
    case True
    then have "d' = d"
    proof
      assume "g = []"
      with run Some show ?thesis by (simp add: calculateGroupPoints_serverJs_def)
    next
      assume "find ?q (groupPredictions d) = None"
      with run Some show ?thesis
        by (simp add: calculateGroupPoints_serverJs_def Let_def split: if_splits)
    qed
    with f show ?thesis by simp
  next
    case False
    then obtain p where p: "find ?q (groupPredictions d) = Some p" and g: "g \<noteq> []" by auto
    obtain pts dt where sc: "scoreGroupWithDetails_serverJs p actual = (pts, dt)"
      by (cases "scoreGroupWithDetails_serverJs p actual")
    let ?p' = "p\<lparr>gp_pointsAwarded := pts\<rparr>"
    show ?thesis
    proof (cases "groupPredictionSaveFails F ?p'")
      case True
      with run f Some p g sc show ?thesis
        by (auto simp: calculateGroupPoints_serverJs_def Let_def)
    next
      case nf: False
      show ?thesis
      proof (cases "findById (users d) reqUser")
        case None
        with run Some p g sc nf have "users d' = users d"
          by (auto simp: calculateGroupPoints_serverJs_def Let_def)
        with f show ?thesis by simp
      next
        case (Some usr)
        let ?u = "usr\<lparr>totalPoints := totalPoints usr + pts\<rparr>"
        have uid: "u_id usr = reqUser" using findById_SomeD[OF Some] by simp
        show ?thesis
        proof (cases "userSaveFails F ?u")
          case True
          with run \<open>st = Some actual\<close> p g sc nf Some have "users d' = users d"
            by (auto simp: calculateGroupPoints_serverJs_def Let_def)
          with f show ?thesis by simp
        next
          case False
          with run \<open>st = Some actual\<close> p g sc nf Some have "users d' = saveUser ?u (users d)"
            by (auto simp: calculateGroupPoints_serverJs_def Let_def)
          with f findById_saveUser_cases[of ?u "users d" i u'] uid
          obtain u where u: "findById (users d) i = Some u" "u' = u \<or> (i = reqUser \<and> u' = ?u)"
            by auto
          with Some \<open>st = Some actual\<close> p sc show ?thesis by auto
        qed
      qed
    qed
  qed
qed

lemma ownerLoop_users:
  "ownerLoop F grp st us ps = ((us', ps'), r) \<Longrightarrow> findById us' i = Some u' \<Longrightarrow>
     \<exists>u. findById us i = Some u \<and> u' = u\<lparr>totalPoints := totalPoints u'\<rparr>
         \<and> (\<forall>rs. r = Inr rs \<longrightarrow>
               totalPoints u' - sum_list (map gp_pointsAwarded (filter (\<lambda>p. gp_user p = i) ps'))
               = totalPoints u - sum_list (map gp_pointsAwarded (filter (\<lambda>p. gp_user p = i) ps)))"
proof (induction ps arbitrary: us us' ps' r)
  case Nil
  then show ?case by simp
next
  case (Cons p ps)
  let ?G = "\<lambda>xs. sum_list (map gp_pointsAwarded (filter (\<lambda>p. gp_user p = i) xs))"
  show ?case
  proof (cases "gp_group p = toUpperCase grp")
    case False
    obtain us1 ps1 r1 where rl: "ownerLoop F grp st us ps = ((us1, ps1), r1)"
      by (cases "ownerLoop F grp st us ps") auto
    with Cons.prems(1) False have e: "us' = us1" "ps' = p # ps1" "r = r1" by simp_all
    from Cons.IH[OF rl] Cons.prems(2) e(1) obtain u where
      u: "findById us i = Some u" "u' = u\<lparr>totalPoints := totalPoints u'\<rparr>"
         "\<forall>rs. r1 = Inr rs \<longrightarrow> totalPoints u' - ?G ps1 = totalPoints u - ?G ps"
      by blast
    from u(3) e have "\<forall>rs. r = Inr rs \<longrightarrow> totalPoints u' - ?G ps' = totalPoints u - ?G (p # ps)"
      by auto
    with u(1,2) show ?thesis by blast
  next
    case True
    note grp = True
    show ?thesis
    proof (cases st)
      case None
      with Cons.prems grp show ?thesis by auto
    next
      case (Some standings)
      let ?pts = "scoreGroupPrediction_serverJs p standings"
      let ?p' = "p\<lparr>gp_pointsAwarded := ?pts\<rparr>"
      show ?thesis
      proof (cases "groupPredictionSaveFails F ?p'")
        case True
        with Cons.prems grp Some show ?thesis by (auto simp: Let_def)
      next
        case nf: False
        show ?thesis
        proof (cases "findById us (gp_user p)")
          case None
          with Cons.prems grp Some nf show ?thesis by (auto simp: Let_def)
        next
          case (Some usr)
          note usr = Some
          let ?u = "usr\<lparr>totalPoints := totalPoints usr - gp_pointsAwarded p + ?pts\<rparr>"
          have uid: "u_id usr = gp_user p" using findById_SomeD[OF usr] by simp
          show ?thesis
          proof (cases "userSaveFails F ?u")
            case True
            with Cons.prems grp \<open>st = Some standings\<close> nf usr show ?thesis
              by (auto simp: Let_def)
          next
            case False
            obtain us1 ps1 r1 where rl: "ownerLoop F grp st (saveUser ?u us) ps = ((us1, ps1), r1)"
              by (cases "ownerLoop F grp st (saveUser ?u us) ps") auto
            with Cons.prems(1) grp \<open>st = Some standings\<close> nf usr False
            have e: "us' = us1" "ps' = ?p' # ps1" "\<forall>rs. r = Inr rs \<longrightarrow> (\<exists>rs1. r1 = Inr rs1)"
              by (cases r1; auto simp: Let_def)+
            from Cons.IH[OF rl] Cons.prems(2) e(1) obtain u1 where
              u1: "findById (saveUser ?u us) i = Some u1" "u' = u1\<lparr>totalPoints := totalPoints u'\<rparr>"
                  "\<forall>rs. r1 = Inr rs \<longrightarrow> totalPoints u' - ?G ps1 = totalPoints u1 - ?G ps"
              by blast
            show ?thesis
            proof (cases "i = gp_user p")
              case True
              have "findById (saveUser ?u us) (u_id ?u) = Some ?u"
                by (rule findById_saveUser[of us ?u usr]) (simp add: uid usr)
              with u1(1) True uid have u1eq: "u1 = ?u" by simp
              have a: "u' = usr\<lparr>totalPoints := totalPoints u'\<rparr>" using u1(2) u1eq by simp
              have b: "\<forall>rs. r = Inr rs \<longrightarrow>
                         totalPoints u' - ?G ps' = totalPoints usr - ?G (p # ps)"
              proof (intro allI impI)
                fix rs assume "r = Inr rs"
                with e(3) obtain rs1 where "r1 = Inr rs1" by blast
                with u1(3) have "totalPoints u' - ?G ps1 = totalPoints u1 - ?G ps" by blast
                with u1eq e(2) True
                show "totalPoints u' - ?G ps' = totalPoints usr - ?G (p # ps)" by simp
              qed
              from usr True a b show ?thesis by blast
            next
              case False
              then have "u_id ?u \<noteq> i" using uid by simp
              then have "findById (saveUser ?u us) i = findById us i"
                by (rule findById_saveUser_other)
              with u1(1) have fu: "findById us i = Some u1" by simp
              have b: "\<forall>rs. r = Inr rs \<longrightarrow>
                         totalPoints u' - ?G ps' = totalPoints u1 - ?G (p # ps)"
              proof (intro allI impI)
                fix rs assume "r = Inr rs"
                with e(3) obtain rs1 where "r1 = Inr rs1" by blast
                with u1(3) have "totalPoints u' - ?G ps1 = totalPoints u1 - ?G ps" by blast
                with e(2) False
                show "totalPoints u' - ?G ps' = totalPoints u1 - ?G (p # ps)" by simp
              qed
              from fu u1(2) b show ?thesis by blast
            qed
          qed
        qed
      qed
    qed
  qed
qed

lemma ownerResultsLoop_users:
  "ownerResultsLoop F d entries = (d', r) \<Longrightarrow> findById (users d') i = Some u' \<Longrightarrow>
     \<exists>u. findById (users d) i = Some u \<and> u' = u\<lparr>totalPoints := totalPoints u'\<rparr>
         \<and> (\<forall>rs. r = Inr rs \<longrightarrow>
               totalPoints u' - groupPoints d' i = totalPoints u - groupPoints d i)"
proof (induction entries arbitrary: d d' r)
  case Nil
  then show ?case by simp
next
  case (Cons en rest)
  obtain grp st where en: "en = (grp, st)" by (cases en)
  obtain us coll r1 where ol: "ownerLoop F grp st (users d) (groupPredictions d) = ((us, coll), r1)"
    by (cases "ownerLoop F grp st (users d) (groupPredictions d)") auto
  let ?d1 = "d\<lparr>users := us, groupPredictions := coll\<rparr>"
  have step: "\<exists>u. findById (users d) i = Some u \<and> u1 = u\<lparr>totalPoints := totalPoints u1\<rparr>
         \<and> (\<forall>rs. r1 = Inr rs \<longrightarrow>
               totalPoints u1 - groupPoints ?d1 i = totalPoints u - groupPoints d i)"
    if "findById us i = Some u1" for u1
    using ownerLoop_users[OF ol that] by (simp add: groupPoints_def)
  show ?case
  proof (cases r1)
    case (Inl e)
    with Cons.prems en ol have "d' = ?d1" "r = Inl e" by auto
    with Cons.prems(2) step[of u'] show ?thesis by auto
  next
    case (Inr rs1)
    obtain d2 r2 where rl: "ownerResultsLoop F ?d1 rest = (d2, r2)"
      by (cases "ownerResultsLoop F ?d1 rest")
    with Cons.prems(1) en ol Inr have e: "d' = d2" "\<forall>rs. r = Inr rs \<longrightarrow> (\<exists>rs2. r2 = Inr rs2)"
      by (cases r2; auto)+
    from Cons.IH[OF rl] Cons.prems(2) e(1) obtain u1 where
      u1: "findById (users ?d1) i = Some u1" "u' = u1\<lparr>totalPoints := totalPoints u'\<rparr>"
          "\<forall>rs. r2 = Inr rs \<longrightarrow> totalPoints u' - groupPoints d' i = totalPoints u1 - groupPoints ?d1 i"
      by blast
    from u1(1) have "findById us i = Some u1" by simp
    from step[OF this] Inr obtain u where
      u: "findById (users d) i = Some u" "u1 = u\<lparr>totalPoints := totalPoints u1\<rparr>"
         "totalPoints u1 - groupPoints ?d1 i = totalPoints u - groupPoints d i"
      by blast
    have a: "u' = u\<lparr>totalPoints := totalPoints u'\<rparr>"
    proof -
      have "u' = (u\<lparr>totalPoints := totalPoints u1\<rparr>)\<lparr>totalPoints := totalPoints u'\<rparr>"
        using u1(2) u(2) by simp
      then show ?thesis by simp
    qed
    have b: "\<forall>rs. r = Inr rs \<longrightarrow> totalPoints u' - groupPoints d' i = totalPoints u - groupPoints d i"
    proof (intro allI impI)
      fix rs assume "r = Inr rs"
      with e(2) obtain rs2 where "r2 = Inr rs2" by blast
      with u1(3) have "totalPoints u' - groupPoints d' i = totalPoints u1 - groupPoints ?d1 i"
        by blast
      with u(3) show "totalPoints u' - groupPoints d' i = totalPoints u - groupPoints d i" by simp
    qed
    from u(1) a b show ?thesis by blast
  qed
qed

lemma recalculateGroupPoints_serverJs_users:
  assumes run: "recalculateGroupPoints_serverJs F d groupResults = (d', resp)"
      and f: "findById (users d') i = Some u'"
  shows "\<exists>u. findById (users d) i = Some u \<and> u' = u\<lparr>totalPoints := totalPoints u'\<rparr>
         \<and> (\<forall>body. resp = Ok200 body \<longrightarrow>
               totalPoints u' = totalPoints u - groupPoints d i + groupPoints d' i)"
proof (cases groupResults)
  case None
  with run f show ?thesis by (auto simp: recalculateGroupPoints_serverJs_def)
next
  case (Some entries)
  obtain d1 r1 where ol: "ownerResultsLoop F d entries = (d1, r1)"
    by (cases "ownerResultsLoop F d entries")
  with run Some have e: "d' = d1" "\<forall>body. resp = Ok200 body \<longrightarrow> (\<exists>rs. r1 = Inr rs)"
    by (cases r1; auto simp: recalculateGroupPoints_serverJs_def)+
  from ownerResultsLoop_users[OF ol] f e(1) obtain u where
    u: "findById (users d) i = Some u" "u' = u\<lparr>totalPoints := totalPoints u'\<rparr>"
       "\<forall>rs. r1 = Inr rs \<longrightarrow> totalPoints u' - groupPoints d' i = totalPoints u - groupPoints d i"
    by blast
  have "\<forall>body. resp = Ok200 body \<longrightarrow>
               totalPoints u' = totalPoints u - groupPoints d i + groupPoints d' i"
  proof (intro allI impI)
    fix body assume "resp = Ok200 body"
    with e(2) obtain rs where "r1 = Inr rs" by blast
    with u(3) have "totalPoints u' - groupPoints d' i = totalPoints u - groupPoints d i" by blast
    then show "totalPoints u' = totalPoints u - groupPoints d i + groupPoints d' i" by simp
  qed
  with u(1,2) show ?thesis by blast
qed

text \<open>
  Claim C3, as the code has it. The code that saves user documents is
  \<open>recalcUserTotals\<close> with its callers (match finalization, the admin match update,
  calculate-all-points, the admin recalculation of group points and the four handlers that
  delete predictions), the group calculate-points handler and the sign-in callback; in
  \<open>src/server.js\<close> it is the group calculate-points handler, the admin recalculation
  of group points and the sign-in callback. After any of them a user document found in the
  store is one of the following. It is the document stored before. It is the document
  stored before with the three aggregates overwritten by the recomputed values. For the
  requesting user of the current calculate-points handler, it is the stored document with
  \<open>totalPoints\<close> set to (totalPoints || 0) - previous pointsAwarded + new points. For
  the requesting user of the calculate-points handler of \<open>src/server.js\<close>, it is the
  stored document with the new points added to \<open>totalPoints\<close>. After the admin
  recalculation of \<open>src/server.js\<close>, it is the stored document with another
  \<open>totalPoints\<close> and nothing else changed, and when the request is answered with
  success \<open>totalPoints\<close> has changed by as much as the sum of the points on the user's
  Group predictions. Or there was no document of that id before, the operation is a
  sign-in that created it, and its three aggregates are 0.
\<close>

theorem aggregate_writers:
  assumes f: "findById (users (exec F d op)) i = Some u'"
  shows "(\<exists>u. findById (users d) i = Some u \<and>
           (u' = u
            \<or> u' = recalcValue (exec F d op) i u
            \<or> (\<exists>g actual p. op = OpCalculateGroupPoints i g (Some actual)
                 \<and> find (\<lambda>p. gp_user p = i \<and> gp_group p = toUpperCase g) (groupPredictions d) = Some p
                 \<and> u' = u\<lparr>totalPoints := orZero (totalPoints u) - orZero (gp_pointsAwarded p)
                                          + fst (scoreGroupWithDetails p actual)\<rparr>)
            \<or> (\<exists>g actual p. op = OpCalculateGroupPoints_serverJs i g (Some actual)
                 \<and> find (\<lambda>p. gp_user p = i \<and> gp_group p = toUpperCase g) (groupPredictions d) = Some p
                 \<and> u' = u\<lparr>totalPoints := totalPoints u
                                          + fst (scoreGroupWithDetails_serverJs p actual)\<rparr>)
            \<or> (\<exists>groupResults. op = OpRecalculateGroupPoints_serverJs groupResults
                 \<and> u' = u\<lparr>totalPoints := totalPoints u'\<rparr>
                 \<and> (\<forall>body. snd (recalculateGroupPoints_serverJs F d groupResults) = Ok200 body \<longrightarrow>
                       totalPoints u' =
                         totalPoints u - groupPoints d i + groupPoints (exec F d op) i))))
       \<or> (findById (users d) i = None
          \<and> (\<exists>profile. op = OpGoogleSignIn profile i \<or> op = OpGoogleSignIn_serverJs profile i)
          \<and> totalPoints u' = 0 \<and> correctMatches u' = 0 \<and> correctScores u' = 0)"
proof (cases op)
  case (OpRecalcUserTotals uid)
  obtain d' r where run: "recalcUserTotals F d uid = (d', r)" by (cases "recalcUserTotals F d uid")
  from f OpRecalcUserTotals run have f': "findById (users d') i = Some u'" by simp
  from recalc_after[OF run refl f'] OpRecalcUserTotals run show ?thesis by auto
next
  case (OpCalculateMatchPoints mid)
  obtain d' e where run: "calculateMatchPointsForAllUsers F d mid = (d', e)"
    by (cases "calculateMatchPointsForAllUsers F d mid")
  from f OpCalculateMatchPoints run have f': "findById (users d') i = Some u'" by simp
  from calculateMatchPoints_users[OF run f'] OpCalculateMatchPoints run show ?thesis by auto
next
  case (OpAdminUpdateMatch mid hs as st)
  obtain d' e where run: "adminUpdateMatch F d mid hs as st = (d', e)"
    by (cases "adminUpdateMatch F d mid hs as st")
  from f OpAdminUpdateMatch run have f': "findById (users d') i = Some u'" by simp
  from adminUpdateMatch_users[OF run f'] OpAdminUpdateMatch run show ?thesis by auto
next
  case OpCalculateAllPoints
  obtain d' e where run: "calculateAllPoints F d = (d', e)" by (cases "calculateAllPoints F d")
  from f OpCalculateAllPoints run have f': "findById (users d') i = Some u'" by simp
  from calculateAllPoints_users[OF run f'] OpCalculateAllPoints run show ?thesis by auto
next
  case (OpCalculateGroupPoints reqUser g st)
  obtain d' e where run: "calculateGroupPoints F d reqUser g st = (d', e)"
    by (cases "calculateGroupPoints F d reqUser g st")
  from f OpCalculateGroupPoints run have f': "findById (users d') i = Some u'" by simp
  from calculateGroupPoints_users[OF run f'] OpCalculateGroupPoints show ?thesis by auto
next
  case (OpDeleteMatchPrediction reqUser mid)
  obtain d' e where run: "deleteMatchPrediction F d reqUser mid = (d', e)"
    by (cases "deleteMatchPrediction F d reqUser mid")
  from f OpDeleteMatchPrediction run have f': "findById (users d') i = Some u'" by simp
  from deleteMatchPrediction_users[OF run f'] OpDeleteMatchPrediction run show ?thesis by auto
next
  case (OpDeleteGroupPrediction reqUser g)
  obtain d' e where run: "deleteGroupPrediction F d reqUser g = (d', e)"
    by (cases "deleteGroupPrediction F d reqUser g")
  from f OpDeleteGroupPrediction run have f': "findById (users d') i = Some u'" by simp
  from deleteGroupPrediction_users[OF run f'] OpDeleteGroupPrediction run show ?thesis by auto
next
  case (OpDeleteTournamentPrediction reqUser)
  obtain d' e where run: "deleteTournamentPrediction F d reqUser = (d', e)"
    by (cases "deleteTournamentPrediction F d reqUser")
  from f OpDeleteTournamentPrediction run have f': "findById (users d') i = Some u'" by simp
  from deleteTournamentPrediction_users[OF run f'] OpDeleteTournamentPrediction run
  show ?thesis by auto
next
  case (OpDeleteKnockoutPredictions reqUser)
  obtain d' e where run: "deleteKnockoutPredictions F d reqUser = (d', e)"
    by (cases "deleteKnockoutPredictions F d reqUser")
  from f OpDeleteKnockoutPredictions run have f': "findById (users d') i = Some u'" by simp
  from deleteKnockoutPredictions_users[OF run f'] OpDeleteKnockoutPredictions run
  show ?thesis by auto
next
  case (OpRecalculateGroupPoints groupResults)
  obtain d' e where run: "recalculateGroupPoints F d groupResults = (d', e)"
    by (cases "recalculateGroupPoints F d groupResults")
  from f OpRecalculateGroupPoints run have f': "findById (users d') i = Some u'" by simp
  from recalculateGroupPoints_users[OF run f'] OpRecalculateGroupPoints run
  show ?thesis by auto
next
  case (OpGoogleSignIn profile newId)
  obtain d' r where run: "googleSignIn F d profile newId = (d', r)"
    by (cases "googleSignIn F d profile newId")
  from f OpGoogleSignIn run have f': "findById (users d') i = Some u'" by simp
  from googleSignIn_users[OF run f'] OpGoogleSignIn show ?thesis by auto
next
  case (OpCalculateGroupPoints_serverJs reqUser g st)
  obtain d' e where run: "calculateGroupPoints_serverJs F d reqUser g st = (d', e)"
    by (cases "calculateGroupPoints_serverJs F d reqUser g st")
  from f OpCalculateGroupPoints_serverJs run have f': "findById (users d') i = Some u'" by simp
  from calculateGroupPoints_serverJs_users[OF run f'] OpCalculateGroupPoints_serverJs
  show ?thesis by auto
next
  case (OpRecalculateGroupPoints_serverJs groupResults)
  obtain d' e where run: "recalculateGroupPoints_serverJs F d groupResults = (d', e)"
    by (cases "recalculateGroupPoints_serverJs F d groupResults")
  from f OpRecalculateGroupPoints_serverJs run have f': "findById (users d') i = Some u'" by simp
  from recalculateGroupPoints_serverJs_users[OF run f'] obtain u where
    u: "findById (users d) i = Some u" "u' = u\<lparr>totalPoints := totalPoints u'\<rparr>"
       "\<forall>body. e = Ok200 body \<longrightarrow>
               totalPoints u' = totalPoints u - groupPoints d i + groupPoints d' i"
    by blast
  have "\<exists>groupResults. op = OpRecalculateGroupPoints_serverJs groupResults
                 \<and> u' = u\<lparr>totalPoints := totalPoints u'\<rparr>
                 \<and> (\<forall>body. snd (recalculateGroupPoints_serverJs F d groupResults) = Ok200 body \<longrightarrow>
                       totalPoints u' =
                         totalPoints u - groupPoints d i + groupPoints (exec F d op) i)"
    using OpRecalculateGroupPoints_serverJs run u(2,3) by auto
  with u(1) show ?thesis by blast
next
  case (OpGoogleSignIn_serverJs profile newId)
  obtain d' r where run: "googleSignIn_serverJs F d profile newId = (d', r)"
    by (cases "googleSignIn_serverJs F d profile newId")
  from f OpGoogleSignIn_serverJs run have f': "findById (users d') i = Some u'" by simp
  from googleSignIn_serverJs_users[OF run f'] OpGoogleSignIn_serverJs show ?thesis by auto
qed

text \<open>
  Claim C3 as stated fails. The group calculate-points handler writes ana's
  \<open>totalPoints\<close> itself: from 0 to -7, by subtracting the 15 points the prediction had
  and adding its 8 new points, where recomputing the aggregates from the stored predictions
  gives 8.
\<close>

theorem recalc_only_writer_counterexample:
  "findById (users exampleDb) 1 =
     Some \<lparr>u_id = 1, username = ''ana'', totalPoints = 0, correctMatches = 0, correctScores = 0\<rparr>
   \<and> snd (calculateGroupPoints noFaults exampleDb 1 ''a''
            (Some \<lparr>st_first = Some 100, st_second = Some 101, st_third = None\<rparr>)) =
       Ok200 \<lparr>gr_group = ''A'', gr_pointsEarned = 8, gr_previousPoints = 15, gr_totalPoints = - 7,
              gr_details =
                \<lparr>firstPlace = \<lparr>dt_correct = True, dt_points = 5\<rparr>,
                 secondPlace = \<lparr>dt_correct = True, dt_points = 3\<rparr>,
                 thirdPlace = \<lparr>dt_correct = False, dt_points = 0\<rparr>,
                 perfectBonus = None\<rparr>\<rparr>
   \<and> findById
         (users (fst (calculateGroupPoints noFaults exampleDb 1 ''a''
            (Some \<lparr>st_first = Some 100, st_second = Some 101, st_third = None\<rparr>)))) 1 =
     Some \<lparr>u_id = 1, username = ''ana'', totalPoints = - 7, correctMatches = 0, correctScores = 0\<rparr>
   \<and> recalcValue
         (fst (calculateGroupPoints noFaults exampleDb 1 ''a''
            (Some \<lparr>st_first = Some 100, st_second = Some 101, st_third = None\<rparr>))) 1
         \<lparr>u_id = 1, username = ''ana'', totalPoints = 0, correctMatches = 0, correctScores = 0\<rparr> =
     \<lparr>u_id = 1, username = ''ana'', totalPoints = 8, correctMatches = 0, correctScores = 0\<rparr>"
  by code_simp

theorem aggregate_writers_witness:
  "findById (users exampleDb) 1 =
     Some \<lparr>u_id = 1, username = ''ana'', totalPoints = 0, correctMatches = 0, correctScores = 0\<rparr>
   \<and> findById
       (users (exec noFaults exampleDb
          (OpCalculateGroupPoints 1 ''a''
             (Some \<lparr>st_first = Some 100, st_second = Some 101, st_third = None\<rparr>)))) 1 =
     Some \<lparr>u_id = 1, username = ''ana'', totalPoints = - 7, correctMatches = 0, correctScores = 0\<rparr>
   \<and> findById
       (users (exec noFaults exampleDb
          (OpCalculateGroupPoints_serverJs 1 ''a''
             (Some \<lparr>rs_first = IdString 100, rs_second = IdString 101, rs_third = Undefined\<rparr>)))) 1 =
     Some \<lparr>u_id = 1, username = ''ana'', totalPoints = 8, correctMatches = 0, correctScores = 0\<rparr>
   \<and> findById
       (users (exec noFaults exampleDb
          (OpRecalculateGroupPoints_serverJs
             (Some [(''a'', Some \<lparr>rs_first = IdString 100, rs_second = IdString 101,
                                  rs_third = Undefined\<rparr>)])))) 1 =
     Some \<lparr>u_id = 1, username = ''ana'', totalPoints = - 7, correctMatches = 0, correctScores = 0\<rparr>
   \<and> findById (users (exec noFaults finalizedDb (OpDeleteGroupPrediction 1 ''a''))) 1 =
     Some \<lparr>u_id = 1, username = ''ana'', totalPoints = 8, correctMatches = 1, correctScores = 1\<rparr>
   \<and> findById
       (users (exec noFaults exampleDb
          (OpGoogleSignIn \<lparr>pr_displayName = None, pr_selects = (\<lambda>u. False),
                           pr_hasGoogleId = (\<lambda>u. False)\<rparr> 4))) 4 =
     Some \<lparr>u_id = 4, username = ''Usuario'', totalPoints = 0, correctMatches = 0,
           correctScores = 0\<rparr>"
proof -
  let ?op1 = "OpCalculateGroupPoints 1 ''a''
             (Some \<lparr>st_first = Some 100, st_second = Some 101, st_third = None\<rparr>)"
  let ?op2 = "OpCalculateGroupPoints_serverJs 1 ''a''
             (Some \<lparr>rs_first = IdString 100, rs_second = IdString 101, rs_third = Undefined\<rparr>)"
  let ?op3 = "OpRecalculateGroupPoints_serverJs
             (Some [(''a'', Some \<lparr>rs_first = IdString 100, rs_second = IdString 101,
                                  rs_third = Undefined\<rparr>)])"
  let ?op4 = "OpDeleteGroupPrediction 1 ''a''"
  let ?op5 = "OpGoogleSignIn \<lparr>pr_displayName = None, pr_selects = (\<lambda>u. False),
                           pr_hasGoogleId = (\<lambda>u. False)\<rparr> 4"
  have g: "findById (users exampleDb) 1 =
     Some \<lparr>u_id = 1, username = ''ana'', totalPoints = 0, correctMatches = 0, correctScores = 0\<rparr>"
    by code_simp
  have f1: "findById (users (exec noFaults exampleDb ?op1)) 1 =
     Some \<lparr>u_id = 1, username = ''ana'', totalPoints = - 7, correctMatches = 0, correctScores = 0\<rparr>"
    by code_simp
  have f2: "findById (users (exec noFaults exampleDb ?op2)) 1 =
     Some \<lparr>u_id = 1, username = ''ana'', totalPoints = 8, correctMatches = 0, correctScores = 0\<rparr>"
    by code_simp
  have f3: "findById (users (exec noFaults exampleDb ?op3)) 1 =
     Some \<lparr>u_id = 1, username = ''ana'', totalPoints = - 7, correctMatches = 0, correctScores = 0\<rparr>"
    by code_simp
  have f4: "findById (users (exec noFaults finalizedDb ?op4)) 1 =
     Some \<lparr>u_id = 1, username = ''ana'', totalPoints = 8, correctMatches = 1, correctScores = 1\<rparr>"
    by code_simp
  have f5: "findById (users (exec noFaults exampleDb ?op5)) 4 =
     Some \<lparr>u_id = 4, username = ''Usuario'', totalPoints = 0, correctMatches = 0,
           correctScores = 0\<rparr>"
    by code_simp
  note T = aggregate_writers[OF f1] aggregate_writers[OF f2] aggregate_writers[OF f3]
           aggregate_writers[OF f4] aggregate_writers[OF f5]
  from T g f1 f2 f3 f4 f5 show ?thesis by blast
qed

section \<open>Knockout results\<close>

lemma findTeamById_SomeD: "findTeamById ts i = Some t \<Longrightarrow> t_id t = i"
  unfolding findTeamById_def by (induction ts) (auto split: if_splits)

lemma buildRealById_frame:
  "buildRealById ts ms acc = Inr R \<Longrightarrow> i \<notin> m_id ` set ms \<Longrightarrow> R i = acc i"
proof (induction ms arbitrary: acc)
  case Nil
  then show ?case by simp
next
  case (Cons m ms)
  from Cons.prems(2) have i: "i \<noteq> m_id m" "i \<notin> m_id ` set ms" by auto
  from Cons.prems(1) obtain r where "buildRealById ts ms (acc(m_id m \<mapsto> r)) = Inr R"
    by (auto split: if_splits option.splits)
  from Cons.IH[OF this i(2)] i(1) show ?case by simp
qed

lemma buildRealById_entry:
  "buildRealById ts ms acc = Inr R \<Longrightarrow> distinct (map m_id ms) \<Longrightarrow> m \<in> set ms \<Longrightarrow>
     \<exists>r. R (m_id m) = Some r \<and> winnerId r = winnerSide m
         \<and> (\<forall>w. winnerSide m = Some w \<longrightarrow> findTeamById ts w \<noteq> None)"
proof (induction ms arbitrary: acc)
  case Nil
  then show ?case by simp
next
  case (Cons x xs)
  from Cons.prems(2) have dx: "m_id x \<notin> m_id ` set xs" and dxs: "distinct (map m_id xs)"
    by auto
  show ?case
  proof (cases "m = x")
    case False
    with Cons.prems(3) have mx: "m \<in> set xs" by simp
    from Cons.prems(1) obtain r where "buildRealById ts xs (acc(m_id x \<mapsto> r)) = Inr R"
      by (auto split: if_splits option.splits)
    from Cons.IH[OF this dxs mx] show ?thesis .
  next
    case True
    from Cons.prems(1) obtain r where
      rest: "buildRealById ts xs (acc(m_id x \<mapsto> r)) = Inr R"
      and r: "winnerId r = winnerSide x"
      and t: "\<forall>w. winnerSide x = Some w \<longrightarrow> findTeamById ts w \<noteq> None"
      by (auto simp: winnerSide_def dest: findTeamById_SomeD split: if_splits option.splits)
    from buildRealById_frame[OF rest dx] have "R (m_id x) = Some r" by simp
    with r t True show ?thesis by simp
  qed
qed

lemma results_fold:
  "fst (foldl (\<lambda>(results, correct, pts) p.
                 let r = f p
                 in if kr_isCorrect r = Some True
                    then (results @ [r], correct + 1, pts + kr_pointsEarned r)
                    else (results @ [r], correct, pts))
              (acc, c, s) ps) = acc @ map f ps"
  by (induction ps arbitrary: acc c s) (simp_all add: Let_def)

lemma knockoutResults_Ok:
  assumes "knockoutResults d uid = Ok200 (rs, summ)"
  shows "\<exists>R. buildRealById (teams d) (playedKnockoutMatches d) Map.empty = Inr R
           \<and> rs = map (knockoutResult d R) (userKnockoutPredictions d uid)"
proof -
  from assms obtain R where
    R: "buildRealById (teams d) (playedKnockoutMatches d) Map.empty = Inr R"
    by (auto simp: knockoutResults_def Let_def split: sum.splits)
  let ?f = "\<lambda>(results, correct, pts) p.
                 let r = knockoutResult d R p
                 in if kr_isCorrect r = Some True
                    then (results @ [r], correct + 1, pts + kr_pointsEarned r)
                    else (results @ [r], correct, pts)"
  from assms R have "rs = fst (foldl ?f ([], 0::int, 0::int) (userKnockoutPredictions d uid))"
    by (auto simp: knockoutResults_def Let_def split: prod.splits)
  then have "rs = map (knockoutResult d R) (userKnockoutPredictions d uid)"
    using results_fold[of "knockoutResult d R" "[]" "0::int" "0::int" "userKnockoutPredictions d uid"]
    by simp
  with R show ?thesis by blast
qed

lemma real_of_linked:
  assumes R: "buildRealById (teams d) (playedKnockoutMatches d) Map.empty = Inr R"
      and ids: "distinct (map m_id (matches d))"
      and m: "findMatchById (matches d) mid = Some m"
  shows "(m \<in> set (playedKnockoutMatches d) \<longrightarrow>
            (\<exists>r. R mid = Some r \<and> winnerId r = winnerSide m
               \<and> (\<forall>w. winnerSide m = Some w \<longrightarrow> findTeamById (teams d) w \<noteq> None)))
       \<and> (m \<notin> set (playedKnockoutMatches d) \<longrightarrow> R mid = None)"
proof -
  have mm: "m_id m = mid" "m \<in> set (matches d)" using findMatchById_SomeD[OF m] by simp_all
  have dp: "distinct (map m_id (playedKnockoutMatches d))"
    unfolding playedKnockoutMatches_def using ids by (rule distinct_map_filter)
  have a: "m \<in> set (playedKnockoutMatches d) \<longrightarrow>
            (\<exists>r. R mid = Some r \<and> winnerId r = winnerSide m
               \<and> (\<forall>w. winnerSide m = Some w \<longrightarrow> findTeamById (teams d) w \<noteq> None))"
    using buildRealById_entry[OF R dp, of m] mm by simp
  have b: "m \<notin> set (playedKnockoutMatches d) \<longrightarrow> R mid = None"
  proof
    assume np: "m \<notin> set (playedKnockoutMatches d)"
    have "mid \<notin> m_id ` set (playedKnockoutMatches d)"
    proof
      assume "mid \<in> m_id ` set (playedKnockoutMatches d)"
      then obtain x where x: "x \<in> set (playedKnockoutMatches d)" "m_id x = mid" by auto
      then have "x \<in> set (matches d)" by (simp add: playedKnockoutMatches_def)
      with ids mm x(2) have "x = m" by (metis distinct_map inj_on_def)
      with x np show False by simp
    qed
    from buildRealById_frame[OF R this] show "R mid = None" by simp
  qed
  from a b show ?thesis by blast
qed

lemma phasePoints_nonzero: "phasePoints s \<noteq> 0"
  by (cases s) (simp_all add: phasePoints_def)

lemma knockoutResult_unlisted:
  assumes "kp_match p = Some mid" "findMatchById (matches d) mid = Some m" "R mid = None"
  shows "kr_isCorrect (knockoutResult d R p) = None \<and> kr_pointsEarned (knockoutResult d R p) = 0"
proof -
  have "m_id m = mid" using findMatchById_SomeD[OF assms(2)] by simp
  with assms show ?thesis by (simp add: knockoutResult_def Let_def)
qed

lemma knockoutResult_draw:
  assumes "kp_match p = Some mid" "findMatchById (matches d) mid = Some m"
      and "R mid = Some r" "winnerId r = None"
  shows "kr_isCorrect (knockoutResult d R p) = None \<and> kr_pointsEarned (knockoutResult d R p) = 0"
proof -
  have "m_id m = mid" using findMatchById_SomeD[OF assms(2)] by simp
  with assms show ?thesis by (simp add: knockoutResult_def Let_def)
qed

lemma knockoutResult_decided:
  assumes "kp_match p = Some mid" "findMatchById (matches d) mid = Some m"
      and "R mid = Some r" "winnerId r = Some w" "findTeamById (teams d) w \<noteq> None"
  shows "kr_isCorrect (knockoutResult d R p) = Some (predictedWinnerTeam p = w)
       \<and> kr_pointsEarned (knockoutResult d R p)
           = (if predictedWinnerTeam p = w then phasePoints (kp_stage p) else 0)"
proof -
  have mid: "m_id m = mid" using findMatchById_SomeD[OF assms(2)] by simp
  have c: "(case findTeamById (teams d) (predictedWinnerTeam p) of
              None \<Rightarrow> False | Some t \<Rightarrow> t_id t = w) = (predictedWinnerTeam p = w)"
  proof (cases "findTeamById (teams d) (predictedWinnerTeam p)")
    case None
    with assms(5) show ?thesis by auto
  next
    case (Some t)
    with findTeamById_SomeD[OF Some] show ?thesis by simp
  qed
  show ?thesis
    using assms(1-4) mid c by (simp add: knockoutResult_def Let_def phasePoints_nonzero)
qed

lemma played_iff:
  "m \<in> set (matches d) \<Longrightarrow>
     m \<in> set (playedKnockoutMatches d) \<longleftrightarrow> phase m \<noteq> GroupStage \<and> status m = Finished"
  by (cases "phase m") (simp_all add: playedKnockoutMatches_def)

text \<open>
  Claim C6, as the code has it. In the answer of the knockout results query, the entry of
  a prediction whose linked match is finished reports \<open>isCorrect = null\<close> and 0
  points when the match ended with equal scores, and also when the match is not in a
  knockout phase, for the query loads the finished matches of the knockout phases only.
  When the linked match is a finished knockout match with different scores,
  \<open>isCorrect\<close> is true or false as the predicted winner is the winning side or not,
  and the points are the value of the prediction's stage (Round of 32: 1, Round of 16: 2,
  Quarter Finals: 3, Semi Finals: 5, Third Place: 3, Final: 10) if it is, else 0. Match
  ids are unique.
\<close>

theorem knockout_results_rule:
  assumes q: "knockoutResults d uid = Ok200 (rs, summ)"
      and ids: "distinct (map m_id (matches d))"
      and k: "k < length (userKnockoutPredictions d uid)"
      and link: "kp_match (userKnockoutPredictions d uid ! k) = Some mid"
      and m: "findMatchById (matches d) mid = Some m"
      and fin: "status m = Finished"
  shows "length rs = length (userKnockoutPredictions d uid)
       \<and> kr_stage (rs ! k) = kp_stage (userKnockoutPredictions d uid ! k)
       \<and> kr_matchOrder (rs ! k) = kp_matchOrder (userKnockoutPredictions d uid ! k)
       \<and> (homeScore m = awayScore m \<or> phase m = GroupStage \<longrightarrow>
            kr_isCorrect (rs ! k) = None \<and> kr_pointsEarned (rs ! k) = 0)
       \<and> (\<forall>h a. phase m \<noteq> GroupStage \<and> homeScore m = Some h \<and> awayScore m = Some a \<and> h \<noteq> a \<longrightarrow>
            kr_isCorrect (rs ! k)
              = Some (predictedWinnerTeam (userKnockoutPredictions d uid ! k)
                        = (if h > a then homeTeam m else awayTeam m))
            \<and> kr_pointsEarned (rs ! k)
              = (if predictedWinnerTeam (userKnockoutPredictions d uid ! k)
                      = (if h > a then homeTeam m else awayTeam m)
                 then phasePoints (kp_stage (userKnockoutPredictions d uid ! k)) else 0))
       \<and> phasePoints RoundOf32 = 1 \<and> phasePoints RoundOf16 = 2 \<and> phasePoints QuarterFinals = 3
       \<and> phasePoints SemiFinals = 5 \<and> phasePoints ThirdPlace = 3 \<and> phasePoints Final = 10"
proof -
  let ?p = "userKnockoutPredictions d uid ! k"
  from knockoutResults_Ok[OF q] obtain R where
    R: "buildRealById (teams d) (playedKnockoutMatches d) Map.empty = Inr R"
    and rs: "rs = map (knockoutResult d R) (userKnockoutPredictions d uid)" by blast
  have len: "length rs = length (userKnockoutPredictions d uid)" by (simp add: rs)
  have rk: "rs ! k = knockoutResult d R ?p" using k by (simp add: rs)
  have st: "kr_stage (rs ! k) = kp_stage ?p" "kr_matchOrder (rs ! k) = kp_matchOrder ?p"
    by (simp_all add: rk knockoutResult_def Let_def split: prod.splits)
  have mm: "m \<in> set (matches d)" using findMatchById_SomeD[OF m] by simp
  note lk = real_of_linked[OF R ids m]
  have none: "homeScore m = awayScore m \<or> phase m = GroupStage \<longrightarrow>
            kr_isCorrect (rs ! k) = None \<and> kr_pointsEarned (rs ! k) = 0"
  proof
    assume h: "homeScore m = awayScore m \<or> phase m = GroupStage"
    show "kr_isCorrect (rs ! k) = None \<and> kr_pointsEarned (rs ! k) = 0"
    proof (cases "m \<in> set (playedKnockoutMatches d)")
      case False
      with lk have "R mid = None" by simp
      from knockoutResult_unlisted[where R = R, OF link m this] show ?thesis by (simp add: rk)
    next
      case True
      with played_iff[OF mm] h have eq: "homeScore m = awayScore m" by simp
      from True lk obtain r where r: "R mid = Some r" "winnerId r = winnerSide m" by blast
      have "winnerSide m = None" using eq by (simp add: winnerSide_def jsGt_def)
      with r have "winnerId r = None" by simp
      from knockoutResult_draw[where R = R, OF link m r(1) this] show ?thesis by (simp add: rk)
    qed
  qed
  have dec: "\<forall>h a. phase m \<noteq> GroupStage \<and> homeScore m = Some h \<and> awayScore m = Some a \<and> h \<noteq> a \<longrightarrow>
            kr_isCorrect (rs ! k)
              = Some (predictedWinnerTeam ?p = (if h > a then homeTeam m else awayTeam m))
            \<and> kr_pointsEarned (rs ! k)
              = (if predictedWinnerTeam ?p = (if h > a then homeTeam m else awayTeam m)
                 then phasePoints (kp_stage ?p) else 0)"
  proof (intro allI impI, elim conjE)
    fix h a
    assume ph: "phase m \<noteq> GroupStage" and hs: "homeScore m = Some h"
       and as: "awayScore m = Some a" and ne: "h \<noteq> a"
    let ?w = "if h > a then homeTeam m else awayTeam m"
    have pl: "m \<in> set (playedKnockoutMatches d)" using played_iff[OF mm] ph fin by simp
    have ws: "winnerSide m = Some ?w"
      using hs as ne by (auto simp: winnerSide_def jsGt_def toNumber_def)
    from pl lk ws obtain r where r: "R mid = Some r" "winnerId r = Some ?w"
      and t: "findTeamById (teams d) ?w \<noteq> None" by auto
    from knockoutResult_decided[where R = R, OF link m r t]
    show "kr_isCorrect (rs ! k) = Some (predictedWinnerTeam ?p = ?w)
            \<and> kr_pointsEarned (rs ! k)
              = (if predictedWinnerTeam ?p = ?w then phasePoints (kp_stage ?p) else 0)"
      by (simp add: rk)
  qed
  have tbl: "phasePoints RoundOf32 = 1 \<and> phasePoints RoundOf16 = 2 \<and> phasePoints QuarterFinals = 3
       \<and> phasePoints SemiFinals = 5 \<and> phasePoints ThirdPlace = 3 \<and> phasePoints Final = 10"
    by (simp add: phasePoints_def)
  from len st none dec tbl show ?thesis by blast
qed

text \<open>
  Claim C6 as stated fails. A Round of 32 prediction linked to the finished group-stage
  match that the home team won 2-0, with the home team as predicted winner: the entry
  reports \<open>null\<close> and 0 points, not the stage's 1 point.
\<close>

theorem knockout_points_any_decided_match_counterexample:
  "knockoutResults misLinkedDb 2 =
     Ok200 ([\<lparr>kr_stage = RoundOf32, kr_matchOrder = 1, kr_matchId = Some 10,
              kr_myPrediction = Some ''Mexico'', kr_actualWinner = None,
              kr_isCorrect = None, kr_pointsEarned = 0\<rparr>],
            \<lparr>totalPredictions = 1, completedMatches = 0, pendingMatches = 1,
             correctPredictions = 0, pointsFromKnockout = 0\<rparr>)
   \<and> findMatchById (matches misLinkedDb) 10 = Some exampleMatch
   \<and> status exampleMatch = Finished
   \<and> homeScore exampleMatch = Some 2 \<and> awayScore exampleMatch = Some 0
   \<and> homeTeam exampleMatch = 100
   \<and> map predictedWinnerTeam (userKnockoutPredictions misLinkedDb 2) = [100]
   \<and> map kp_match (userKnockoutPredictions misLinkedDb 2) = [Some 10]
   \<and> phasePoints RoundOf32 = 1"
  by code_simp

theorem knockout_results_rule_witness:
  "knockoutResults exampleDb 1 =
     Ok200
      ([\<lparr>kr_stage = Final, kr_matchOrder = 1, kr_matchId = Some 20,
         kr_myPrediction = Some ''Mexico'', kr_actualWinner = Some ''Empate'',
         kr_isCorrect = None, kr_pointsEarned = 0\<rparr>,
        \<lparr>kr_stage = SemiFinals, kr_matchOrder = 1, kr_matchId = Some 21,
         kr_myPrediction = Some ''Canada'', kr_actualWinner = Some ''Canada'',
         kr_isCorrect = Some True, kr_pointsEarned = 5\<rparr>,
        \<lparr>kr_stage = SemiFinals, kr_matchOrder = 2, kr_matchId = Some 21,
         kr_myPrediction = Some ''Brasil'', kr_actualWinner = Some ''Canada'',
         kr_isCorrect = Some False, kr_pointsEarned = 0\<rparr>],
       \<lparr>totalPredictions = 3, completedMatches = 2, pendingMatches = 1,
        correctPredictions = 1, pointsFromKnockout = 5\<rparr>)
   \<and> distinct (map m_id (matches exampleDb))"
proof -
  let ?rs = "[\<lparr>kr_stage = Final, kr_matchOrder = 1, kr_matchId = Some 20,
         kr_myPrediction = Some ''Mexico'', kr_actualWinner = Some ''Empate'',
         kr_isCorrect = None, kr_pointsEarned = 0\<rparr>,
        \<lparr>kr_stage = SemiFinals, kr_matchOrder = 1, kr_matchId = Some 21,
         kr_myPrediction = Some ''Canada'', kr_actualWinner = Some ''Canada'',
         kr_isCorrect = Some True, kr_pointsEarned = 5\<rparr>,
        \<lparr>kr_stage = SemiFinals, kr_matchOrder = 2, kr_matchId = Some 21,
         kr_myPrediction = Some ''Brasil'', kr_actualWinner = Some ''Canada'',
         kr_isCorrect = Some False, kr_pointsEarned = 0\<rparr>]"
  let ?s = "\<lparr>totalPredictions = 3, completedMatches = 2, pendingMatches = 1,
        correctPredictions = 1, pointsFromKnockout = 5\<rparr>"
  let ?m = "\<lparr>m_id = 21, homeTeam = 101, awayTeam = 102, homeScore = Some 3,
          awayScore = Some 1, phase = Knockout SemiFinals, status = Finished\<rparr>"
  have q: "knockoutResults exampleDb 1 = Ok200 (?rs, ?s)" by code_simp
  have ids: "distinct (map m_id (matches exampleDb))" by code_simp
  have k: "1 < length (userKnockoutPredictions exampleDb 1)" by code_simp
  have link: "kp_match (userKnockoutPredictions exampleDb 1 ! 1) = Some 21" by code_simp
  have m: "findMatchById (matches exampleDb) 21 = Some ?m" by code_simp
  have fin: "status ?m = Finished" by simp
  from knockout_results_rule[OF q ids k link m fin] q ids show ?thesis by simp
qed

end
